(* ===== verification/Xdp_Prelude.thy ===== *)
theory Xdp_Prelude
  imports Main "HOL-Library.Word" "HOL-Library.Sublist"
begin

text \<open>
  The prelude of the xdpfilter development: the machine integers and byte strings that
  the Go control plane and the BPF data path share, Go slices with their nil value,
  the named theorem collections, and the generic facts on words, lists, options and maps
  that the component theories use.
\<close>

unbundle bit_operations_syntax

section \<open>Types\<close>

type_synonym u8 = "8 word"
type_synonym u16 = "16 word"
type_synonym u32 = "32 word"
type_synonym u64 = "64 word"

text \<open>Raw memory: packets, map keys and map values are byte lists.\<close>

type_synonym bytes = "8 word list"

text \<open>
  A Go slice is nil or has elements; \<open>reflect.DeepEqual\<close> tells nil from the empty slice,
  while \<open>len\<close> and \<open>range\<close> do not. \<open>elems\<close> is what \<open>range\<close> visits, \<open>copySlice\<close> is
  \<open>append([]T(nil), s...)\<close>, which gives nil for an empty source, and \<open>appendSlice\<close> is
  \<open>append(s, x)\<close>, which is never nil.
\<close>

type_synonym 'a slice = "'a list option"

primrec elems :: "'a slice \<Rightarrow> 'a list" where
  "elems None = []"
| "elems (Some xs) = xs"

definition copySlice :: "'a slice \<Rightarrow> 'a slice" where
  "copySlice s = (if elems s = [] then None else Some (elems s))"

definition appendSlice :: "'a slice \<Rightarrow> 'a \<Rightarrow> 'a slice" where
  "appendSlice s x = Some (elems s @ [x])"

section \<open>Theorem collections\<close>

named_theorems xdp_defs "definitions that unfold for evaluation and case analysis"
named_theorems flow_simps "facts on flow-table lookups after a handler ran"
named_theorems inv_intros "preservation facts of component invariants"

section \<open>Slices\<close>

lemma elems_copySlice [simp]: "elems (copySlice s) = elems s"
  by (simp add: copySlice_def)

lemma elems_appendSlice [simp]: "elems (appendSlice s x) = elems s @ [x]"
  by (simp add: appendSlice_def)

lemma copySlice_idem [simp]: "copySlice (copySlice s) = copySlice s"
  by (simp add: copySlice_def)

lemma copySlice_eq_iff: "copySlice s = copySlice t \<longleftrightarrow> elems s = elems t"
  by (auto simp: copySlice_def split: if_splits)

lemma copySlice_neq_empty [simp]: "copySlice s \<noteq> Some []"
  by (simp add: copySlice_def)

section \<open>Powers of two by the \<open>x & (x-1)\<close> test\<close>

lemma and_double_pred: "(2 * y) AND (2 * y - 1) = 2 * (y AND (y - 1))" for y :: nat
proof (cases y)
  case (Suc z)
  have "(2 * Suc z - 1) div 2 = z" by simp
  then show ?thesis unfolding Suc by (subst and_rec) simp
qed simp

lemma and_odd_pred: "(2 * y + 1) AND (2 * y) = 2 * y" for y :: nat
  by (subst and_rec) simp

lemma and_pred_eq_0_iff: "0 < x \<Longrightarrow> x AND (x - 1) = 0 \<longleftrightarrow> (\<exists>n. x = 2 ^ n)" for x :: nat
proof (induction x rule: less_induct)
  case (less x)
  show ?case
  proof (cases "even x")
    case True
    with less.prems obtain y where y: "x = 2 * y" "0 < y" "y < x" by (auto elim!: evenE)
    have "x AND (x - 1) = 2 * (y AND (y - 1))" unfolding y(1) by (rule and_double_pred)
    then have "x AND (x - 1) = 0 \<longleftrightarrow> y AND (y - 1) = 0" by (metis mult_is_0 zero_neq_numeral)
    also have "\<dots> \<longleftrightarrow> (\<exists>n. y = 2 ^ n)" by (rule less.IH [OF y(3) y(2)])
    also have "\<dots> \<longleftrightarrow> (\<exists>n. x = 2 ^ n)"
    proof
      assume "\<exists>n. y = 2 ^ n"
      then obtain n where "y = 2 ^ n" ..
      with y(1) have "x = 2 ^ Suc n" by simp
      then show "\<exists>n. x = 2 ^ n" ..
    next
      assume "\<exists>n. x = 2 ^ n"
      then obtain n where n: "x = 2 ^ n" ..
      with True have "n \<noteq> 0" by (cases n) auto
      with n y(1) have "y = 2 ^ (n - 1)" by (cases n) auto
      then show "\<exists>n. y = 2 ^ n" ..
    qed
    finally show ?thesis .
  next
    case False
    then obtain y where y: "x = 2 * y + 1" by (auto elim!: oddE)
    have "x AND (x - 1) = 2 * y" unfolding y using and_odd_pred [of y] by simp
    moreover have "(\<exists>n. x = 2 ^ n) \<longleftrightarrow> y = 0"
    proof
      assume "\<exists>n. x = 2 ^ n"
      then obtain n where "x = 2 ^ n" ..
      with False show "y = 0" using y by (cases n) auto
    next
      assume "y = 0"
      with y have "x = 2 ^ 0" by simp
      then show "\<exists>n. x = 2 ^ n" ..
    qed
    ultimately show ?thesis by simp
  qed
qed

lemma unat_minus_one_word: "x \<noteq> 0 \<Longrightarrow> unat (x - 1) = unat x - 1" for x :: "'a::len word"
  by (simp add: unat_minus_one)

text \<open>
  The test \<open>x & (x-1) == 0\<close> of \<open>config.go\<close>, \<open>wizard.go\<close> and the loader on machine
  words: it holds for 0 and for the powers of two, and for nothing else.
\<close>

definition is_pow2 :: "'a::len word \<Rightarrow> bool" where
  "is_pow2 x \<longleftrightarrow> (\<exists>n. unat x = 2 ^ n)"

lemma and_pred_word_iff: "x AND (x - 1) = 0 \<longleftrightarrow> x = 0 \<or> is_pow2 x" for x :: "'a::len word"
proof (cases "x = 0")
  case False
  then have "0 < unat x" by (simp add: unat_gt_0)
  have "x AND (x - 1) = 0 \<longleftrightarrow> unat (x AND (x - 1)) = 0" by (simp add: unat_eq_zero)
  also have "\<dots> \<longleftrightarrow> unat x AND (unat x - 1) = 0"
    by (simp only: unsigned_and_eq unat_minus_one_word [OF False])
  also have "\<dots> \<longleftrightarrow> (\<exists>n. unat x = 2 ^ n)"
    by (rule and_pred_eq_0_iff) fact
  finally show ?thesis using False by (simp add: is_pow2_def)
qed simp

lemma is_pow2_code [code]: "is_pow2 x \<longleftrightarrow> x \<noteq> 0 \<and> x AND (x - 1) = 0" for x :: "'a::len word"
  by (auto simp: and_pred_word_iff is_pow2_def)

section \<open>Words as natural numbers\<close>

lemma unat_u64_less: "unat x < 2 ^ 64" for x :: u64
  using unsigned_less [of x, where ?'a = nat] by simp

lemma unat_u32_less: "unat x < 2 ^ 32" for x :: u32
  using unsigned_less [of x, where ?'a = nat] by simp

lemma unat_add_no_wrap: "unat a + unat b < 2 ^ LENGTH('a) \<Longrightarrow> unat (a + b) = unat a + unat b"
  for a b :: "'a::len word"
  by (simp add: unat_word_ariths)

lemma unat_mult_le: "unat (a * b) \<le> unat a * unat b" for a b :: "'a::len word"
  by (simp add: unat_word_ariths)

section \<open>Maps\<close>

lemma map_upd_le: "m k = None \<Longrightarrow> m \<subseteq>\<^sub>m m(k \<mapsto> v)"
  by (auto simp: map_le_def)

lemma dom_le_of_map_le: "m \<subseteq>\<^sub>m n \<Longrightarrow> dom m \<subseteq> dom n"
  by (rule map_le_implies_dom_le)

end
