(* ===== verification/Go_Std.thy ===== *)
theory Go_Std
  imports Xdp_Prelude
begin

text \<open>
  The part of Go's standard library that xdpfilter's own logic rests on, as executable
  functions on byte strings: \<open>strings\<close> (TrimSpace, Split, SplitN, Cut, Fields, case
  mapping, Contains, the prefix and suffix tests) and \<open>strconv\<close> (ParseUint, Atoi, decimal printing).
  Go strings are byte sequences, so \<open>char\<close> is a
  byte. Error values of the library are only tested against nil by the program, so most
  of these functions return an option.
\<close>

section \<open>strings\<close>

text \<open>
  \<open>unicode.IsSpace\<close> as the UTF-8 encodings it accepts. \<open>TrimSpace\<close> removes such an
  encoding from either end as long as there is one.
\<close>

definition go_spaces :: "string list" where
  "go_spaces =
    [[CHR 0x09], [CHR 0x0A], [CHR 0x0B], [CHR 0x0C], [CHR 0x0D], [CHR 0x20],
     [CHR 0xC2, CHR 0x85], [CHR 0xC2, CHR 0xA0], [CHR 0xE1, CHR 0x9A, CHR 0x80],
     [CHR 0xE2, CHR 0x80, CHR 0xA8], [CHR 0xE2, CHR 0x80, CHR 0xA9],
     [CHR 0xE2, CHR 0x80, CHR 0xAF], [CHR 0xE2, CHR 0x81, CHR 0x9F],
     [CHR 0xE3, CHR 0x80, CHR 0x80], [CHR 0xE2, CHR 0x80, CHR 0x80],
     [CHR 0xE2, CHR 0x80, CHR 0x81], [CHR 0xE2, CHR 0x80, CHR 0x82],
     [CHR 0xE2, CHR 0x80, CHR 0x83], [CHR 0xE2, CHR 0x80, CHR 0x84],
     [CHR 0xE2, CHR 0x80, CHR 0x85], [CHR 0xE2, CHR 0x80, CHR 0x86],
     [CHR 0xE2, CHR 0x80, CHR 0x87], [CHR 0xE2, CHR 0x80, CHR 0x88],
     [CHR 0xE2, CHR 0x80, CHR 0x89], [CHR 0xE2, CHR 0x80, CHR 0x8A]]"

definition stripOne :: "string list \<Rightarrow> string \<Rightarrow> string option" where
  "stripOne ws s =
     (case find (\<lambda>w. w \<noteq> [] \<and> take (length w) s = w) ws of
        None \<Rightarrow> None
      | Some w \<Rightarrow> Some (drop (length w) s))"

lemma stripOne_shorter: "stripOne ws s = Some t \<Longrightarrow> length t < length s"
proof -
  assume "stripOne ws s = Some t"
  then obtain w where w: "find (\<lambda>w. w \<noteq> [] \<and> take (length w) s = w) ws = Some w"
    and t: "t = drop (length w) s"
    by (auto simp: stripOne_def split: option.splits)
  from w have "w \<noteq> []" and "take (length w) s = w" by (auto simp: find_Some_iff)
  then have "s \<noteq> []" and "0 < length w" by auto
  then show ?thesis using t by auto
qed

function trimLeftWith :: "string list \<Rightarrow> string \<Rightarrow> string" where
  "trimLeftWith ws s = (case stripOne ws s of None \<Rightarrow> s | Some t \<Rightarrow> trimLeftWith ws t)"
  by pat_completeness auto
termination
  by (relation "measure (\<lambda>(ws, s). length s)") (auto dest: stripOne_shorter)

declare trimLeftWith.simps [simp del]

definition trimSpaceLeft :: "string \<Rightarrow> string" where
  "trimSpaceLeft s = trimLeftWith go_spaces s"

definition trimSpaceRight :: "string \<Rightarrow> string" where
  "trimSpaceRight s = rev (trimLeftWith (map rev go_spaces) (rev s))"

definition trimSpace :: "string \<Rightarrow> string" where
  "trimSpace s = trimSpaceRight (trimSpaceLeft s)"

text \<open>\<open>strings.Split(s, c)\<close>, \<open>SplitN(s, c, n)\<close> and \<open>Cut(s, c)\<close> for a one-byte separator.\<close>

fun splitOn :: "char \<Rightarrow> string \<Rightarrow> string list" where
  "splitOn c [] = [[]]"
| "splitOn c (x # xs) =
     (if x = c then [] # splitOn c xs
      else (case splitOn c xs of [] \<Rightarrow> [[x]] | w # ws \<Rightarrow> (x # w) # ws))"

fun cutOn :: "char \<Rightarrow> string \<Rightarrow> (string \<times> string) option" where
  "cutOn c [] = None"
| "cutOn c (x # xs) =
     (if x = c then Some ([], xs)
      else map_option (\<lambda>(a, b). (x # a, b)) (cutOn c xs))"

definition newline :: char where "newline = CHR 10"

lemma cutOn_shorter: "cutOn c s = Some (a, b) \<Longrightarrow> length b < length s"
  by (induction s arbitrary: a b) (auto split: if_splits simp: less_Suc_eq)

lemma cutOn_append: "c \<notin> set a \<Longrightarrow> cutOn c (a @ c # b) = Some (a, b)"
  by (induction a) auto

text \<open>\<^verbatim>\<open>bufio.Scanner\<close> with the default line splitter: a trailing carriage return is dropped, the last
line needs no newline, and a line of 65536 bytes or more stops the scan (the flag).\<close>

definition dropCR :: "string \<Rightarrow> string" where
  "dropCR s = (if s \<noteq> [] \<and> last s = CHR 0x0D then butlast s else s)"

function scanLines :: "string \<Rightarrow> string list \<times> bool" where
  "scanLines s =
     (if s = [] then ([], False)
      else case cutOn newline s of
        None \<Rightarrow> (if length s \<ge> 65536 then ([], True) else ([dropCR s], False))
      | Some (l, rest) \<Rightarrow>
          (if length l \<ge> 65536 then ([], True)
           else (case scanLines rest of (ls, e) \<Rightarrow> (dropCR l # ls, e))))"
  by pat_completeness auto

termination
  by (relation "measure length") (auto dest: cutOn_shorter)

declare scanLines.simps [simp del]

fun splitNOn :: "char \<Rightarrow> nat \<Rightarrow> string \<Rightarrow> string list" where
  "splitNOn c 0 s = []"
| "splitNOn c (Suc 0) s = [s]"
| "splitNOn c (Suc (Suc n)) s =
     (case cutOn c s of None \<Rightarrow> [s] | Some (a, b) \<Rightarrow> a # splitNOn c (Suc n) b)"

text \<open>\<open>strings.Fields\<close>: the maximal runs without white space.\<close>

function fieldsAcc :: "string \<Rightarrow> string \<Rightarrow> string list" where
  "fieldsAcc acc s =
     (case stripOne go_spaces s of
        Some t \<Rightarrow> (if acc = [] then fieldsAcc [] t else acc # fieldsAcc [] t)
      | None \<Rightarrow> (case s of [] \<Rightarrow> (if acc = [] then [] else [acc])
                 | x # xs \<Rightarrow> fieldsAcc (acc @ [x]) xs))"
  by pat_completeness auto
termination
  by (relation "measure (\<lambda>(acc, s). length s)") (auto dest: stripOne_shorter)

declare fieldsAcc.simps [simp del]

definition strFields :: "string \<Rightarrow> string list" where
  "strFields s = fieldsAcc [] s"

definition hasPrefix :: "string \<Rightarrow> string \<Rightarrow> bool" where
  "hasPrefix s p \<longleftrightarrow> take (length p) s = p"

definition hasSuffix :: "string \<Rightarrow> string \<Rightarrow> bool" where
  "hasSuffix s p \<longleftrightarrow> length p \<le> length s \<and> drop (length s - length p) s = p"

definition trimPrefix :: "string \<Rightarrow> string \<Rightarrow> string" where
  "trimPrefix s p = (if hasPrefix s p then drop (length p) s else s)"

definition trimSuffix :: "string \<Rightarrow> string \<Rightarrow> string" where
  "trimSuffix s p = (if hasSuffix s p then take (length s - length p) s else s)"

fun joinWith :: "string \<Rightarrow> string list \<Rightarrow> string" where
  "joinWith sep [] = []"
| "joinWith sep [w] = w"
| "joinWith sep (w # ws) = w @ sep @ joinWith sep ws"

text \<open>
  \<open>ToUpper\<close>, \<open>ToLower\<close> and \<open>Contains\<close>. Case mapping is modelled on ASCII letters; bytes
  outside ASCII are kept, and the program compares the results with ASCII text only.
\<close>

definition upperChar :: "char \<Rightarrow> char" where
  "upperChar c = (let n = of_char c :: int in if 97 \<le> n \<and> n \<le> 122 then char_of (n - 32) else c)"

definition lowerChar :: "char \<Rightarrow> char" where
  "lowerChar c = (let n = of_char c :: int in if 65 \<le> n \<and> n \<le> 90 then char_of (n + 32) else c)"

definition toUpper :: "string \<Rightarrow> string" where
  "toUpper s = map upperChar s"

definition toLower :: "string \<Rightarrow> string" where
  "toLower s = map lowerChar s"

fun strContains :: "string \<Rightarrow> string \<Rightarrow> bool" where
  "strContains [] p = (p = [])"
| "strContains (x # xs) p = (hasPrefix (x # xs) p \<or> strContains xs p)"

section \<open>strconv\<close>

datatype num_error = ErrSyntax | ErrRange

definition isDigit :: "char \<Rightarrow> bool" where
  "isDigit c \<longleftrightarrow> 48 \<le> (of_char c :: int) \<and> (of_char c :: int) \<le> 57"

definition digitVal :: "char \<Rightarrow> int" where
  "digitVal c = of_char c - 48"

text \<open>
  \<open>strconv.ParseUint(s, 10, bits)\<close>: the value is 0 with a syntax error and the largest
  value of the width with a range error, which \<open>parseMeminfo\<close> relies on since it drops
  the error. The first offending character decides which error it is.
\<close>

fun parseUintLoop :: "int \<Rightarrow> int \<Rightarrow> string \<Rightarrow> int \<times> num_error option" where
  "parseUintLoop mx n [] = (n, None)"
| "parseUintLoop mx n (c # cs) =
     (if \<not> isDigit c then (0, Some ErrSyntax)
      else if mx < n * 10 + digitVal c then (mx, Some ErrRange)
      else parseUintLoop mx (n * 10 + digitVal c) cs)"

definition parseUint :: "nat \<Rightarrow> string \<Rightarrow> int \<times> num_error option" where
  "parseUint bits s = (if s = [] then (0, Some ErrSyntax) else parseUintLoop (2 ^ bits - 1) 0 s)"

text \<open>\<open>strconv.Atoi\<close> on a 64-bit platform.\<close>

definition atoi :: "string \<Rightarrow> int \<times> num_error option" where
  "atoi s =
     (let neg = (hasPrefix s ''-'');
          t = (if neg \<or> hasPrefix s ''+'' then tl s else s);
          r = parseUint 64 t
      in if snd r = Some ErrSyntax then (0, Some ErrSyntax)
         else if \<not> neg \<and> 2 ^ 63 \<le> fst r then (2 ^ 63 - 1, Some ErrRange)
         else if neg \<and> 2 ^ 63 < fst r then (- (2 ^ 63), Some ErrRange)
         else ((if neg then - fst r else fst r), None))"

text \<open>Decimal printing of a value that is not negative (\<open>FormatUint\<close>, \<open>Itoa\<close>).\<close>

function decimal :: "int \<Rightarrow> string" where
  "decimal n = (if n < 10 then [char_of (48 + n)]
                else decimal (n div 10) @ [char_of (48 + n mod 10)])"
  by pat_completeness auto
termination
  by (relation "measure nat") auto

declare decimal.simps [simp del]

text \<open>\<open>strconv.Itoa\<close>.\<close>

definition itoa :: "int \<Rightarrow> string" where
  "itoa n = (if n < 0 then CHR ''-'' # decimal (- n) else decimal n)"

section \<open>Facts\<close>

lemma trimLeftWith_None: "stripOne ws s = None \<Longrightarrow> trimLeftWith ws s = s"
  by (simp add: trimLeftWith.simps)

lemma trimLeftWith_fixed: "stripOne ws (trimLeftWith ws s) = None"
proof (induction ws s rule: trimLeftWith.induct)
  case (1 ws s)
  then show ?case by (cases "stripOne ws s") (simp_all add: trimLeftWith.simps [of ws s])
qed

lemma of_char_digit: "0 \<le> d \<Longrightarrow> d < 10 \<Longrightarrow> of_char (char_of (48 + d) :: char) = 48 + d" for d :: int
  by (simp add: of_char_of)

lemma isDigit_char_of [simp]: "0 \<le> d \<Longrightarrow> d < 10 \<Longrightarrow> isDigit (char_of (48 + d))" for d :: int
  by (simp add: isDigit_def of_char_digit)

lemma digitVal_char_of [simp]: "0 \<le> d \<Longrightarrow> d < 10 \<Longrightarrow> digitVal (char_of (48 + d)) = d" for d :: int
  by (simp add: digitVal_def of_char_digit)

lemma decimal_neq_Nil [simp]: "decimal n \<noteq> []"
  by (subst decimal.simps) simp

lemma decimal_digits: "0 \<le> n \<Longrightarrow> \<forall>c \<in> set (decimal n). isDigit c"
proof (induction n rule: decimal.induct)
  case (1 n)
  then show ?case by (auto simp: decimal.simps [of n])
qed

lemma digitVal_nonneg: "isDigit c \<Longrightarrow> 0 \<le> digitVal c"
  by (simp add: isDigit_def digitVal_def)

lemma parseUintLoop_append:
  "parseUintLoop mx n xs = (m, None) \<Longrightarrow> parseUintLoop mx n (xs @ ys) = parseUintLoop mx m ys"
  by (induction mx n xs rule: parseUintLoop.induct) (auto split: if_splits)

text \<open>Reading what was printed: every value of the width survives the round trip.\<close>

lemma parseUintLoop_decimal:
  "0 \<le> n \<Longrightarrow> n \<le> mx \<Longrightarrow> parseUintLoop mx 0 (decimal n) = (n, None)"
proof (induction n rule: decimal.induct)
  case (1 n)
  show ?case
  proof (cases "n < 10")
    case True
    with "1.prems" show ?thesis by (simp add: decimal.simps [of n])
  next
    case False
    with "1.prems" have "parseUintLoop mx 0 (decimal (n div 10)) = (n div 10, None)"
      using "1.IH" by auto
    from parseUintLoop_append [OF this] False "1.prems" show ?thesis
      by (simp add: decimal.simps [of n])
  qed
qed

lemma parseUint_decimal: "0 \<le> n \<Longrightarrow> n < 2 ^ bits \<Longrightarrow> parseUint bits (decimal n) = (n, None)"
  by (simp add: parseUint_def parseUintLoop_decimal)

lemma parseUintLoop_range:
  "0 \<le> n \<Longrightarrow> n \<le> mx \<Longrightarrow> 0 \<le> fst (parseUintLoop mx n s) \<and> fst (parseUintLoop mx n s) \<le> mx"
  by (induction mx n s rule: parseUintLoop.induct) (auto simp: digitVal_nonneg)

lemma parseUint_range: "0 \<le> fst (parseUint bits s) \<and> fst (parseUint bits s) < 2 ^ bits"
proof -
  have "0 \<le> (2::int) ^ bits - 1" by simp
  then show ?thesis
    using parseUintLoop_range [of 0 "2 ^ bits - 1" s] by (auto simp: parseUint_def)
qed

section \<open>Facts on trimmed text\<close>

lemma stripOne_None_iff:
  "stripOne ws s = None \<longleftrightarrow> (\<forall>w \<in> set ws. w = [] \<or> take (length w) s \<noteq> w)"
proof -
  have "stripOne ws s = None \<longleftrightarrow> find (\<lambda>w. w \<noteq> [] \<and> take (length w) s = w) ws = None"
    by (simp add: stripOne_def split: option.splits)
  then show ?thesis by (auto simp: find_None_iff)
qed

lemma stripOne_None_prefix: "stripOne ws (a @ b) = None \<Longrightarrow> stripOne ws a = None"
  unfolding stripOne_None_iff
proof (intro ballI)
  fix w assume a: "\<forall>w \<in> set ws. w = [] \<or> take (length w) (a @ b) \<noteq> w" and w: "w \<in> set ws"
  show "w = [] \<or> take (length w) a \<noteq> w"
  proof (cases "take (length w) a = w")
    case True
    then have "length w \<le> length a" by (metis length_take min.cobounded1)
    then have "take (length w) (a @ b) = w" using True by simp
    then show ?thesis using a w by blast
  qed simp
qed

lemma trimLeftWith_suffix: "\<exists>a. s = a @ trimLeftWith ws s"
proof (induction ws s rule: trimLeftWith.induct)
  case (1 ws s)
  show ?case
  proof (cases "stripOne ws s")
    case (Some t)
    then obtain w where "t = drop w s" by (auto simp: stripOne_def split: option.splits)
    moreover obtain a where "t = a @ trimLeftWith ws t" using 1 Some by blast
    ultimately have "s = (take w s @ a) @ trimLeftWith ws t" by (metis append.assoc append_take_drop_id)
    then have "s = (take w s @ a) @ trimLeftWith ws s" using Some by (simp add: trimLeftWith.simps [of ws s])
    then show ?thesis by blast
  qed (simp add: trimLeftWith_None)
qed

lemma trimSpace_idem [simp]: "trimSpace (trimSpace s) = trimSpace s"
proof -
  let ?l = "trimSpaceLeft s" and ?r = "trimLeftWith (map rev go_spaces) (rev (trimSpaceLeft s))"
  obtain a where "rev ?l = a @ ?r" using trimLeftWith_suffix by blast
  then have "?l = rev ?r @ rev a" by (metis rev_append rev_rev_ident)
  moreover have "stripOne go_spaces ?l = None" by (simp add: trimSpaceLeft_def trimLeftWith_fixed)
  ultimately have "stripOne go_spaces (rev ?r) = None" by (metis stripOne_None_prefix)
  then have "trimSpaceLeft (trimSpace s) = trimSpace s"
    unfolding trimSpace_def trimSpaceRight_def by (metis trimLeftWith_None trimSpaceLeft_def)
  then show ?thesis
    unfolding trimSpace_def [of "trimSpace s"]
    by (simp add: trimSpace_def trimSpaceRight_def trimLeftWith_None trimLeftWith_fixed)
qed

definition plain :: "char \<Rightarrow> bool" where
  "plain c \<longleftrightarrow> (of_char c :: int) > 32 \<and> (of_char c :: int) < 128"

lemma plain_no_space: "plain c \<Longrightarrow> w \<in> set go_spaces \<Longrightarrow> w \<noteq> [] \<and> hd w \<noteq> c \<and> last w \<noteq> c"
  by (auto simp: plain_def go_spaces_def)

lemma stripOne_plain:
  "plain c \<Longrightarrow> stripOne go_spaces (c # s) = None" "plain c \<Longrightarrow> stripOne (map rev go_spaces) (c # s) = None"
proof -
  assume p: "plain c"
  show "stripOne go_spaces (c # s) = None"
    unfolding stripOne_None_iff
  proof (intro ballI)
    fix w assume "w \<in> set go_spaces"
    then have "hd w \<noteq> c" using plain_no_space [OF p] by blast
    then show "w = [] \<or> take (length w) (c # s) \<noteq> w" by (cases w) auto
  qed
  show "stripOne (map rev go_spaces) (c # s) = None"
    unfolding stripOne_None_iff
  proof (intro ballI)
    fix w assume "w \<in> set (map rev go_spaces)"
    then have "rev w \<in> set go_spaces" by auto
    then have "last (rev w) \<noteq> c" using plain_no_space [OF p] by blast
    then show "w = [] \<or> take (length w) (c # s) \<noteq> w" by (cases w) auto
  qed
qed

lemma trimSpace_plain: "s = [] \<or> (plain (hd s) \<and> plain (last s)) \<Longrightarrow> trimSpace s = s"
proof (cases "s = []")
  case False
  moreover assume "s = [] \<or> (plain (hd s) \<and> plain (last s))"
  ultimately have "stripOne go_spaces s = None" "stripOne (map rev go_spaces) (rev s) = None"
    using stripOne_plain [of "hd s" "tl s"] stripOne_plain [of "last s" "tl (rev s)"]
    by (simp_all add: hd_rev [symmetric])
  then show ?thesis by (simp add: trimSpace_def trimSpaceLeft_def trimSpaceRight_def trimLeftWith_None)
next
  case True
  have "stripOne ws [] = None" for ws by (auto simp: stripOne_None_iff)
  then show ?thesis using True
    by (simp add: trimSpace_def trimSpaceLeft_def trimSpaceRight_def trimLeftWith_None)
qed

lemma isDigit_plain: "isDigit c \<Longrightarrow> plain c"
  by (auto simp: isDigit_def plain_def)

lemma itoa_neq_Nil [simp]: "itoa n \<noteq> []"
  by (simp add: itoa_def)

lemma trimSpace_itoa [simp]: "trimSpace (itoa n) = itoa n"
proof (rule trimSpace_plain)
  have d: "\<forall>c \<in> set (decimal (\<bar>n\<bar>)). plain c" using decimal_digits [of "\<bar>n\<bar>"] isDigit_plain by auto
  have "plain (CHR ''-'')" by (simp add: plain_def)
  moreover have "\<forall>c \<in> set (decimal (- n)). plain c" if "n < 0" using d that by simp
  moreover have "\<forall>c \<in> set (decimal n). plain c" if "\<not> n < 0" using d that by simp
  ultimately show "itoa n = [] \<or> (plain (hd (itoa n)) \<and> plain (last (itoa n)))"
    by (auto simp: itoa_def)
qed

lemma decimal_inj:
  assumes "0 \<le> a" "0 \<le> b" "decimal a = decimal b"
  shows "a = b"
proof -
  have "(a, None) = parseUintLoop (max a b) 0 (decimal a)"
    by (rule parseUintLoop_decimal [symmetric]) (use assms in simp_all)
  also have "\<dots> = parseUintLoop (max a b) 0 (decimal b)" by (simp only: assms(3))
  also have "\<dots> = (b, None)" by (rule parseUintLoop_decimal) (use assms in simp_all)
  finally show ?thesis by simp
qed

lemma decimal_no_sign:
  assumes "0 \<le> n"
  shows "decimal n \<noteq> CHR ''-'' # s"
proof
  assume "decimal n = CHR ''-'' # s"
  then have "isDigit (CHR ''-'')" using decimal_digits [OF assms] by simp
  then show False by (simp add: isDigit_def)
qed

lemma itoa_inj [simp]: "itoa a = itoa b \<longleftrightarrow> a = b"
proof
  assume eq: "itoa a = itoa b"
  show "a = b"
  proof (cases "a < 0")
    case True
    then have "b < 0" using eq decimal_no_sign [of b "decimal (- a)"] by (auto simp: itoa_def split: if_splits)
    then show ?thesis using True eq decimal_inj [of "- a" "- b"] by (simp add: itoa_def)
  next
    case False
    then have "\<not> b < 0" using eq decimal_no_sign [of a "decimal (- b)"] by (auto simp: itoa_def split: if_splits)
    then show ?thesis using False eq decimal_inj [of a b] by (simp add: itoa_def)
  qed
qed simp

lemma fieldsAcc_neq_Nil: "acc \<noteq> [] \<Longrightarrow> fieldsAcc acc s \<noteq> []"
proof (induction acc s rule: fieldsAcc.induct)
  case (1 acc s)
  then show ?case
    by (subst fieldsAcc.simps) (auto split: option.splits list.splits)
qed

end
