(* ===== verification/Go_Net.thy ===== *)
theory Go_Net
  imports Go_Std
begin

text \<open>
  Go's \<open>net\<close> and \<open>path/filepath\<close> functions, as far as the configuration, the loader and
  the resource probe call them. A \<open>net.IP\<close> is its byte slice of length 4 or 16.
  The facts show that a printed IPv4 address parses back.
\<close>

section \<open>Parsing addresses\<close>

type_synonym ip = bytes

definition dot :: char where "dot = CHR ''.''"
definition colon :: char where "colon = CHR '':''"

text \<open>\<open>parseIPv4Fields\<close> of \<open>net/netip\<close>; \<open>start\<close> says that the last byte read was none or a dot.\<close>

fun parseIPv4Fields :: "string \<Rightarrow> bool \<Rightarrow> int \<Rightarrow> nat \<Rightarrow> bytes \<Rightarrow> bytes option" where
  "parseIPv4Fields [] start val digLen fs =
     (if length fs < 3 then None else Some (fs @ [of_int val]))"
| "parseIPv4Fields (c # cs) start val digLen fs =
     (if isDigit c then
        (if digLen = 1 \<and> val = 0 then None
         else if 255 < val * 10 + digitVal c then None
         else parseIPv4Fields cs False (val * 10 + digitVal c) (Suc digLen) fs)
      else if c = dot then
        (if start \<or> cs = [] then None
         else if length fs = 3 then None
         else parseIPv4Fields cs True 0 0 (fs @ [of_int val]))
      else None)"

definition parseIPv4 :: "string \<Rightarrow> bytes option" where
  "parseIPv4 s = parseIPv4Fields s True 0 0 []"

definition hexVal :: "char \<Rightarrow> int option" where
  "hexVal c = (let n = of_char c in
     if 48 \<le> n \<and> n \<le> 57 then Some (n - 48)
     else if 97 \<le> n \<and> n \<le> 102 then Some (n - 87)
     else if 65 \<le> n \<and> n \<le> 70 then Some (n - 55)
     else None)"

text \<open>The inner loop of \<open>parseIPv6\<close>: one group of hex digits.\<close>

fun hexGroup :: "string \<Rightarrow> nat \<Rightarrow> int \<Rightarrow> (nat \<times> int \<times> string) option" where
  "hexGroup [] off acc = Some (off, acc, [])"
| "hexGroup (c # cs) off acc =
     (case hexVal c of
        None \<Rightarrow> Some (off, acc, c # cs)
      | Some d \<Rightarrow> (if 3 < off then None
                   else if 65535 < acc * 16 + d then None
                   else hexGroup cs (Suc off) (acc * 16 + d)))"

text \<open>The outer loop; the first argument counts the 16-bit groups that still fit.\<close>

fun ipv6Loop :: "nat \<Rightarrow> string \<Rightarrow> bytes \<Rightarrow> nat option \<Rightarrow> (bytes \<times> nat option \<times> string) option" where
  "ipv6Loop 0 s a el = Some (a, el, s)"
| "ipv6Loop (Suc r) s a el =
     (case hexGroup s 0 0 of
        None \<Rightarrow> None
      | Some (off, acc, rest) \<Rightarrow>
          (if off = 0 then None
           else if rest \<noteq> [] \<and> hd rest = dot then
             (if el = None \<and> length a \<noteq> 12 then None
              else if 16 < length a + 4 then None
              else map_option (\<lambda>f. (a @ f, el, [])) (parseIPv4 s))
           else
             (let a' = a @ [of_int (acc div 256), of_int acc] in
              case rest of
                [] \<Rightarrow> Some (a', el, [])
              | c # cs \<Rightarrow>
                  (if c \<noteq> colon \<or> cs = [] then None
                   else if hd cs = colon then
                     (if el \<noteq> None then None
                      else if tl cs = [] then Some (a', Some (length a'), [])
                      else ipv6Loop r (tl cs) a' (Some (length a')))
                   else ipv6Loop r cs a' el))))"

definition parseIPv6 :: "string \<Rightarrow> bytes option" where
  "parseIPv6 s =
     (let lead = (take 2 s = [colon, colon]) in
      if s = [colon, colon] then Some (replicate 16 0)
      else (case ipv6Loop 8 (if lead then drop 2 s else s) [] (if lead then Some 0 else None) of
              None \<Rightarrow> None
            | Some (a, el, rest) \<Rightarrow>
                (if rest \<noteq> [] then None
                 else (case el of
                         None \<Rightarrow> (if length a < 16 then None else Some a)
                       | Some e \<Rightarrow>
                           (if length a < 16
                            then Some (take e a @ replicate (16 - length a) 0 @ drop e a)
                            else None)))))"

text \<open>
  \<open>netip.ParseAddr\<close>: the first dot, colon or percent sign decides the family. An address
  with a zone is refused by both callers (\<open>net.ParseIP\<close> and \<open>net.ParseCIDR\<close>), so a
  percent sign after the first colon is a failure here too.
\<close>

datatype netaddr = V4 bytes | V6 bytes

definition parseAddr :: "string \<Rightarrow> netaddr option" where
  "parseAddr s =
     (case find (\<lambda>c. c = dot \<or> c = colon \<or> c = CHR ''%'') s of
        None \<Rightarrow> None
      | Some c \<Rightarrow>
          (if c = dot then map_option V4 (parseIPv4 s)
           else if c = colon then
             (if CHR ''%'' \<in> set s then None else map_option V6 (parseIPv6 s))
           else None))"

definition v4InV6Prefix :: bytes where
  "v4InV6Prefix = replicate 10 0 @ [255, 255]"

fun as16 :: "netaddr \<Rightarrow> ip" where
  "as16 (V4 b) = v4InV6Prefix @ b"
| "as16 (V6 b) = b"

fun bitLen :: "netaddr \<Rightarrow> nat" where
  "bitLen (V4 b) = 32"
| "bitLen (V6 b) = 128"

definition parseIP :: "string \<Rightarrow> ip option" where
  "parseIP s = map_option as16 (parseAddr s)"

definition to4 :: "ip \<Rightarrow> ip option" where
  "to4 a = (if length a = 4 then Some a
            else if length a = 16 \<and> take 12 a = v4InV6Prefix then Some (drop 12 a)
            else None)"

section \<open>Printing addresses\<close>

definition dotted :: "bytes \<Rightarrow> string" where
  "dotted b = joinWith ''.'' (map (\<lambda>x. decimal (uint x)) b)"

definition hexDigit :: "int \<Rightarrow> char" where
  "hexDigit n = char_of (if n < 10 then 48 + n else 87 + n)"

function hexNat :: "int \<Rightarrow> string" where
  "hexNat n = (if n < 16 then [hexDigit n] else hexNat (n div 16) @ [hexDigit (n mod 16)])"
  by pat_completeness auto
termination
  by (relation "measure nat") auto

declare hexNat.simps [simp del]

fun v6Groups :: "bytes \<Rightarrow> int list" where
  "v6Groups (x # y # r) = (uint x * 256 + uint y) # v6Groups r"
| "v6Groups _ = []"

text \<open>The longest run of at least two zero groups, the first one among equals.\<close>

definition zeroRun :: "int list \<Rightarrow> nat \<Rightarrow> nat" where
  "zeroRun gs i = length (takeWhile (\<lambda>g. g = 0) (drop i gs))"

definition longestZeroRun :: "int list \<Rightarrow> (nat \<times> nat) option" where
  "longestZeroRun gs =
     fold (\<lambda>i best. (let l = zeroRun gs i in
             if 2 \<le> l \<and> (case best of None \<Rightarrow> True | Some (s, n) \<Rightarrow> n < l) then Some (i, l) else best))
          [0..<length gs] None"

definition string6 :: "bytes \<Rightarrow> string" where
  "string6 b =
     (let gs = v6Groups b in
      case longestZeroRun gs of
        None \<Rightarrow> joinWith '':'' (map hexNat gs)
      | Some (s, l) \<Rightarrow> joinWith '':'' (map hexNat (take s gs)) @ ''::'' @
                        joinWith '':'' (map hexNat (drop (s + l) gs)))"

definition ipString :: "ip \<Rightarrow> string" where
  "ipString a = (case to4 a of Some b \<Rightarrow> dotted b | None \<Rightarrow> string6 a)"

section \<open>CIDR networks\<close>

record ipnet =
  net_ip :: ip
  net_mask :: bytes

fun cidrMask :: "nat \<Rightarrow> nat \<Rightarrow> bytes" where
  "cidrMask n 0 = []"
| "cidrMask n (Suc l) =
     (if 8 \<le> n then 255 # cidrMask (n - 8) l else NOT (drop_bit n 255) # cidrMask 0 l)"

fun leadingOnes :: "nat \<Rightarrow> u8 \<Rightarrow> nat \<times> u8" where
  "leadingOnes 0 v = (0, v)"
| "leadingOnes (Suc k) v =
     (if v AND 128 \<noteq> 0 then (case leadingOnes k (push_bit 1 v) of (n, w) \<Rightarrow> (Suc n, w)) else (0, v))"

fun simpleMaskLength :: "bytes \<Rightarrow> nat option" where
  "simpleMaskLength [] = Some 0"
| "simpleMaskLength (v # vs) =
     (if v = 255 then map_option (\<lambda>n. n + 8) (simpleMaskLength vs)
      else (case leadingOnes 8 v of
              (n, w) \<Rightarrow> (if w = 0 \<and> list_all (\<lambda>b. b = 0) vs then Some n else None)))"

text \<open>\<open>Mask.Size()\<close>: 0 ones for a mask that is not canonical.\<close>

definition maskOnes :: "bytes \<Rightarrow> nat" where
  "maskOnes m = (case simpleMaskLength m of Some n \<Rightarrow> n | None \<Rightarrow> 0)"

definition ipMask :: "ip \<Rightarrow> bytes \<Rightarrow> ip" where
  "ipMask a m =
     (let a' = (if length m = 4 \<and> length a = 16 \<and> take 12 a = v4InV6Prefix then drop 12 a else a)
      in if length a' = length m then map2 (AND) a' m else [])"

text \<open>\<open>dtoi\<close> of \<open>net\<close>: it gives up at 0xFFFFFF.\<close>

fun dtoiLoop :: "int \<Rightarrow> string \<Rightarrow> int option" where
  "dtoiLoop n [] = Some n"
| "dtoiLoop n (c # cs) =
     (if \<not> isDigit c then None
      else if 16777215 \<le> n * 10 + digitVal c then None
      else dtoiLoop (n * 10 + digitVal c) cs)"

definition parseCIDR :: "string \<Rightarrow> (ip \<times> ipnet) option" where
  "parseCIDR s =
     (case cutOn (CHR ''/'') s of
        None \<Rightarrow> None
      | Some (addr, msk) \<Rightarrow>
          (case parseAddr addr of
             None \<Rightarrow> None
           | Some a \<Rightarrow>
               (case (if msk = [] then None else dtoiLoop 0 msk) of
                  None \<Rightarrow> None
                | Some n \<Rightarrow>
                    (if int (bitLen a) < n then None
                     else (let m = cidrMask (nat n) (bitLen a div 8) in
                           Some (as16 a, \<lparr>net_ip = ipMask (as16 a) m, net_mask = m\<rparr>))))))"

definition networkNumberAndMask :: "ipnet \<Rightarrow> (ip \<times> bytes) option" where
  "networkNumberAndMask n =
     (let a = (case to4 (net_ip n) of Some b \<Rightarrow> b | None \<Rightarrow> net_ip n); m = net_mask n in
      if length a \<noteq> 4 \<and> length a \<noteq> 16 then None
      else if length m = 4 then (if length a = 4 then Some (a, m) else None)
      else if length m = 16 then Some (a, if length a = 4 then drop 12 m else m)
      else None)"

definition ipnetString :: "ipnet \<Rightarrow> string" where
  "ipnetString n =
     (case networkNumberAndMask n of
        None \<Rightarrow> ''<nil>''
      | Some (a, m) \<Rightarrow>
          (case simpleMaskLength m of
             None \<Rightarrow> ipString a @ ''/'' @ concat (map (\<lambda>b. [hexDigit (uint b div 16), hexDigit (uint b mod 16)]) m)
           | Some l \<Rightarrow> ipString a @ ''/'' @ decimal (int l)))"

definition ipnetContains :: "ipnet \<Rightarrow> ip \<Rightarrow> bool" where
  "ipnetContains n a =
     (case networkNumberAndMask n of
        None \<Rightarrow> a = []
      | Some (nn, m) \<Rightarrow>
          (let x = (case to4 a of Some b \<Rightarrow> b | None \<Rightarrow> a) in
           length x = length nn \<and> map2 (AND) nn m = map2 (AND) x m))"

section \<open>Host and port\<close>

definition splitHostPort :: "string \<Rightarrow> (string \<times> string) option" where
  "splitHostPort s =
     (case cutOn colon (rev s) of
        None \<Rightarrow> None
      | Some (rport, rhost) \<Rightarrow>
          (let pre = rev rhost; port = rev rport in
           if hasPrefix s ''['' then
             (case cutOn (CHR '']'') s of
                None \<Rightarrow> None
              | Some (lhs, rhs) \<Rightarrow>
                  (if Suc (length lhs) \<noteq> length pre then None
                   else if CHR ''['' \<in> set (tl s) then None
                   else if CHR '']'' \<in> set rhs then None
                   else Some (tl lhs, port)))
           else if colon \<in> set pre then None
           else if CHR ''['' \<in> set s then None
           else if CHR '']'' \<in> set s then None
           else Some (pre, port)))"

definition joinHostPort :: "string \<Rightarrow> string \<Rightarrow> string" where
  "joinHostPort h p =
     (if colon \<in> set h then ''['' @ h @ '']:'' @ p else h @ '':'' @ p)"

section \<open>path/filepath on Unix\<close>

fun cleanParts :: "bool \<Rightarrow> string list \<Rightarrow> string list \<Rightarrow> string list" where
  "cleanParts rooted stack [] = rev stack"
| "cleanParts rooted stack (w # ws) =
     (if w = [] \<or> w = ''.'' then cleanParts rooted stack ws
      else if w = ''..'' then
        (case stack of
           [] \<Rightarrow> cleanParts rooted (if rooted then [] else [''..'']) ws
         | t # ts \<Rightarrow> cleanParts rooted (if t = ''..'' then ''..'' # stack else ts) ws)
      else cleanParts rooted (w # stack) ws)"

definition pathClean :: "string \<Rightarrow> string" where
  "pathClean p =
     (if p = [] then ''.''
      else (let rooted = hasPrefix p ''/'';
                body = joinWith ''/'' (cleanParts rooted [] (splitOn (CHR ''/'') p))
            in if rooted then ''/'' @ body else if body = [] then ''.'' else body))"

definition pathJoin :: "string list \<Rightarrow> string" where
  "pathJoin es = (let rest = dropWhile (\<lambda>e. e = []) es in
     if rest = [] then [] else pathClean (joinWith ''/'' rest))"

definition pathDir :: "string \<Rightarrow> string" where
  "pathDir p = pathClean (rev (dropWhile (\<lambda>c. c \<noteq> CHR ''/'') (rev p)))"

section \<open>Facts\<close>

lemma decimal_upto_3:
  assumes "0 \<le> n" and "n < 256"
  obtains (one) "n < 10" "decimal n = [char_of (48 + n)]"
    | (two) "10 \<le> n" "n < 100" "decimal n = [char_of (48 + n div 10), char_of (48 + n mod 10)]"
    | (three) "100 \<le> n" "decimal n = [char_of (48 + n div 100), char_of (48 + n div 10 mod 10), char_of (48 + n mod 10)]"
proof (cases "n < 10")
  case True
  with one show ?thesis by (simp add: decimal.simps [of n])
next
  case False
  have d: "decimal n = decimal (n div 10) @ [char_of (48 + n mod 10)]" using False by (simp add: decimal.simps [of n])
  show ?thesis
  proof (cases "n < 100")
    case True
    with two False d show ?thesis by (simp add: decimal.simps [of "n div 10"])
  next
    case False
    have "n div 10 div 10 = n div 100" using assms by (simp add: div_mult2_eq [symmetric])
    moreover have "n div 100 < 10" "\<not> n div 10 < 10" using assms False by presburger+
    ultimately have "decimal (n div 10) = [char_of (48 + n div 100), char_of (48 + n div 10 mod 10)]"
      by (simp add: decimal.simps [of "n div 10"] decimal.simps [of "n div 100"])
    with three False d show ?thesis by simp
  qed
qed

lemma parseIPv4Fields_decimal:
  assumes "0 \<le> n" and "n < 256"
  shows "\<exists>l. \<forall>start fs rest. parseIPv4Fields (decimal n @ rest) start 0 0 fs = parseIPv4Fields rest False n l fs"
  using assms
proof (cases n rule: decimal_upto_3)
  case one
  with assms show ?thesis by (intro exI [of _ 1]) simp
next
  case two
  define h where "h = n div 10"
  define u where "u = n mod 10"
  have "0 < h" "h < 10" "0 \<le> u" "u < 10" "n = h * 10 + u" using two by (auto simp: h_def u_def)
  moreover have "decimal n = [char_of (48 + h), char_of (48 + u)]" using two by (simp add: h_def u_def)
  ultimately show ?thesis using assms by (intro exI [of _ 2]) (simp add: numeral_2_eq_2)
next
  case three
  define h where "h = n div 100"
  define k where "k = n div 10 mod 10"
  define u where "u = n mod 10"
  have "n div 10 div 10 = h" unfolding h_def by (simp add: div_mult2_eq [symmetric])
  then have n: "n = h * 100 + k * 10 + u"
    using div_mult_mod_eq [of n 10] div_mult_mod_eq [of "n div 10" 10] unfolding k_def u_def by linarith
  have "0 < h" "h < 3" unfolding h_def using three assms by presburger+
  moreover have "0 \<le> k" "k < 10" "0 \<le> u" "u < 10" by (simp_all add: k_def u_def)
  moreover have "decimal n = [char_of (48 + h), char_of (48 + k), char_of (48 + u)]"
    using three by (simp add: h_def k_def u_def)
  moreover have "(h * 10 + k) * 10 + u = n" using n by simp
  ultimately show ?thesis using assms by (intro exI [of _ 3]) (simp add: numeral_3_eq_3)
qed

lemma not_isDigit_punct [simp]: "\<not> isDigit dot" "\<not> isDigit colon" "\<not> isDigit (CHR ''%'')" "dot \<noteq> colon"
  by (simp_all add: isDigit_def dot_def colon_def)

lemma parseIPv4_dotted:
  "parseIPv4 (decimal (uint a) @ dot # decimal (uint b) @ dot # decimal (uint c) @ dot # decimal (uint d)) = Some [a, b, c, d]"
  for a b c d :: u8
proof -
  have u: "0 \<le> uint x \<and> uint x < 256" for x :: u8 using uint_bounded [of x] by simp
  obtain la where la: "\<And>start fs rest. parseIPv4Fields (decimal (uint a) @ rest) start 0 0 fs = parseIPv4Fields rest False (uint a) la fs"
    using parseIPv4Fields_decimal [of "uint a"] u by blast
  obtain lb where lb: "\<And>start fs rest. parseIPv4Fields (decimal (uint b) @ rest) start 0 0 fs = parseIPv4Fields rest False (uint b) lb fs"
    using parseIPv4Fields_decimal [of "uint b"] u by blast
  obtain lc where lc: "\<And>start fs rest. parseIPv4Fields (decimal (uint c) @ rest) start 0 0 fs = parseIPv4Fields rest False (uint c) lc fs"
    using parseIPv4Fields_decimal [of "uint c"] u by blast
  obtain ld where ld: "\<And>start fs rest. parseIPv4Fields (decimal (uint d) @ rest) start 0 0 fs = parseIPv4Fields rest False (uint d) ld fs"
    using parseIPv4Fields_decimal [of "uint d"] u by blast
  from ld [of "[]"] show ?thesis by (simp add: parseIPv4_def la lb lc)
qed

lemma find_append_None: "find P xs = None \<Longrightarrow> find P (xs @ ys) = find P ys"
  by (induction xs) (auto split: if_splits)

lemma length4_cases:
  assumes "length x = 4"
  obtains a b c d where "x = [a, b, c, d]"
  using assms by (auto simp: numeral_eq_Suc length_Suc_conv)

text \<open>\<open>net.ParseIP(ip.String())\<close> on an IPv4 address.\<close>

lemma parseIP_ipString:
  assumes "length x = 4"
  shows "parseIP (ipString x) = Some (v4InV6Prefix @ x)"
proof -
  obtain a b c d where x: "x = [a, b, c, d]" by (rule length4_cases [OF assms])
  let ?s = "decimal (uint a) @ dot # decimal (uint b) @ dot # decimal (uint c) @ dot # decimal (uint d)"
  have s: "ipString x = ?s" by (simp add: x ipString_def to4_def dotted_def dot_def)
  have "find (\<lambda>ch. ch = dot \<or> ch = colon \<or> ch = CHR ''%'') (decimal (uint a)) = None"
    using decimal_digits [of "uint a"] by (auto simp: find_None_iff)
  then have "find (\<lambda>ch. ch = dot \<or> ch = colon \<or> ch = CHR ''%'') ?s = Some dot"
    by (simp add: find_append_None)
  then show ?thesis unfolding parseIP_def parseAddr_def s by (simp add: parseIPv4_dotted x)
qed

lemma to4_mapped: "length x = 4 \<Longrightarrow> to4 (v4InV6Prefix @ x) = Some x"
  by (simp add: to4_def v4InV6Prefix_def)

end
