(* ===== verification/Config.thy ===== *)
theory Config
  imports Go_Net
begin

text \<open>
  The configuration of \<open>internal/config/config.go\<close>: the record the YAML file is read
  into, \<open>Default\<close>, \<open>Validate\<close> with its in-place normalisation and every error
  return, \<open>Load\<close> and the atomic \<open>Save\<close>, \<open>Clone\<close>, the change classification
  \<open>Diff\<close> and the live subset \<open>ApplyLiveFrom\<close>.
  YAML encoding (\<open>gopkg.in/yaml.v3\<close>) is a parameter of \<open>Load\<close> and \<open>Save\<close>; the
  file system is a map from paths to contents, and each system call carries the outcome
  the operating system gives it.
\<close>

section \<open>float64 values by their bits\<close>

text \<open>
  Thresholds in Mbit/s are IEEE 754 doubles. The configuration only compares them with
  zero, with each other and tests for NaN and infinities, which their bits decide.
\<close>

type_synonym f64 = "64 word"

definition f64_exp :: "f64 \<Rightarrow> 64 word" where
  "f64_exp x = drop_bit 52 x AND 2047"

definition f64_frac :: "f64 \<Rightarrow> 64 word" where
  "f64_frac x = x AND 4503599627370495"

definition f64_isNaN :: "f64 \<Rightarrow> bool" where
  "f64_isNaN x \<longleftrightarrow> f64_exp x = 2047 \<and> f64_frac x \<noteq> 0"

definition f64_isInf :: "f64 \<Rightarrow> bool" where
  "f64_isInf x \<longleftrightarrow> f64_exp x = 2047 \<and> f64_frac x = 0"

definition f64_isZero :: "f64 \<Rightarrow> bool" where
  "f64_isZero x \<longleftrightarrow> x AND 9223372036854775807 = 0"

definition f64_eq :: "f64 \<Rightarrow> f64 \<Rightarrow> bool" where
  "f64_eq x y \<longleftrightarrow> \<not> f64_isNaN x \<and> \<not> f64_isNaN y \<and> (x = y \<or> f64_isZero x \<and> f64_isZero y)"

definition f64_negative :: "f64 \<Rightarrow> bool" where
  "f64_negative x \<longleftrightarrow> \<not> f64_isNaN x \<and> \<not> f64_isZero x \<and> drop_bit 63 x = 1"

section \<open>The configuration record\<close>

record FlowMonitorCIDR =
  CIDR :: string
  PPSThreshold :: u64
  MbpsThreshold :: f64

record FlowMonitoring =
  Enabled :: bool
  SampleEvery :: u32
  MaxFlows :: u32
  CIDRs :: "FlowMonitorCIDR slice"

record Tuning =
  RingSize :: u32
  Channels :: u32
  SymmetricRSS :: "bool option"
  CQECompress :: "bool option"
  DisableLRO :: "bool option"
  DisableVLANHW :: "bool option"
  DisableIRQBal :: "bool option"
  Governor :: string
  NetdevBacklog :: u32
  NetdevBudget :: u32

record Config =
  TrustedIface :: string
  UntrustedIface :: string
  Mode :: string
  OosStrict :: bool
  AllowInboundServers :: bool
  AllowInboundSYN :: bool
  ServerAllow :: "string slice"
  DropFrags :: bool
  DropBadFlags :: bool
  FilterUDP :: bool
  DropVlanDeep :: bool
  DropUDPFrags :: bool
  RejectWithRST :: bool
  FlowMax :: u32
  UDPFlowMax :: u32
  L1Size :: u32
  LRUPerCPU :: bool
  TTLSyn :: u32
  TTLEst :: u32
  TTLClosing :: u32
  TTLUdp :: u32
  XDPMode :: string
  Tune :: bool
  StatsDir :: string
  StatsInterval :: int
  GCInterval :: int
  HousekeepingCore :: int
  PinDir :: string
  Flow_Monitoring :: FlowMonitoring
  Tuning_Cfg :: Tuning

definition DefaultPinDir :: string where "DefaultPinDir = ''/sys/fs/bpf/xdpfilter''"
definition DefaultStatDir :: string where "DefaultStatDir = ''/var/lib/xdp_stats''"

text \<open>Go's zero value for the tuning overrides.\<close>

definition zeroTuning :: Tuning where
  "zeroTuning = \<lparr>RingSize = 0, Channels = 0, SymmetricRSS = None, CQECompress = None,
     DisableLRO = None, DisableVLANHW = None, DisableIRQBal = None, Governor = [],
     NetdevBacklog = 0, NetdevBudget = 0\<rparr>"

definition Default :: Config where
  "Default = \<lparr>TrustedIface = [], UntrustedIface = [], Mode = ''monitor'', OosStrict = False,
     AllowInboundServers = False, AllowInboundSYN = False, ServerAllow = None,
     DropFrags = True, DropBadFlags = True, FilterUDP = True, DropVlanDeep = False,
     DropUDPFrags = False, RejectWithRST = False, FlowMax = push_bit 24 1,
     UDPFlowMax = push_bit 22 1, L1Size = push_bit 16 1, LRUPerCPU = False, TTLSyn = 10,
     TTLEst = 300, TTLClosing = 10, TTLUdp = 30, XDPMode = ''native'', Tune = True,
     StatsDir = DefaultStatDir, StatsInterval = 10, GCInterval = 2, HousekeepingCore = -1,
     PinDir = DefaultPinDir,
     Flow_Monitoring = \<lparr>Enabled = False, SampleEvery = 64, MaxFlows = push_bit 18 1, CIDRs = Some []\<rparr>,
     Tuning_Cfg = zeroTuning\<rparr>"

section \<open>Validation\<close>

datatype host_port_error = BadHostPort | NotIPv4Host string | BadPort string num_error

text \<open>\<open>ParseHostPort\<close>: the address as its four bytes and the port.\<close>

definition ParseHostPort :: "string \<Rightarrow> host_port_error + (ip \<times> u16)" where
  "ParseHostPort s =
     (case splitHostPort s of
        None \<Rightarrow> Inl BadHostPort
      | Some (host, portStr) \<Rightarrow>
          (case (case parseIP host of None \<Rightarrow> None | Some a \<Rightarrow> to4 a) of
             None \<Rightarrow> Inl (NotIPv4Host host)
           | Some a \<Rightarrow>
               (case parseUint 16 portStr of
                  (_, Some e) \<Rightarrow> Inl (BadPort portStr e)
                | (p, None) \<Rightarrow> Inr (a, of_int p))))"

datatype config_error =
    IfacesRequired
  | IfacesMustDiffer
  | BadMode string
  | BadXDPMode string
  | FlowMaxTooSmall u32
  | L1SizeNotPow2 u32
  | BadServerAllow string host_port_error
  | BadSampleEvery u32
  | BadMaxFlows u32
  | TooManyCIDRs nat
  | NotIPv4CIDR nat string
  | NotCanonicalCIDR nat string string
  | DuplicateCIDR string
  | NoThreshold nat
  | BadMbps nat
  | ReadError
  | ParseError
  | SaveError

text \<open>The loop over \<open>f.CIDRs\<close>, with the index and the canonical networks seen so far.\<close>

fun validateCIDRs :: "nat \<Rightarrow> string list \<Rightarrow> FlowMonitorCIDR list \<Rightarrow> config_error option" where
  "validateCIDRs i seen [] = None"
| "validateCIDRs i seen (r # rs) =
     (case parseCIDR (trimSpace (CIDR r)) of
        None \<Rightarrow> Some (NotIPv4CIDR i (CIDR r))
      | Some (a, network) \<Rightarrow>
          (if to4 a = None then Some (NotIPv4CIDR i (CIDR r))
           else if trimSpace (CIDR r) \<noteq> ipnetString network
             then Some (NotCanonicalCIDR i (ipnetString network) (CIDR r))
           else if ipnetString network \<in> set seen then Some (DuplicateCIDR (ipnetString network))
           else if PPSThreshold r = 0 \<and> f64_isZero (MbpsThreshold r) then Some (NoThreshold i)
           else if f64_negative (MbpsThreshold r) \<or> f64_isNaN (MbpsThreshold r) \<or> f64_isInf (MbpsThreshold r)
             then Some (BadMbps i)
           else validateCIDRs (Suc i) (ipnetString network # seen) rs))"

definition validateFlowMonitoring :: "FlowMonitoring \<Rightarrow> config_error option \<times> FlowMonitoring" where
  "validateFlowMonitoring f0 =
     (let f1 = (if SampleEvery f0 = 0 then f0\<lparr>SampleEvery := 64\<rparr> else f0) in
      if 65536 < SampleEvery f1 \<or> SampleEvery f1 AND (SampleEvery f1 - 1) \<noteq> 0
        then (Some (BadSampleEvery (SampleEvery f1)), f1)
      else
        (let f2 = (if MaxFlows f1 = 0 then f1\<lparr>MaxFlows := push_bit 18 1\<rparr> else f1) in
         if MaxFlows f2 < 1024 \<or> push_bit 20 1 < MaxFlows f2
           then (Some (BadMaxFlows (MaxFlows f2)), f2)
         else if 4096 < length (elems (CIDRs f2))
           then (Some (TooManyCIDRs (length (elems (CIDRs f2)))), f2)
         else (validateCIDRs 0 [] (elems (CIDRs f2)), f2)))"

fun validateServers :: "string list \<Rightarrow> config_error option" where
  "validateServers [] = None"
| "validateServers (s # ss) =
     (case ParseHostPort s of Inl e \<Rightarrow> Some (BadServerAllow s e) | Inr _ \<Rightarrow> validateServers ss)"

text \<open>
  \<open>Validate\<close> normalises in place on the way, so the configuration it leaves behind is
  part of the result on the error returns too. The stages are the groups of checks in
  the order of the code.
\<close>

definition validateL1 :: "Config \<Rightarrow> config_error option \<times> Config" where
  "validateL1 c0 =
     (if L1Size c0 \<noteq> 0 then
        (let c1 = (if L1Size c0 < 1024 then c0\<lparr>L1Size := 1024\<rparr> else c0) in
         if L1Size c1 AND (L1Size c1 - 1) \<noteq> 0 then (Some (L1SizeNotPow2 (L1Size c1)), c1)
         else (None, c1))
      else (None, c0))"

definition normaliseRuntime :: "Config \<Rightarrow> Config" where
  "normaliseRuntime c0 =
     (let c1 = (if StatsDir c0 = [] then c0\<lparr>StatsDir := DefaultStatDir\<rparr> else c0);
          c2 = (if PinDir c1 = [] then c1\<lparr>PinDir := DefaultPinDir\<rparr> else c1);
          c3 = (if StatsInterval c2 \<le> 0 then c2\<lparr>StatsInterval := 10\<rparr> else c2)
      in (if GCInterval c3 \<le> 0 then c3\<lparr>GCInterval := 2\<rparr> else c3))"

definition validateHead :: "Config \<Rightarrow> config_error option" where
  "validateHead c =
     (if TrustedIface c = [] \<or> UntrustedIface c = [] then Some IfacesRequired
      else if TrustedIface c = UntrustedIface c then Some IfacesMustDiffer
      else if Mode c \<noteq> ''monitor'' \<and> Mode c \<noteq> ''enforce'' then Some (BadMode (Mode c))
      else if XDPMode c \<noteq> ''native'' \<and> XDPMode c \<noteq> ''generic'' \<and> XDPMode c \<noteq> ''auto''
        then Some (BadXDPMode (XDPMode c))
      else if FlowMax c < 1024 then Some (FlowMaxTooSmall (FlowMax c))
      else None)"

definition Validate :: "Config \<Rightarrow> config_error option \<times> Config" where
  "Validate c =
     (case validateHead c of
        Some e \<Rightarrow> (Some e, c)
      | None \<Rightarrow>
          (let c1 = (if UDPFlowMax c < 1024 then c\<lparr>UDPFlowMax := push_bit 22 1\<rparr> else c) in
           case validateL1 c1 of
             (Some e, c2) \<Rightarrow> (Some e, c2)
           | (None, c2) \<Rightarrow>
               (let c3 = (if TTLUdp c2 = 0 then c2\<lparr>TTLUdp := 30\<rparr> else c2) in
                case validateServers (elems (ServerAllow c3)) of
                  Some e \<Rightarrow> (Some e, c3)
                | None \<Rightarrow>
                    (let c4 = normaliseRuntime c3 in
                     case validateFlowMonitoring (Flow_Monitoring c4) of
                       (e, f) \<Rightarrow> (e, c4\<lparr>Flow_Monitoring := f\<rparr>)))))"

section \<open>Loading and saving\<close>

text \<open>
  \<open>unmarshal b c\<close> is \<open>yaml.Unmarshal\<close> of the bytes \<open>b\<close> over the configuration \<open>c\<close>,
  \<open>None\<close> when it returns an error. A file system maps paths to contents.
\<close>

type_synonym fsys = "string \<rightharpoonup> string"

definition Load :: "(string \<Rightarrow> Config \<Rightarrow> Config option) \<Rightarrow> fsys \<Rightarrow> string \<Rightarrow> config_error + Config" where
  "Load unmarshal fs path =
     (case fs path of
        None \<Rightarrow> Inl ReadError
      | Some b \<Rightarrow>
          (case unmarshal b Default of
             None \<Rightarrow> Inl ParseError
           | Some c \<Rightarrow> (case Validate c of (Some e, _) \<Rightarrow> Inl e | (None, c') \<Rightarrow> Inr c')))"

text \<open>
  The outcomes of the system calls of one \<open>Save\<close>: a failed write may leave anything in
  the temporary file.
\<close>

record save_calls =
  mkdir_ok :: bool
  write_ok :: bool
  write_left :: "string option"
  rename_ok :: bool

definition Save :: "(Config \<Rightarrow> string option) \<Rightarrow> save_calls \<Rightarrow> Config \<Rightarrow> string \<Rightarrow> fsys
    \<Rightarrow> config_error option \<times> fsys" where
  "Save marshal os c path fs =
     (if \<not> mkdir_ok os then (Some SaveError, fs)
      else (case marshal c of
              None \<Rightarrow> (Some SaveError, fs)
            | Some b \<Rightarrow>
                (let tmp = path @ ''.tmp'' in
                 if \<not> write_ok os then (Some SaveError, fs(tmp := write_left os))
                 else if \<not> rename_ok os then (Some SaveError, fs(tmp \<mapsto> b))
                 else (None, (fs(tmp := None))(path \<mapsto> b)))))"

section \<open>Copies, the live subset, and change classification\<close>

text \<open>\<open>Clone\<close> copies the two slices with \<open>append([]T(nil), s...)\<close> and every \<open>*bool\<close>.\<close>

definition Clone :: "Config \<Rightarrow> Config" where
  "Clone c = c\<lparr>ServerAllow := copySlice (ServerAllow c),
     Flow_Monitoring := (Flow_Monitoring c)\<lparr>CIDRs := copySlice (CIDRs (Flow_Monitoring c))\<rparr>\<rparr>"

definition ApplyLiveFrom :: "Config \<Rightarrow> Config \<Rightarrow> Config" where
  "ApplyLiveFrom c src = c\<lparr>
     Mode := Mode src, OosStrict := OosStrict src,
     AllowInboundServers := AllowInboundServers src, AllowInboundSYN := AllowInboundSYN src,
     DropFrags := DropFrags src, DropBadFlags := DropBadFlags src, FilterUDP := FilterUDP src,
     DropVlanDeep := DropVlanDeep src, DropUDPFrags := DropUDPFrags src,
     RejectWithRST := RejectWithRST src, ServerAllow := copySlice (ServerAllow src),
     TTLSyn := TTLSyn src, TTLEst := TTLEst src, TTLClosing := TTLClosing src, TTLUdp := TTLUdp src,
     Flow_Monitoring := (Flow_Monitoring c)\<lparr>
       Enabled := Enabled (Flow_Monitoring src),
       SampleEvery := SampleEvery (Flow_Monitoring src),
       CIDRs := copySlice (CIDRs (Flow_Monitoring src))\<rparr>\<rparr>"

datatype ChangeImpact = ImpactNone | ImpactLive | ImpactRestart | ImpactReattach

primrec impactCode :: "ChangeImpact \<Rightarrow> nat" where
  "impactCode ImpactNone = 0"
| "impactCode ImpactLive = 1"
| "impactCode ImpactRestart = 2"
| "impactCode ImpactReattach = 3"

primrec impactString :: "ChangeImpact \<Rightarrow> string" where
  "impactString ImpactNone = ''none''"
| "impactString ImpactLive = ''live''"
| "impactString ImpactRestart = ''restart''"
| "impactString ImpactReattach = ''reattach''"

text \<open>The impacts are ordered as the \<open>uint8\<close> constants of the code are.\<close>

instantiation ChangeImpact :: linorder
begin

definition less_eq_ChangeImpact :: "ChangeImpact \<Rightarrow> ChangeImpact \<Rightarrow> bool" where
  "less_eq_ChangeImpact i j = (impactCode i \<le> impactCode j)"

definition less_ChangeImpact :: "ChangeImpact \<Rightarrow> ChangeImpact \<Rightarrow> bool" where
  "less_ChangeImpact i j = (impactCode i < impactCode j)"

instance
proof
  fix i j k :: ChangeImpact
  show "(i < j) = (i \<le> j \<and> \<not> j \<le> i)"
    by (auto simp: less_eq_ChangeImpact_def less_ChangeImpact_def)
  show "i \<le> i" by (simp add: less_eq_ChangeImpact_def)
  show "i \<le> j \<Longrightarrow> j \<le> k \<Longrightarrow> i \<le> k" by (simp add: less_eq_ChangeImpact_def)
  show "i \<le> j \<Longrightarrow> j \<le> i \<Longrightarrow> i = j" by (cases i; cases j) (simp_all add: less_eq_ChangeImpact_def)
  show "i \<le> j \<or> j \<le> i" by (auto simp: less_eq_ChangeImpact_def)
qed

end

record ChangeSet =
  Impact :: ChangeImpact
  Fields :: "string list"

definition csEmpty :: "ChangeSet \<Rightarrow> bool" where
  "csEmpty d \<longleftrightarrow> Fields d = []"

definition csSummary :: "ChangeSet \<Rightarrow> string" where
  "csSummary d = (if Fields d = [] then []
     else impactString (Impact d) @ '' required: '' @ joinWith '', '' (Fields d))"

text \<open>\<open>reflect.DeepEqual\<close> on the rule slice: nil differs from empty, floats compare with \<open>==\<close>.\<close>

definition ruleDeepEqual :: "FlowMonitorCIDR \<Rightarrow> FlowMonitorCIDR \<Rightarrow> bool" where
  "ruleDeepEqual r s \<longleftrightarrow> CIDR r = CIDR s \<and> PPSThreshold r = PPSThreshold s \<and>
     f64_eq (MbpsThreshold r) (MbpsThreshold s)"

definition rulesDeepEqual :: "FlowMonitorCIDR slice \<Rightarrow> FlowMonitorCIDR slice \<Rightarrow> bool" where
  "rulesDeepEqual xs ys \<longleftrightarrow> rel_option (list_all2 ruleDeepEqual) xs ys"

text \<open>The calls of \<open>add\<close> in \<open>Diff\<close>, in their order: impact, field name, changed.\<close>

definition diffTable :: "Config \<Rightarrow> Config \<Rightarrow> (ChangeImpact \<times> string \<times> bool) list" where
  "diffTable a b =
    [(ImpactReattach, ''trusted_iface'', TrustedIface a \<noteq> TrustedIface b),
     (ImpactReattach, ''untrusted_iface'', UntrustedIface a \<noteq> UntrustedIface b),
     (ImpactLive, ''mode'', Mode a \<noteq> Mode b),
     (ImpactLive, ''oos_strict'', OosStrict a \<noteq> OosStrict b),
     (ImpactLive, ''allow_inbound_servers'', AllowInboundServers a \<noteq> AllowInboundServers b),
     (ImpactLive, ''allow_inbound_syn'', AllowInboundSYN a \<noteq> AllowInboundSYN b),
     (ImpactLive, ''server_allow'', ServerAllow a \<noteq> ServerAllow b),
     (ImpactLive, ''drop_frags'', DropFrags a \<noteq> DropFrags b),
     (ImpactLive, ''drop_bad_flags'', DropBadFlags a \<noteq> DropBadFlags b),
     (ImpactLive, ''filter_udp'', FilterUDP a \<noteq> FilterUDP b),
     (ImpactLive, ''drop_vlan_deep'', DropVlanDeep a \<noteq> DropVlanDeep b),
     (ImpactLive, ''drop_udp_frags'', DropUDPFrags a \<noteq> DropUDPFrags b),
     (ImpactLive, ''reject_with_rst'', RejectWithRST a \<noteq> RejectWithRST b),
     (ImpactRestart, ''flow_max'', FlowMax a \<noteq> FlowMax b),
     (ImpactRestart, ''udp_flow_max'', UDPFlowMax a \<noteq> UDPFlowMax b),
     (ImpactRestart, ''l1_size'', L1Size a \<noteq> L1Size b),
     (ImpactRestart, ''lru_percpu'', LRUPerCPU a \<noteq> LRUPerCPU b),
     (ImpactLive, ''ttl_syn'', TTLSyn a \<noteq> TTLSyn b),
     (ImpactLive, ''ttl_est'', TTLEst a \<noteq> TTLEst b),
     (ImpactLive, ''ttl_closing'', TTLClosing a \<noteq> TTLClosing b),
     (ImpactLive, ''ttl_udp'', TTLUdp a \<noteq> TTLUdp b),
     (ImpactReattach, ''xdp_mode'', XDPMode a \<noteq> XDPMode b),
     (ImpactRestart, ''tune'', Tune a \<noteq> Tune b),
     (ImpactRestart, ''stats_dir'', StatsDir a \<noteq> StatsDir b),
     (ImpactRestart, ''stats_interval'', StatsInterval a \<noteq> StatsInterval b),
     (ImpactRestart, ''gc_interval'', GCInterval a \<noteq> GCInterval b),
     (ImpactRestart, ''housekeeping_core'', HousekeepingCore a \<noteq> HousekeepingCore b),
     (ImpactReattach, ''pin_dir'', PinDir a \<noteq> PinDir b),
     (ImpactLive, ''flow_monitoring.enabled'', Enabled (Flow_Monitoring a) \<noteq> Enabled (Flow_Monitoring b)),
     (ImpactLive, ''flow_monitoring.sample_every'',
        SampleEvery (Flow_Monitoring a) \<noteq> SampleEvery (Flow_Monitoring b)),
     (ImpactRestart, ''flow_monitoring.max_flows'',
        MaxFlows (Flow_Monitoring a) \<noteq> MaxFlows (Flow_Monitoring b)),
     (ImpactLive, ''flow_monitoring.cidrs'',
        \<not> rulesDeepEqual (CIDRs (Flow_Monitoring a)) (CIDRs (Flow_Monitoring b))),
     (ImpactRestart, ''tuning'', Tuning_Cfg a \<noteq> Tuning_Cfg b)]"

fun addChange :: "ChangeImpact \<times> string \<times> bool \<Rightarrow> ChangeSet \<Rightarrow> ChangeSet" where
  "addChange (i, name, changed) d =
     (if \<not> changed then d
      else \<lparr>Impact = (if Impact d < i then i else Impact d), Fields = Fields d @ [name]\<rparr>)"

definition noChange :: ChangeSet where
  "noChange = \<lparr>Impact = ImpactNone, Fields = []\<rparr>"

text \<open>\<open>Diff\<close> on pointers: a nil configuration counts as a reattach.\<close>

fun Diff :: "Config option \<Rightarrow> Config option \<Rightarrow> ChangeSet" where
  "Diff (Some a) (Some b) = fold addChange (diffTable a b) noChange"
| "Diff _ _ = \<lparr>Impact = ImpactReattach, Fields = [''configuration'']\<rparr>"

definition StructuralDiff :: "Config \<Rightarrow> Config \<Rightarrow> string" where
  "StructuralDiff c src = (let d = Diff (Some c) (Some src) in
     if Impact d < ImpactRestart then [] else csSummary d)"

section \<open>Well-formed configurations\<close>

text \<open>
  What \<open>Validate\<close> promises of the configuration it accepts: the invariant every other
  component relies on.
\<close>

definition wf_rule :: "FlowMonitorCIDR \<Rightarrow> bool" where
  "wf_rule r \<longleftrightarrow> (case parseCIDR (trimSpace (CIDR r)) of
       None \<Rightarrow> False
     | Some (a, network) \<Rightarrow> to4 a \<noteq> None \<and> trimSpace (CIDR r) = ipnetString network) \<and>
     (PPSThreshold r \<noteq> 0 \<or> \<not> f64_isZero (MbpsThreshold r)) \<and>
     \<not> f64_negative (MbpsThreshold r) \<and> \<not> f64_isNaN (MbpsThreshold r) \<and> \<not> f64_isInf (MbpsThreshold r)"

definition wf_monitoring :: "FlowMonitoring \<Rightarrow> bool" where
  "wf_monitoring f \<longleftrightarrow>
     is_pow2 (SampleEvery f) \<and> SampleEvery f \<le> 65536 \<and> 1024 \<le> MaxFlows f \<and> MaxFlows f \<le> 1048576 \<and>
     length (elems (CIDRs f)) \<le> 4096 \<and>
     (\<forall>r \<in> set (elems (CIDRs f)). wf_rule r) \<and>
     distinct (map (\<lambda>r. trimSpace (CIDR r)) (elems (CIDRs f)))"

definition wf_config :: "Config \<Rightarrow> bool" where
  "wf_config c \<longleftrightarrow>
     TrustedIface c \<noteq> [] \<and> UntrustedIface c \<noteq> [] \<and> TrustedIface c \<noteq> UntrustedIface c \<and>
     Mode c \<in> {''monitor'', ''enforce''} \<and> XDPMode c \<in> {''native'', ''generic'', ''auto''} \<and>
     1024 \<le> FlowMax c \<and> 1024 \<le> UDPFlowMax c \<and>
     (L1Size c = 0 \<or> 1024 \<le> L1Size c \<and> is_pow2 (L1Size c)) \<and>
     TTLUdp c \<noteq> 0 \<and> (\<forall>s \<in> set (elems (ServerAllow c)). \<exists>a p. ParseHostPort s = Inr (a, p)) \<and>
     StatsDir c \<noteq> [] \<and> PinDir c \<noteq> [] \<and> 0 < StatsInterval c \<and> 0 < GCInterval c \<and>
     wf_monitoring (Flow_Monitoring c)"

section \<open>Lemmas on validation\<close>

lemma validateServers_None_iff:
  "validateServers ss = None \<longleftrightarrow> (\<forall>s \<in> set ss. \<exists>a p. ParseHostPort s = Inr (a, p))"
  by (induction ss) (auto split: sum.splits)

lemma validateCIDRs_None_iff:
  "validateCIDRs i seen rs = None \<longleftrightarrow>
     (\<forall>r \<in> set rs. wf_rule r) \<and> distinct (map (\<lambda>r. trimSpace (CIDR r)) rs) \<and>
     set seen \<inter> (\<lambda>r. trimSpace (CIDR r)) ` set rs = {}"
proof (induction i seen rs rule: validateCIDRs.induct)
  case (2 i seen r rs)
  show ?case
  proof (cases "wf_rule r \<and> trimSpace (CIDR r) \<notin> set seen")
    case True
    then obtain a network where p: "parseCIDR (trimSpace (CIDR r)) = Some (a, network)"
      and a: "to4 a \<noteq> None" "trimSpace (CIDR r) = ipnetString network"
      by (auto simp: wf_rule_def split: option.splits)
    from True p a have "validateCIDRs i seen (r # rs) = validateCIDRs (Suc i) (ipnetString network # seen) rs"
      by (auto simp: wf_rule_def)
    moreover have "(validateCIDRs (Suc i) (ipnetString network # seen) rs = None) \<longleftrightarrow>
        (\<forall>r \<in> set rs. wf_rule r) \<and> distinct (map (\<lambda>r. trimSpace (CIDR r)) rs) \<and>
        set (ipnetString network # seen) \<inter> (\<lambda>r. trimSpace (CIDR r)) ` set rs = {}"
      using True p a by (intro 2) (auto simp: wf_rule_def)
    ultimately show ?thesis using True a(2) by auto
  next
    case False
    then have "validateCIDRs i seen (r # rs) \<noteq> None"
      by (auto simp: wf_rule_def split: option.splits)
    with False show ?thesis by auto
  qed
qed simp

lemma validateFlowMonitoring_wf:
  "validateFlowMonitoring f = (None, f') \<Longrightarrow> wf_monitoring f'"
  by (auto simp: validateFlowMonitoring_def wf_monitoring_def validateCIDRs_None_iff and_pred_word_iff
      Let_def not_less split: if_splits)

lemma validateFlowMonitoring_id:
  "wf_monitoring f \<Longrightarrow> validateFlowMonitoring f = (None, f)"
  by (auto simp: validateFlowMonitoring_def wf_monitoring_def validateCIDRs_None_iff and_pred_word_iff
      Let_def not_less is_pow2_def)

lemma validateHead_None_iff:
  "validateHead c = None \<longleftrightarrow> TrustedIface c \<noteq> [] \<and> UntrustedIface c \<noteq> [] \<and> TrustedIface c \<noteq> UntrustedIface c \<and>
     Mode c \<in> {''monitor'', ''enforce''} \<and> XDPMode c \<in> {''native'', ''generic'', ''auto''} \<and> 1024 \<le> FlowMax c"
  by (auto simp: validateHead_def not_less split: if_splits)

text \<open>The values \<open>Validate\<close> normalises to, each as a function of the value it finds.\<close>

definition normL1 :: "u32 \<Rightarrow> u32" where
  "normL1 n = (if n \<noteq> 0 \<and> n < 1024 then 1024 else n)"

definition normScalars :: "Config \<Rightarrow> Config" where
  "normScalars c = c\<lparr>UDPFlowMax := (if UDPFlowMax c < 1024 then 4194304 else UDPFlowMax c), L1Size := normL1 (L1Size c),
     TTLUdp := (if TTLUdp c = 0 then 30 else TTLUdp c)\<rparr>"

lemma normaliseRuntime_sel:
  "normaliseRuntime c = c\<lparr>StatsDir := (if StatsDir c = [] then DefaultStatDir else StatsDir c),
     PinDir := (if PinDir c = [] then DefaultPinDir else PinDir c),
     StatsInterval := (if StatsInterval c \<le> 0 then 10 else StatsInterval c),
     GCInterval := (if GCInterval c \<le> 0 then 2 else GCInterval c)\<rparr>"
  by (simp add: normaliseRuntime_def Let_def)

lemma validateL1_sel:
  "validateL1 c = (if normL1 (L1Size c) AND (normL1 (L1Size c) - 1) \<noteq> 0 then Some (L1SizeNotPow2 (normL1 (L1Size c))) else None,
      c\<lparr>L1Size := normL1 (L1Size c)\<rparr>)"
  by (simp add: validateL1_def Let_def normL1_def)

lemma Validate_None_iff:
  "Validate c = (None, c') \<longleftrightarrow>
     validateHead c = None \<and> normL1 (L1Size c) AND (normL1 (L1Size c) - 1) = 0 \<and>
     validateServers (elems (ServerAllow c)) = None \<and>
     (\<exists>f. validateFlowMonitoring (Flow_Monitoring c) = (None, f) \<and>
        c' = (normaliseRuntime (normScalars c))\<lparr>Flow_Monitoring := f\<rparr>)"
proof -
  have u: "(if UDPFlowMax c < 1024 then c\<lparr>UDPFlowMax := push_bit 22 1\<rparr> else c) =
     c\<lparr>UDPFlowMax := (if UDPFlowMax c < 1024 then 4194304 else UDPFlowMax c)\<rparr>" by simp
  have t: "(if TTLUdp d = 0 then d\<lparr>TTLUdp := 30\<rparr> else d) = d\<lparr>TTLUdp := (if TTLUdp d = 0 then 30 else TTLUdp d)\<rparr>" for d
    by simp
  show ?thesis
    unfolding Validate_def u Let_def validateL1_sel t
    by (cases "validateHead c"; cases "validateServers (elems (ServerAllow c))";
        cases "validateFlowMonitoring (Flow_Monitoring c)")
       (auto simp: normScalars_def normaliseRuntime_sel)
qed

lemma wf_config_iff:
  "wf_config c \<longleftrightarrow> validateHead c = None \<and> 1024 \<le> UDPFlowMax c \<and>
     (L1Size c = 0 \<or> 1024 \<le> L1Size c \<and> is_pow2 (L1Size c)) \<and>
     TTLUdp c \<noteq> 0 \<and> validateServers (elems (ServerAllow c)) = None \<and>
     StatsDir c \<noteq> [] \<and> PinDir c \<noteq> [] \<and> 0 < StatsInterval c \<and> 0 < GCInterval c \<and>
     wf_monitoring (Flow_Monitoring c)"
  by (simp only: wf_config_def validateHead_None_iff validateServers_None_iff conj_assoc)

lemma normL1_cases: "normL1 n AND (normL1 n - 1) = 0 \<Longrightarrow> normL1 n = 0 \<or> 1024 \<le> normL1 n \<and> is_pow2 (normL1 n)"
  by (auto simp: and_pred_word_iff normL1_def not_less split: if_splits)

lemma validateHead_normalised:
  "validateHead ((normaliseRuntime (normScalars c))\<lparr>Flow_Monitoring := f\<rparr>) = validateHead c"
  by (simp add: validateHead_def normaliseRuntime_sel normScalars_def)

lemma normalised_sel:
  "UDPFlowMax (normaliseRuntime (normScalars c)) = (if UDPFlowMax c < 1024 then 4194304 else UDPFlowMax c)"
  "L1Size (normaliseRuntime (normScalars c)) = normL1 (L1Size c)"
  "TTLUdp (normaliseRuntime (normScalars c)) = (if TTLUdp c = 0 then 30 else TTLUdp c)"
  "ServerAllow (normaliseRuntime (normScalars c)) = ServerAllow c"
  "StatsDir (normaliseRuntime (normScalars c)) = (if StatsDir c = [] then DefaultStatDir else StatsDir c)"
  "PinDir (normaliseRuntime (normScalars c)) = (if PinDir c = [] then DefaultPinDir else PinDir c)"
  "StatsInterval (normaliseRuntime (normScalars c)) = (if StatsInterval c \<le> 0 then 10 else StatsInterval c)"
  "GCInterval (normaliseRuntime (normScalars c)) = (if GCInterval c \<le> 0 then 2 else GCInterval c)"
  by (simp_all add: normaliseRuntime_sel normScalars_def)

lemma Validate_wf:
  assumes "Validate c = (None, c')" shows "wf_config c'"
proof -
  from assms obtain f where h: "validateHead c = None" and l: "normL1 (L1Size c) AND (normL1 (L1Size c) - 1) = 0"
    and s: "validateServers (elems (ServerAllow c)) = None"
    and f: "validateFlowMonitoring (Flow_Monitoring c) = (None, f)"
    and c': "c' = (normaliseRuntime (normScalars c))\<lparr>Flow_Monitoring := f\<rparr>"
    unfolding Validate_None_iff by blast
  have "wf_monitoring f" using f by (rule validateFlowMonitoring_wf)
  moreover have "normL1 (L1Size c) = 0 \<or> 1024 \<le> normL1 (L1Size c) \<and> is_pow2 (normL1 (L1Size c))"
    using l by (rule normL1_cases)
  ultimately show ?thesis
    unfolding wf_config_iff c' validateHead_normalised using h s
    by (simp add: normalised_sel DefaultStatDir_def DefaultPinDir_def not_less)
qed

lemma Validate_id:
  assumes "wf_config c" shows "Validate c = (None, c)"
proof -
  from assms have l: "normL1 (L1Size c) = L1Size c" by (auto simp: wf_config_iff normL1_def)
  from assms have "\<not> UDPFlowMax c < 1024" "TTLUdp c \<noteq> 0" "StatsDir c \<noteq> []" "PinDir c \<noteq> []"
    "\<not> StatsInterval c \<le> 0" "\<not> GCInterval c \<le> 0"
    by (simp_all add: wf_config_iff not_less)
  then have "normaliseRuntime (normScalars c) = c"
    by (simp add: normaliseRuntime_sel normScalars_def l)
  moreover have "validateFlowMonitoring (Flow_Monitoring c) = (None, Flow_Monitoring c)"
    using assms by (intro validateFlowMonitoring_id) (simp add: wf_config_iff)
  ultimately show ?thesis
    unfolding Validate_None_iff using assms by (auto simp: wf_config_iff l and_pred_word_iff)
qed


text \<open>The fields \<open>Validate\<close> may overwrite, taken from \<open>n\<close>; every other field from \<open>c\<close>.\<close>

definition withNormalised :: "Config \<Rightarrow> Config \<Rightarrow> Config" where
  "withNormalised c n = c\<lparr>UDPFlowMax := UDPFlowMax n, L1Size := L1Size n, TTLUdp := TTLUdp n,
     StatsDir := StatsDir n, PinDir := PinDir n, StatsInterval := StatsInterval n, GCInterval := GCInterval n,
     Flow_Monitoring := (Flow_Monitoring c)\<lparr>SampleEvery := SampleEvery (Flow_Monitoring n),
       MaxFlows := MaxFlows (Flow_Monitoring n)\<rparr>\<rparr>"

lemma validateFlowMonitoring_frame:
  "validateFlowMonitoring f = (e, f') \<Longrightarrow> f' = f\<lparr>SampleEvery := SampleEvery f', MaxFlows := MaxFlows f'\<rparr>"
  by (auto simp: validateFlowMonitoring_def Let_def split: if_splits)

lemma Validate_frame_ok:
  assumes "Validate c = (None, c')" shows "c' = withNormalised c c'"
proof -
  from assms obtain f where f: "validateFlowMonitoring (Flow_Monitoring c) = (None, f)"
    and c': "c' = (normaliseRuntime (normScalars c))\<lparr>Flow_Monitoring := f\<rparr>"
    unfolding Validate_None_iff by blast
  show ?thesis
    unfolding c' withNormalised_def using validateFlowMonitoring_frame [OF f]
    by (simp add: normaliseRuntime_sel normScalars_def)
qed


lemma Default_valid:
  "t \<noteq> [] \<Longrightarrow> u \<noteq> [] \<Longrightarrow> t \<noteq> u \<Longrightarrow> wf_config (Default\<lparr>TrustedIface := t, UntrustedIface := u\<rparr>)"
  by (simp add: wf_config_def Default_def wf_monitoring_def is_pow2_code DefaultStatDir_def DefaultPinDir_def)

section \<open>Lemmas on change classification\<close>

lemma fold_addChange_Impact:
  "Impact (fold addChange t d) < k \<longleftrightarrow> Impact d < k \<and> (\<forall>(i, n, ch) \<in> set t. ch \<longrightarrow> i < k)"
  by (induction t arbitrary: d) (auto split: if_splits)

lemma fold_addChange_Fields:
  "Fields (fold addChange t d) = Fields d @ map (\<lambda>(i, n, ch). n) (filter (\<lambda>(i, n, ch). ch) t)"
  by (induction t arbitrary: d) auto

lemma Diff_Impact_less_iff:
  "Impact (Diff (Some a) (Some b)) < k \<longleftrightarrow> ImpactNone < k \<and> (\<forall>(i, n, ch) \<in> set (diffTable a b). ch \<longrightarrow> i < k)"
  by (simp add: fold_addChange_Impact noChange_def)

lemma Diff_Fields:
  "Fields (Diff (Some a) (Some b)) = map (\<lambda>(i, n, ch). n) (filter (\<lambda>(i, n, ch). ch) (diffTable a b))"
  by (simp add: fold_addChange_Fields noChange_def)

lemma csSummary_Nil_iff: "csSummary d = [] \<longleftrightarrow> Fields d = []"
  by (cases "Impact d") (simp_all add: csSummary_def)

lemma StructuralDiff_Nil_iff:
  "StructuralDiff c src = [] \<longleftrightarrow> (\<forall>(i, n, ch) \<in> set (diffTable c src). ch \<longrightarrow> i < ImpactRestart)"
proof -
  have "Fields (Diff (Some c) (Some src)) = [] \<Longrightarrow> Impact (Diff (Some c) (Some src)) < ImpactRestart"
    unfolding Diff_Impact_less_iff Diff_Fields by (auto simp: less_ChangeImpact_def filter_empty_conv)
  then show ?thesis
    unfolding StructuralDiff_def Let_def
    using Diff_Impact_less_iff [of c src ImpactRestart]
    by (auto simp: csSummary_Nil_iff less_ChangeImpact_def simp del: Diff.simps)
qed

lemma Config_eq_iff: "a = b \<longleftrightarrow>
     TrustedIface a = TrustedIface b \<and> UntrustedIface a = UntrustedIface b \<and>
     Mode a = Mode b \<and> OosStrict a = OosStrict b \<and>
     AllowInboundServers a = AllowInboundServers b \<and> AllowInboundSYN a = AllowInboundSYN b \<and>
     ServerAllow a = ServerAllow b \<and> DropFrags a = DropFrags b \<and>
     DropBadFlags a = DropBadFlags b \<and> FilterUDP a = FilterUDP b \<and>
     DropVlanDeep a = DropVlanDeep b \<and> DropUDPFrags a = DropUDPFrags b \<and>
     RejectWithRST a = RejectWithRST b \<and> FlowMax a = FlowMax b \<and>
     UDPFlowMax a = UDPFlowMax b \<and> L1Size a = L1Size b \<and>
     LRUPerCPU a = LRUPerCPU b \<and> TTLSyn a = TTLSyn b \<and>
     TTLEst a = TTLEst b \<and> TTLClosing a = TTLClosing b \<and>
     TTLUdp a = TTLUdp b \<and> XDPMode a = XDPMode b \<and>
     Tune a = Tune b \<and> StatsDir a = StatsDir b \<and>
     StatsInterval a = StatsInterval b \<and> GCInterval a = GCInterval b \<and>
     HousekeepingCore a = HousekeepingCore b \<and> PinDir a = PinDir b \<and>
     Flow_Monitoring a = Flow_Monitoring b \<and> Tuning_Cfg a = Tuning_Cfg b" for a b :: Config
  by (cases a; cases b) simp

lemma FlowMonitoring_eq_iff: "f = g \<longleftrightarrow> Enabled f = Enabled g \<and> SampleEvery f = SampleEvery g \<and>
     MaxFlows f = MaxFlows g \<and> CIDRs f = CIDRs g" for f g :: FlowMonitoring
  by (cases f; cases g) simp

lemma ApplyLive_complete_aux: "StructuralDiff c src = [] \<longleftrightarrow> ApplyLiveFrom c src = Clone src"
proof -
  have "(\<forall>(i, n, ch) \<in> set (diffTable c src). ch \<longrightarrow> i < ImpactRestart) \<longleftrightarrow>
     TrustedIface c = TrustedIface src \<and> UntrustedIface c = UntrustedIface src \<and> FlowMax c = FlowMax src \<and>
     UDPFlowMax c = UDPFlowMax src \<and> L1Size c = L1Size src \<and> LRUPerCPU c = LRUPerCPU src \<and>
     XDPMode c = XDPMode src \<and> Tune c = Tune src \<and> StatsDir c = StatsDir src \<and>
     StatsInterval c = StatsInterval src \<and> GCInterval c = GCInterval src \<and>
     HousekeepingCore c = HousekeepingCore src \<and> PinDir c = PinDir src \<and>
     MaxFlows (Flow_Monitoring c) = MaxFlows (Flow_Monitoring src) \<and> Tuning_Cfg c = Tuning_Cfg src"
    by (simp add: diffTable_def less_ChangeImpact_def)
  also have "\<dots> \<longleftrightarrow> ApplyLiveFrom c src = Clone src"
    unfolding ApplyLiveFrom_def Clone_def
    by (simp add: Config_eq_iff [of "c\<lparr>Mode := x\<rparr>" for x] Config_eq_iff [of "Flow_Monitoring_update x y" for x y] FlowMonitoring_eq_iff conj_ac)
  finally show ?thesis unfolding StructuralDiff_Nil_iff .
qed
section \<open>Properties of the configuration\<close>

text \<open>C4: \<open>Validate\<close> establishes the configuration invariant: when it returns no error, the
  configuration it leaves behind is well-formed, differs from the one it was given at
  most in the eight normalised fields, and is accepted again unchanged.\<close>

theorem Validate_establishes:
  assumes "Validate c = (None, c')"
  shows "wf_config c' \<and> c' = withNormalised c c' \<and> Validate c' = (None, c')"
  using Validate_wf [OF assms] Validate_frame_ok [OF assms] Validate_id by blast

definition sample_config :: Config where
  "sample_config = Default\<lparr>TrustedIface := ''ens1'', UntrustedIface := ''ens2'',
     ServerAllow := Some [''9.9.9.9:53''], UDPFlowMax := 0, TTLUdp := 0,
     Flow_Monitoring := \<lparr>Enabled = True, SampleEvery = 0, MaxFlows = 4096,
       CIDRs = Some [\<lparr>CIDR = ''8.0.0.0/8'', PPSThreshold = 1000, MbpsThreshold = 0\<rparr>]\<rparr>\<rparr>"

lemma sample_config_accepted:
  "map_prod id (\<lambda>c. (TTLUdp c, UDPFlowMax c)) (Validate sample_config) = (None, 30, 4194304)"
  by code_simp

theorem Validate_establishes_witness:
  "wf_config (snd (Validate sample_config)) \<and> TTLUdp (snd (Validate sample_config)) = 30"
proof -
  obtain c where v: "Validate sample_config = (None, c)" and t: "TTLUdp c = 30"
    using sample_config_accepted by (cases "Validate sample_config") auto
  from Validate_establishes [OF v] t show ?thesis by (simp add: v)
qed

text \<open>the well-formed configurations are exactly those \<open>Validate\<close> accepts without
  changing anything.\<close>

theorem Validate_fixpoint: "Validate c = (None, c) \<longleftrightarrow> wf_config c"
  using Validate_id [of c] Validate_wf [of c c] by blast

text \<open>the classification and the live subset agree: a reload is free of structural
  changes exactly when copying the live fields of the new configuration into the
  running one gives (a clone of) the whole new configuration, so no setting the live
  path does not apply is ever accepted silently.\<close>

theorem StructuralDiff_iff_ApplyLive:
  "StructuralDiff c src = [] \<longleftrightarrow> ApplyLiveFrom c src = Clone src"
  by (rule ApplyLive_complete_aux)

text \<open>\<open>Diff\<close> misses no field: it is empty exactly for two configurations that agree on
  every field (the rule slice up to \<open>reflect.DeepEqual\<close>), and its impact is then none.\<close>

theorem Diff_complete:
  "csEmpty (Diff (Some a) (Some b)) \<longleftrightarrow>
     Impact (Diff (Some a) (Some b)) = ImpactNone \<and>
     a = b\<lparr>Flow_Monitoring := (Flow_Monitoring b)\<lparr>CIDRs := CIDRs (Flow_Monitoring a)\<rparr>\<rparr> \<and>
     rulesDeepEqual (CIDRs (Flow_Monitoring a)) (CIDRs (Flow_Monitoring b))"
proof -
  have none: "csEmpty (Diff (Some a) (Some b)) \<Longrightarrow> Impact (Diff (Some a) (Some b)) = ImpactNone"
    using Diff_Impact_less_iff [of a b ImpactLive]
    by (cases "Impact (Diff (Some a) (Some b))")
       (auto simp: csEmpty_def Diff_Fields filter_empty_conv less_ChangeImpact_def simp del: Diff.simps)
  have "csEmpty (Diff (Some a) (Some b)) \<longleftrightarrow> (\<forall>(i, n, ch) \<in> set (diffTable a b). \<not> ch)"
    unfolding csEmpty_def Diff_Fields by (auto simp: filter_empty_conv)
  also have "\<dots> \<longleftrightarrow> a = b\<lparr>Flow_Monitoring := (Flow_Monitoring b)\<lparr>CIDRs := CIDRs (Flow_Monitoring a)\<rparr>\<rparr> \<and>
     rulesDeepEqual (CIDRs (Flow_Monitoring a)) (CIDRs (Flow_Monitoring b))"
    by (simp add: diffTable_def Config_eq_iff [of a] FlowMonitoring_eq_iff [of "Flow_Monitoring a"] conj_ac)
  finally show ?thesis using none by blast
qed

text \<open>C16: \<open>Save\<close> is atomic for readers of the configuration path: whatever the system calls
  answer, the file is either untouched or holds the complete encoding, the latter
  exactly when \<open>Save\<close> reports success; and no path but the file and its temporary
  sibling changes.\<close>

theorem Save_atomic:
  assumes "Save marshal os c path fs = (e, fs')" and "marshal c = Some b"
  shows "(e = None \<and> fs' path = Some b \<or> e = Some SaveError \<and> fs' path = fs path) \<and>
     (\<forall>p. fs' p \<noteq> fs p \<longrightarrow> p = path \<or> p = path @ ''.tmp'')"
  using assms by (auto simp: Save_def Let_def split: if_splits)

theorem Save_atomic_witness:
  "let os = \<lparr>mkdir_ok = True, write_ok = True, write_left = None, rename_ok = False\<rparr>;
       fs = [''/etc/c'' \<mapsto> ''old''] in
   snd (Save (\<lambda>c. Some ''new'') os Default ''/etc/c'' fs) ''/etc/c'' = Some ''old''"
  using Save_atomic [of "\<lambda>c. Some ''new''"
      "\<lparr>mkdir_ok = True, write_ok = True, write_left = None, rename_ok = False\<rparr>"
      Default "''/etc/c''" "[''/etc/c'' \<mapsto> ''old'']" "Some SaveError"
      "[''/etc/c'' \<mapsto> ''old'', ''/etc/c.tmp'' \<mapsto> ''new'']" "''new''"]
  by (simp add: Save_def)

text \<open>a configuration that was saved is the one that is loaded back: for a well-formed
  configuration, an encoder whose output the decoder reads back over the defaults, and
  system calls that succeed, \<open>Load\<close> after \<open>Save\<close> returns the configuration itself.\<close>

theorem Load_Save:
  assumes yaml: "marshal c = Some b" "unmarshal b Default = Some c"
    and wf: "wf_config c" and saved: "Save marshal os c path fs = (None, fs')"
  shows "Load unmarshal fs' path = Inr c"
proof -
  have "fs' path = Some b" using saved yaml by (auto simp: Save_def Let_def split: if_splits)
  then show ?thesis using yaml Validate_id [OF wf] by (simp add: Load_def)
qed

theorem Load_Save_witness:
  "let c = Default\<lparr>TrustedIface := ''a'', UntrustedIface := ''b''\<rparr>;
       os = \<lparr>mkdir_ok = True, write_ok = True, write_left = None, rename_ok = True\<rparr> in
   Load (\<lambda>b d. if b = ''x'' then Some (d\<lparr>TrustedIface := ''a'', UntrustedIface := ''b''\<rparr>) else None)
     (snd (Save (\<lambda>c. Some ''x'') os c ''/etc/c'' Map.empty)) ''/etc/c'' = Inr c"
  using Load_Save [of "\<lambda>c. Some ''x''" "Default\<lparr>TrustedIface := ''a'', UntrustedIface := ''b''\<rparr>" "''x''"
      "\<lambda>b d. if b = ''x'' then Some (d\<lparr>TrustedIface := ''a'', UntrustedIface := ''b''\<rparr>) else None"
      "\<lparr>mkdir_ok = True, write_ok = True, write_left = None, rename_ok = True\<rparr>"
      "''/etc/c''" Map.empty "[''/etc/c'' \<mapsto> ''x'']"] Default_valid [of "''a''" "''b''"]
  by (simp add: Save_def)

end
