(* ===== verification/Resources.thy ===== *)
theory Resources
  imports Config
begin

text \<open>
  The host probe and the sizing recommendation of \<open>internal/config/resources.go\<close>. The
  files of \<open>/proc\<close> and \<open>/sys\<close> are a reader function, memory sizes are 64-bit words
  with their wrap-around, Go's \<open>int\<close> is an integer wrapped to 64 bits.
  \<open>RecommendDedicated\<close> returns \<open>None\<close> where the code panics (an integer division by
  zero) or does not return.
\<close>

section \<open>Reading files\<close>

datatype read_err = ErrNotExist | ErrOther

type_synonym fileReader = "string \<Rightarrow> string \<times> read_err option"

definition readFileOrEmpty :: "fileReader \<Rightarrow> string \<Rightarrow> string" where
  "readFileOrEmpty read path =
     (case read path of (b, err) \<Rightarrow> if err \<noteq> None \<and> err \<noteq> Some ErrNotExist then [] else b)"

section \<open>Small helpers\<close>

definition wrapInt :: "int \<Rightarrow> int" where
  "wrapInt x = (x + 2 ^ 63) mod 2 ^ 64 - 2 ^ 63"

definition containsWord :: "string \<Rightarrow> string \<Rightarrow> bool" where
  "containsWord csv want \<longleftrightarrow> want \<in> set (splitOn (CHR '','') csv)"

definition roundDown1024 :: "u64 \<Rightarrow> u64" where
  "roundDown1024 v = v AND NOT 1023"

definition min64 :: "u64 \<Rightarrow> u64 \<Rightarrow> u64" where
  "min64 a b = (if a < b then a else b)"

definition clamp64 :: "u64 \<Rightarrow> u64 \<Rightarrow> u64 \<Rightarrow> u64" where
  "clamp64 v lo hi = (if v < lo then lo else if v > hi then hi else v)"

text \<open>The loop of \<open>floorPowerOfTwo\<close>; from 0 it would not end, which is the value \<open>None\<close>.\<close>

partial_function (option) floorLoop :: "u64 \<Rightarrow> u64 \<Rightarrow> u64 option" where
  "floorLoop v p = (if p \<le> v div 2 then floorLoop v (push_bit 1 p) else Some p)"

declare floorLoop.simps [code]

definition floorPowerOfTwo :: "u64 \<Rightarrow> u64 option" where
  "floorPowerOfTwo v = (if v = 0 then Some 0 else floorLoop v 1)"

section \<open>Parsing\<close>

definition meminfoLine :: "string \<Rightarrow> u64 \<times> u64 \<Rightarrow> u64 \<times> u64" where
  "meminfoLine line acc =
     (case acc of (tot, available) \<Rightarrow>
      case strFields line of
        f0 # f1 # _ \<Rightarrow>
          (let v = (of_int (fst (parseUint 64 f1)) :: u64); name = trimSuffix f0 '':'' in
           if name = ''MemTotal'' then (push_bit 10 v, available)
           else if name = ''MemAvailable'' then (tot, push_bit 10 v)
           else (tot, available))
      | _ \<Rightarrow> (tot, available))"

definition parseMeminfo :: "string \<Rightarrow> u64 \<times> u64" where
  "parseMeminfo b = fold meminfoLine (splitOn newline b) (0, 0)"

definition parseMemoryValue :: "string \<Rightarrow> u64 \<Rightarrow> u64" where
  "parseMemoryValue b hostTotal =
     (let s = trimSpace b in
      if s = [] \<or> s = ''max'' then 0
      else (case parseUint 64 s of
              (n, err) \<Rightarrow>
                (let v = (of_int n :: u64) in
                 if err \<noteq> None \<or> push_bit 60 1 \<le> v \<or> (0 < hostTotal \<and> hostTotal * 1024 < v) then 0
                 else v)))"

definition countPart :: "string \<Rightarrow> int \<Rightarrow> int" where
  "countPart part0 n =
     (let part = trimSpace part0 in
      if part = [] then n
      else (case cutOn (CHR ''-'') part of
              Some (lo, hi) \<Rightarrow>
                (case (atoi lo, atoi hi) of
                   ((a, e1), (b, e2)) \<Rightarrow>
                     if e1 = None \<and> e2 = None \<and> a \<le> b then wrapInt (n + wrapInt (wrapInt (b - a) + 1)) else n)
            | None \<Rightarrow> (if snd (atoi part) = None then wrapInt (n + 1) else n)))"

definition countCPUList :: "string \<Rightarrow> int" where
  "countCPUList s = fold countPart (splitOn (CHR '','') s) 0"

section \<open>Walking up the memory cgroups\<close>

fun findCgroup :: "string list \<Rightarrow> string \<times> string \<Rightarrow> string \<times> string" where
  "findCgroup [] (root, rel) = (root, rel)"
| "findCgroup (line # ls) (root, rel) =
     (case splitNOn (CHR '':'') 3 line of
        [p0, p1, p2] \<Rightarrow>
          (if p0 = ''0'' then (''/sys/fs/cgroup'', p2)
           else if containsWord p1 ''memory'' then findCgroup ls (''/sys/fs/cgroup/memory'', p2)
           else findCgroup ls (root, rel))
      | _ \<Rightarrow> findCgroup ls (root, rel))"

text \<open>One turn of the loop: limit, usage and the smallest headroom seen so far.\<close>

definition cgroupLevel :: "fileReader \<Rightarrow> u64 \<Rightarrow> string \<Rightarrow> string \<Rightarrow> u64 \<times> u64 \<times> u64 \<Rightarrow> u64 \<times> u64 \<times> u64" where
  "cgroupLevel read hostTotal root dir acc =
     (case acc of (limit, current, headroom) \<Rightarrow>
      let v1 = hasSuffix root ''/memory'';
          maxName = (if v1 then ''memory.limit_in_bytes'' else ''memory.max'');
          curName = (if v1 then ''memory.usage_in_bytes'' else ''memory.current'');
          mx = parseMemoryValue (readFileOrEmpty read (pathJoin [dir, maxName])) hostTotal;
          cur = parseMemoryValue (readFileOrEmpty read (pathJoin [dir, curName])) 0
      in if mx > 0 then
           (let lc = (if limit = 0 \<or> mx < limit then (mx, cur) else (limit, current));
                h = mx - cur
            in (fst lc, snd lc,
                if mx > cur \<and> (headroom = 0 \<or> h < headroom) then h else headroom))
         else (limit, current, headroom))"

fun weight :: "string list \<Rightarrow> nat" where
  "weight [] = 0"
| "weight (w # ws) = (if w = [] then 0 else Suc (length w)) + weight ws"

lemma weight_append [simp]: "weight (xs @ ys) = weight xs + weight ys"
  by (induction xs) auto

lemma weight_rev [simp]: "weight (rev xs) = weight xs"
  by (induction xs) auto

lemma length_joinWith: "[] \<notin> set ws \<Longrightarrow> length (joinWith [c] ws) = weight ws - 1"
proof (induction "[c]" ws rule: joinWith.induct)
  case (3 w v vs)
  then show ?case by (cases v) auto
qed auto

lemma splitOn_neq_Nil [simp]: "splitOn c s \<noteq> []"
  by (induction c s rule: splitOn.induct) (auto split: list.splits)

lemma weight_splitOn_hd:
  "weight (splitOn c s) + (if hd (splitOn c s) = [] then 1 else 0) \<le> Suc (length s)"
proof (induction s)
  case (Cons x xs)
  then show ?case by (cases "splitOn c xs") (auto split: if_splits)
qed simp

lemma weight_splitOn: "weight (splitOn c s) \<le> Suc (length s)"
  using weight_splitOn_hd [of c s] by simp

lemma splitOn_snoc: "splitOn c (s @ [c]) = splitOn c s @ [[]]"
  by (induction c s rule: splitOn.induct) (auto split: list.splits)

lemma weight_cleanParts: "weight (cleanParts r st ws) \<le> weight st + weight ws"
  by (induction r st ws rule: cleanParts.induct) (auto split: list.splits if_splits)

lemma cleanParts_nonempty: "[] \<notin> set st \<Longrightarrow> [] \<notin> set (cleanParts r st ws)"
proof (induction ws arbitrary: st)
  case (Cons w ws)
  then show ?case by (cases st; cases w) simp_all
qed simp

lemma cleanParts_snoc_empty: "cleanParts r st (ws @ [[]]) = cleanParts r st ws"
  by (induction r st ws rule: cleanParts.induct) (auto split: list.splits)

lemma length_pathClean: "p \<noteq> [] \<Longrightarrow> length (pathClean p) \<le> length p"
proof -
  assume p: "p \<noteq> []"
  define ws where "ws = cleanParts (hasPrefix p ''/'') [] (splitOn (CHR ''/'') p)"
  have l: "length (joinWith ''/'' ws) = weight ws - 1"
    unfolding ws_def by (rule length_joinWith) (rule cleanParts_nonempty, simp)
  have w: "weight ws \<le> weight (splitOn (CHR ''/'') p)"
    unfolding ws_def using weight_cleanParts [of _ "[]"] by simp
  show ?thesis
  proof (cases "hasPrefix p ''/''")
    case True
    then obtain q where q: "p = CHR ''/'' # q" by (cases p) (auto simp: hasPrefix_def)
    from w have "weight ws \<le> Suc (length q)" using weight_splitOn [of "CHR ''/''" q] q by simp
    then show ?thesis using True l q by (simp add: pathClean_def ws_def)
  next
    case False
    from w weight_splitOn [of "CHR ''/''" p] have "weight ws \<le> Suc (length p)" by simp
    then show ?thesis using False l p by (cases p) (auto simp: pathClean_def ws_def Let_def)
  qed
qed

lemma pathClean_snoc: "p \<noteq> [] \<Longrightarrow> pathClean (p @ ''/'') = pathClean p"
  by (cases p) (auto simp: pathClean_def hasPrefix_def splitOn_snoc cleanParts_snoc_empty
      simp flip: append_Cons)

lemma pathDir_cases: "pathDir d = ''.'' \<or> pathDir d = d \<or> length (pathDir d) < length d"
proof -
  define q where "q = rev (dropWhile (\<lambda>c. c \<noteq> CHR ''/'') (rev d))"
  have dir: "pathDir d = pathClean q" by (simp add: pathDir_def q_def)
  have le: "length q \<le> length d" unfolding q_def
    by (metis length_dropWhile_le length_rev)
  show ?thesis
  proof (cases "q = []")
    case True
    then show ?thesis using dir by (simp add: pathClean_def)
  next
    case False
    then have ne: "dropWhile (\<lambda>c. c \<noteq> CHR ''/'') (rev d) \<noteq> []" by (simp add: q_def)
    have "hd (dropWhile (\<lambda>c. c \<noteq> CHR ''/'') (rev d)) = CHR ''/''" using hd_dropWhile [OF ne] by simp
    then have "last q = CHR ''/''" by (simp add: q_def last_rev)
    then obtain p where p: "q = p @ ''/''" using False by (metis append_butlast_last_id)
    show ?thesis
    proof (cases "p = []")
      case True
      then have "pathDir d = ''/''" using dir p by (simp add: pathClean_def hasPrefix_def)
      moreover have "CHR ''/'' \<in> set d" using ne by (auto simp: dropWhile_eq_Nil_conv)
      then have "d = ''/'' \<or> 1 < length d" by (cases d rule: list.exhaust; cases "tl d") auto
      ultimately show ?thesis by auto
    next
      case False
      then have "length (pathDir d) \<le> length p" using dir p pathClean_snoc length_pathClean by simp
      then show ?thesis using p le by simp
    qed
  qed
qed

lemma pathDir_dot: "pathDir ''.'' = ''.''"
  by (simp add: pathDir_def pathClean_def)

text \<open>The walk ends since every parent is shorter, or is \<open>.\<close> which is its own parent.\<close>

function cgroupWalk :: "fileReader \<Rightarrow> u64 \<Rightarrow> string \<Rightarrow> string \<Rightarrow> u64 \<times> u64 \<times> u64 \<Rightarrow> u64 \<times> u64 \<times> u64" where
  "cgroupWalk read hostTotal root dir acc =
     (let acc' = cgroupLevel read hostTotal root dir acc; parent = pathDir dir in
      if dir = root then acc'
      else if parent = dir \<or> \<not> hasPrefix parent root then acc'
      else cgroupWalk read hostTotal root parent acc')"
  by pat_completeness auto
termination
proof (relation "measure (\<lambda>(read, t, root, dir, acc). if dir = ''.'' then 0 else Suc (length dir))")
  fix read t root dir acc acc' parent
  assume "parent = pathDir dir" "\<not> (parent = dir \<or> \<not> hasPrefix parent root)"
  then show "((read, t, root, parent, acc'), read, t, root, dir, acc)
      \<in> measure (\<lambda>(read, t, root, dir, acc). if dir = ''.'' then 0 else Suc (length dir))"
    using pathDir_cases [of dir] pathDir_dot by auto
qed simp

declare cgroupWalk.simps [simp del]

definition detectCgroupMemory :: "fileReader \<Rightarrow> u64 \<Rightarrow> u64 \<times> u64 \<times> u64" where
  "detectCgroupMemory read hostTotal =
     (let cgroup = readFileOrEmpty read ''/proc/self/cgroup'' in
      case findCgroup (splitOn newline cgroup) ([], []) of
        (root, rel) \<Rightarrow>
          (if root = [] then (0, 0, 0)
           else cgroupWalk read hostTotal root
                  (pathJoin [root, trimPrefix (pathClean rel) ''/'']) (0, 0, 0)))"

section \<open>Host resources and the recommendation\<close>

record HostResources =
  MemoryTotal :: u64
  MemoryAvailable :: u64
  EffectiveMemory :: u64
  MemoryHeadroom :: u64
  CgroupLimit :: u64
  CgroupCurrent :: u64
  PossibleCPUs :: int
  OnlineCPUs :: int
  LimitedByCgroup :: bool

definition detectHostResources :: "fileReader \<Rightarrow> HostResources" where
  "detectHostResources read =
     (case parseMeminfo (readFileOrEmpty read ''/proc/meminfo'') of
        (memTotal, memAvailable) \<Rightarrow>
      let possible0 = countCPUList (trimSpace (readFileOrEmpty read ''/sys/devices/system/cpu/possible''));
          online0 = countCPUList (trimSpace (readFileOrEmpty read ''/sys/devices/system/cpu/online''));
          possible1 = (if possible0 = 0 then online0 else possible0);
          possible = (if possible1 = 0 then 1 else possible1);
          online = (if online0 = 0 then possible else online0)
      in (case detectCgroupMemory read memTotal of
            (limit, current, cgroupHeadroom) \<Rightarrow>
          let limited = (limit > 0 \<and> (memTotal = 0 \<or> limit < memTotal));
              effective = (if limited then limit else memTotal);
              headroom0 = (if cgroupHeadroom > 0 \<and> (memAvailable = 0 \<or> cgroupHeadroom < memAvailable)
                           then cgroupHeadroom else memAvailable);
              headroom = (if headroom0 = 0 then effective else headroom0)
          in \<lparr>MemoryTotal = memTotal, MemoryAvailable = memAvailable, EffectiveMemory = effective,
              MemoryHeadroom = headroom, CgroupLimit = limit, CgroupCurrent = current,
              PossibleCPUs = possible, OnlineCPUs = online, LimitedByCgroup = limited\<rparr>))"

record ResourceRecommendation =
  RecFlowMax :: u32
  RecUDPFlowMax :: u32
  RecL1Size :: u32
  MapBudgetBytes :: u64
  EstimatedBytes :: u64
  L1Bytes :: u64
  FixedBytes :: u64

definition flowEntryEstimate :: u64 where "flowEntryEstimate = 128"
definition l1EntryBytes :: u64 where "l1EntryBytes = 24"
definition fixedMapBytes :: u64 where "fixedMapBytes = push_bit 20 10"
definition statsBytesPerCPU :: u64 where "statsBytesPerCPU = 98512"

definition recommendBudget :: "HostResources \<Rightarrow> u64 \<times> u64" where
  "recommendBudget r =
     (let effective = (if EffectiveMemory r = 0 then MemoryTotal r else EffectiveMemory r);
          headroom = (if MemoryHeadroom r = 0 then effective else MemoryHeadroom r);
          rawBudget = min64 (effective div 3) headroom
      in (effective, rawBudget * 4 div 5))"

text \<open>The stages of \<open>RecommendDedicated\<close>: the cap on the L1 slots and the split of the rest.\<close>

definition capSlots :: "u64 \<Rightarrow> u64" where
  "capSlots slots0 =
     (let slots1 = (if slots0 > push_bit 16 1 then push_bit 16 1 else slots0)
      in if slots1 < push_bit 12 1 then 0 else slots1)"

definition tcpShare :: "u64 \<Rightarrow> u64" where
  "tcpShare flowBudget =
     clamp64 (roundDown1024 (flowBudget * 4 div 5 div flowEntryEstimate)) 1024 (push_bit 26 1)"

definition udpShare :: "u64 \<Rightarrow> u64" where
  "udpShare flowBudget =
     clamp64 (roundDown1024 (flowBudget div 5 div flowEntryEstimate)) 1024 (push_bit 24 1)"

definition RecommendDedicated :: "HostResources \<Rightarrow> ResourceRecommendation option" where
  "RecommendDedicated r =
     (let p = (of_int (if PossibleCPUs r < 1 then 1 else PossibleCPUs r) :: u64);
          effective = fst (recommendBudget r);
          budget = snd (recommendBudget r);
          fixed = fixedMapBytes + statsBytesPerCPU * p;
          l1Budget = effective div 100
      in if l1EntryBytes * p = 0 then None
         else case floorPowerOfTwo (l1Budget div (l1EntryBytes * p)) of
           None \<Rightarrow> None
         | Some slots0 \<Rightarrow>
           (let l1Bytes0 = capSlots slots0 * l1EntryBytes * p;
                tooBig = (fixed + l1Bytes0 \<ge> budget);
                slots = (if tooBig then 0 else capSlots slots0);
                l1Bytes = (if tooBig then 0 else l1Bytes0);
                flowBudget = (if budget > fixed + l1Bytes then budget - fixed - l1Bytes else 0);
                tcpEntries = tcpShare flowBudget;
                udpEntries = udpShare flowBudget;
                estimated = fixed + l1Bytes + flowEntryEstimate * (tcpEntries + udpEntries)
            in Some \<lparr>RecFlowMax = ucast tcpEntries, RecUDPFlowMax = ucast udpEntries,
                     RecL1Size = ucast slots, MapBudgetBytes = budget, EstimatedBytes = estimated,
                     L1Bytes = l1Bytes, FixedBytes = fixed\<rparr>))"

section \<open>Lemmas\<close>

lemma unat_push_bit_1: "unat p \<le> unat v div 2 \<Longrightarrow> unat (push_bit 1 p) = 2 * unat p" for p v :: u64
proof -
  assume "unat p \<le> unat v div 2"
  moreover have "unat v < 2 ^ 64" using unat_u64_less [of v] by simp
  ultimately have "2 * unat p < 2 ^ 64" by simp
  then show ?thesis by (simp add: push_bit_eq_mult unat_word_ariths mult.commute)
qed

lemma floorLoop_terminates:
  assumes "unat p = 2 ^ k" "unat p \<le> unat v"
  shows "\<exists>r. floorLoop v p = Some r \<and> is_pow2 r \<and> r \<le> v \<and> v div 2 < r"
  using assms
proof (induction "unat v - unat p" arbitrary: p k rule: less_induct)
  case less
  show ?case
  proof (cases "p \<le> v div 2")
    case True
    then have le: "unat p \<le> unat v div 2" by (simp add: word_le_nat_alt unat_div)
    note u = unat_push_bit_1 [OF le]
    from less.prems have "0 < unat p" by simp
    with u le have "unat v - unat (push_bit 1 p) < unat v - unat p" by simp
    moreover have "unat (push_bit 1 p) = 2 ^ Suc k" using u less.prems by simp
    moreover have "unat (push_bit 1 p) \<le> unat v" using u le by simp
    ultimately have "\<exists>r. floorLoop v (push_bit 1 p) = Some r \<and> is_pow2 r \<and> r \<le> v \<and> v div 2 < r"
      by (rule less.hyps)
    with True show ?thesis by (simp add: floorLoop.simps [of v p])
  next
    case False
    then show ?thesis using less.prems(1) less.prems(2) [folded word_le_nat_alt]
      by (auto simp: floorLoop.simps [of v p] is_pow2_def not_le)
  qed
qed

lemma floorPowerOfTwo_Some:
  "\<exists>r. floorPowerOfTwo v = Some r \<and> (if v = 0 then r = 0 else is_pow2 r \<and> r \<le> v \<and> v div 2 < r)"
proof (cases "v = 0")
  case False
  then have "unat (1 :: u64) = 2 ^ 0" "unat (1 :: u64) \<le> unat v"
    by (simp_all add: word_neq_0_conv word_less_nat_alt Suc_le_eq)
  from floorLoop_terminates [OF this] False show ?thesis by (simp add: floorPowerOfTwo_def)
qed (simp add: floorPowerOfTwo_def)

lemma clamp64_bounds: "lo \<le> hi \<Longrightarrow> lo \<le> clamp64 v lo hi \<and> clamp64 v lo hi \<le> hi"
  by (auto simp: clamp64_def not_less)

lemma roundDown1024_le: "roundDown1024 v \<le> v"
  unfolding roundDown1024_def by (rule word_and_le2)


lemma unat_ucast_u32: "v \<le> 4294967295 \<Longrightarrow> unat (ucast v :: u32) = unat v" for v :: u64
  by (simp add: unsigned_ucast_eq word_le_nat_alt take_bit_nat_eq_self)

lemma cpu_factor_nonzero:
  assumes "p < 2 ^ 32"
  shows "l1EntryBytes * (of_int (if p < 1 then 1 else p) :: u64) \<noteq> 0"
proof -
  define q where "q = (if p < 1 then 1 else p)"
  have q: "0 < q" "q < 2 ^ 32" using assms by (auto simp: q_def)
  have "l1EntryBytes * (of_int q :: u64) = of_int (24 * q)" by (simp add: l1EntryBytes_def)
  moreover have "uint (of_int (24 * q) :: u64) = 24 * q"
    using q by (simp only: uint_word_of_int_eq) (simp add: take_bit_int_eq_self)
  ultimately have "uint (l1EntryBytes * (of_int q :: u64)) \<noteq> 0" using q by simp
  then show ?thesis unfolding q_def by auto
qed

lemma capSlots_cases:
  assumes "s = 0 \<or> is_pow2 s"
  shows "capSlots s = 0 \<or> is_pow2 (ucast (capSlots s) :: u32) \<and> 4096 \<le> capSlots s \<and> capSlots s \<le> 65536"
proof -
  have big: "capSlots s = 0 \<or> 4096 \<le> capSlots s \<and> capSlots s \<le> 65536 \<and> (capSlots s = 65536 \<or> capSlots s = s)"
    by (auto simp: capSlots_def Let_def not_less)
  have "is_pow2 (65536 :: u64)" by (simp add: is_pow2_code)
  with assms big have "capSlots s = 0 \<or> is_pow2 (capSlots s) \<and> 4096 \<le> capSlots s \<and> capSlots s \<le> 65536"
    by auto
  then show ?thesis using unat_ucast_u32 [of "capSlots s"]
    by (auto simp: is_pow2_def dest: order_trans [of _ 65536 4294967295])
qed

lemma tcpShare_bounds: "1024 \<le> tcpShare b" "tcpShare b \<le> 67108864"
  using clamp64_bounds [of 1024 67108864] by (simp_all add: tcpShare_def)

lemma udpShare_bounds: "1024 \<le> udpShare b" "udpShare b \<le> 16777216"
  using clamp64_bounds [of 1024 16777216] by (simp_all add: udpShare_def)

lemma ucast_u32_mono: "a \<le> b \<Longrightarrow> b \<le> 4294967295 \<Longrightarrow> (ucast a :: u32) \<le> ucast b" for a b :: u64
  using unat_ucast_u32 [of a] unat_ucast_u32 [of b] by (simp add: word_le_nat_alt)

lemma RecommendDedicated_Some:
  assumes "PossibleCPUs r < 2 ^ 32"
  shows "\<exists>rec. RecommendDedicated r = Some rec \<and>
     1024 \<le> RecFlowMax rec \<and> RecFlowMax rec \<le> 67108864 \<and>
     1024 \<le> RecUDPFlowMax rec \<and> RecUDPFlowMax rec \<le> 16777216 \<and>
     (RecL1Size rec = 0 \<or> 4096 \<le> RecL1Size rec \<and> RecL1Size rec \<le> 65536 \<and> is_pow2 (RecL1Size rec))"
proof -
  obtain s where s: "floorPowerOfTwo (fst (recommendBudget r) div 100 div
       (l1EntryBytes * of_int (if PossibleCPUs r < 1 then 1 else PossibleCPUs r))) = Some s" "s = 0 \<or> is_pow2 s"
    using floorPowerOfTwo_Some by metis
  have t: "1024 \<le> (ucast (tcpShare b) :: u32)" "(ucast (tcpShare b) :: u32) \<le> 67108864" for b
    using ucast_u32_mono [of 1024 "tcpShare b"] ucast_u32_mono [of "tcpShare b" 67108864] tcpShare_bounds [of b]
    by (auto dest: order_trans [of _ 67108864 4294967295])
  have u: "1024 \<le> (ucast (udpShare b) :: u32)" "(ucast (udpShare b) :: u32) \<le> 16777216" for b
    using ucast_u32_mono [of 1024 "udpShare b"] ucast_u32_mono [of "udpShare b" 16777216] udpShare_bounds [of b]
    by (auto dest: order_trans [of _ 16777216 4294967295])
  have l: "capSlots s \<noteq> 0 \<Longrightarrow> 4096 \<le> (ucast (capSlots s) :: u32) \<and> (ucast (capSlots s) :: u32) \<le> 65536 \<and>
      is_pow2 (ucast (capSlots s) :: u32)"
    using capSlots_cases [OF s(2)] ucast_u32_mono [of 4096 "capSlots s"] ucast_u32_mono [of "capSlots s" 65536]
    by (auto dest: order_trans [of _ 65536 4294967295])
  show ?thesis
    using cpu_factor_nonzero [OF assms] s(1) t u l
    by (cases "capSlots s = 0") (simp_all add: RecommendDedicated_def Let_def)
qed

lemma clamp64_le: "lo \<le> v \<Longrightarrow> clamp64 v lo hi \<le> v"
  by (auto simp: clamp64_def not_less)

lemma unat_roundDown1024: "unat (roundDown1024 v) = unat v div 1024 * 1024"
proof -
  have m: "(1023 :: u64) = mask 10" by (simp add: mask_eq_exp_minus_1)
  have "roundDown1024 v = push_bit 10 (drop_bit 10 v)"
    unfolding roundDown1024_def m by (rule bit_word_eqI) (auto simp: bit_simps)
  moreover have "unat v div 1024 * 1024 < 2 ^ 64" using unat_u64_less [of v] by simp
  ultimately show ?thesis
    by (simp add: push_bit_eq_mult unat_word_ariths unat_drop_bit_eq drop_bit_eq_div mult.commute)
qed

lemma recommendBudget_le:
  "15 * unat (snd (recommendBudget r)) \<le> 4 * unat (fst (recommendBudget r))"
proof -
  obtain e h where r: "recommendBudget r = (e, min64 (e div 3) h * 4 div 5)"
    by (simp add: recommendBudget_def Let_def)
  have "unat (min64 (e div 3) h) \<le> unat e div 3"
    by (auto simp: min64_def unat_div word_less_nat_alt split: if_splits)
  moreover have "unat (min64 (e div 3) h * 4) \<le> unat (min64 (e div 3) h) * 4"
    using unat_mult_le [of "min64 (e div 3) h" 4] by simp
  ultimately show ?thesis unfolding r by (simp add: unat_div)
qed

lemma recommendBudget_fifth: "5 * unat (snd (recommendBudget r)) < 2 ^ 64"
proof -
  obtain x where "snd (recommendBudget r) = x div 5" by (simp add: recommendBudget_def Let_def)
  then show ?thesis using unat_u64_less [of x] by (simp add: unat_div)
qed

lemma share_le:
  assumes "1024 * 128 \<le> unat x" "1024 \<le> hi"
  shows "128 * unat (clamp64 (roundDown1024 (x div flowEntryEstimate)) 1024 hi) \<le> unat x"
proof -
  let ?v = "roundDown1024 (x div flowEntryEstimate)"
  have v: "unat ?v = unat x div 128 div 1024 * 1024"
    by (simp add: unat_roundDown1024 flowEntryEstimate_def unat_div)
  with assms have "1024 \<le> ?v" by (simp add: word_le_nat_alt)
  then have "unat (clamp64 ?v 1024 hi) \<le> unat ?v" using clamp64_le by (simp add: word_le_nat_alt)
  also have "128 * unat ?v \<le> unat x" unfolding v by simp
  finally show ?thesis by simp
qed

lemma shares_within:
  assumes "655360 \<le> unat f" "4 * unat f < 2 ^ 64"
  shows "128 * (unat (tcpShare f) + unat (udpShare f)) \<le> unat f"
proof -
  have x: "unat (f * 4) = unat f * 4" using assms by (simp add: unat_word_ariths)
  have "128 * unat (tcpShare f) \<le> unat f * 4 div 5"
    unfolding tcpShare_def using share_le [of "f * 4 div 5"] assms by (simp add: unat_div x)
  moreover have "128 * unat (udpShare f) \<le> unat f div 5"
    unfolding udpShare_def using share_le [of "f div 5"] assms by (simp add: unat_div)
  ultimately show ?thesis by simp
qed

text \<open>The three fields that \<open>EstimatedBytes\<close> adds up, and the budget that bounds it.\<close>

lemma RecommendDedicated_sel:
  assumes "RecommendDedicated r = Some rec"
    and "unat (FixedBytes rec) + unat (L1Bytes rec) < unat (MapBudgetBytes rec)"
  obtains f where "unat f = unat (MapBudgetBytes rec) - (unat (FixedBytes rec) + unat (L1Bytes rec))"
    and "EstimatedBytes rec = FixedBytes rec + L1Bytes rec + 128 * (tcpShare f + udpShare f)"
    and "MapBudgetBytes rec = snd (recommendBudget r)"
proof -
  let ?x = "FixedBytes rec" and ?l = "L1Bytes rec" and ?b = "MapBudgetBytes rec"
  let ?f = "if ?x + ?l < ?b then ?b - ?x - ?l else 0"
  have s: "unat (?x + ?l) = unat ?x + unat ?l"
    using assms(2) unat_u64_less [of "MapBudgetBytes rec"] by (intro unat_add_no_wrap) simp
  have "unat (?b - (?x + ?l)) = unat ?b - unat (?x + ?l)"
    using assms(2) s by (intro unat_sub) (simp add: word_le_nat_alt)
  then have "unat ?f = unat ?b - (unat ?x + unat ?l)"
    using assms(2) s by (simp add: word_less_nat_alt diff_diff_eq)
  moreover have "EstimatedBytes rec = ?x + ?l + 128 * (tcpShare ?f + udpShare ?f)"
    using assms(1)
    by (simp add: RecommendDedicated_def Let_def flowEntryEstimate_def split: option.splits if_split_asm)
       (auto simp: not_le)
  moreover have "?b = snd (recommendBudget r)"
    using assms(1) by (auto simp: RecommendDedicated_def Let_def split: option.splits if_split_asm)
  ultimately show ?thesis by (rule that)
qed

lemma RecommendDedicated_budget:
  assumes "RecommendDedicated r = Some rec"
    and "unat (FixedBytes rec) + unat (L1Bytes rec) + 655360 \<le> unat (MapBudgetBytes rec)"
  shows "EstimatedBytes rec \<le> MapBudgetBytes rec"
proof -
  from assms(2) have "unat (FixedBytes rec) + unat (L1Bytes rec) < unat (MapBudgetBytes rec)" by simp
  from RecommendDedicated_sel [OF assms(1) this] obtain f where
    f: "unat f = unat (MapBudgetBytes rec) - (unat (FixedBytes rec) + unat (L1Bytes rec))"
    and e: "EstimatedBytes rec = FixedBytes rec + L1Bytes rec + 128 * (tcpShare f + udpShare f)"
    and b: "MapBudgetBytes rec = snd (recommendBudget r)" .
  have "5 * unat (MapBudgetBytes rec) < 2 ^ 64"
    unfolding b by (rule recommendBudget_fifth)
  then have w: "128 * (unat (tcpShare f) + unat (udpShare f)) \<le> unat f"
    using f assms(2) by (intro shares_within) simp_all
  have "unat (128 * (tcpShare f + udpShare f)) \<le> 128 * (unat (tcpShare f) + unat (udpShare f))"
    using unat_mult_le [of 128 "tcpShare f + udpShare f"] unat_word_ariths(1) [of "tcpShare f" "udpShare f"]
    by (simp add: mod_less_eq_dividend order_trans)
  moreover have "unat (EstimatedBytes rec) \<le>
      unat (FixedBytes rec) + unat (L1Bytes rec) + unat (128 * (tcpShare f + udpShare f))"
    unfolding e by (simp add: unat_word_ariths)
  ultimately show ?thesis using w f assms(2) by (simp add: word_le_nat_alt)
qed

section \<open>Properties of the probe and the recommendation\<close>

text \<open>\<open>floorPowerOfTwo\<close> terminates on every 64-bit value and returns the largest power
  of two that does not exceed it (0 for 0), without overflowing on the way.\<close>

theorem floorPowerOfTwo_correct:
  "\<exists>p. floorPowerOfTwo v = Some p \<and>
     (if v = 0 then p = 0 else is_pow2 p \<and> p \<le> v \<and> v div 2 < p)"
  by (rule floorPowerOfTwo_Some)

text \<open>on every host with fewer than 2^32 possible CPUs the recommendation is produced
  without a panic, and putting it into a valid configuration, which is what the wizard
  and the service console do, gives a valid configuration again.\<close>

theorem RecommendDedicated_valid:
  assumes "PossibleCPUs r < 2 ^ 32" and "wf_config c"
  shows "\<exists>rec. RecommendDedicated r = Some rec \<and>
     wf_config (c\<lparr>FlowMax := RecFlowMax rec, UDPFlowMax := RecUDPFlowMax rec, L1Size := RecL1Size rec\<rparr>)"
proof -
  from RecommendDedicated_Some [OF assms(1)] obtain rec where r: "RecommendDedicated r = Some rec"
    and b: "1024 \<le> RecFlowMax rec" "1024 \<le> RecUDPFlowMax rec"
      "RecL1Size rec = 0 \<or> 4096 \<le> RecL1Size rec \<and> is_pow2 (RecL1Size rec)" by blast
  from b(3) have "RecL1Size rec = 0 \<or> 1024 \<le> RecL1Size rec \<and> is_pow2 (RecL1Size rec)"
    using order_trans [of 1024 4096 "RecL1Size rec"] by auto
  with assms(2) b(1,2) have
    "wf_config (c\<lparr>FlowMax := RecFlowMax rec, UDPFlowMax := RecUDPFlowMax rec, L1Size := RecL1Size rec\<rparr>)"
    by (simp add: wf_config_def)
  with r show ?thesis by blast
qed

definition sample_host :: HostResources where
  "sample_host = \<lparr>MemoryTotal = 8589934592, MemoryAvailable = 6442450944, EffectiveMemory = 8589934592,
     MemoryHeadroom = 6442450944, CgroupLimit = 0, CgroupCurrent = 0, PossibleCPUs = 4, OnlineCPUs = 4,
     LimitedByCgroup = False\<rparr>"

theorem RecommendDedicated_valid_witness:
  "\<exists>rec. RecommendDedicated sample_host = Some rec \<and>
     wf_config (Default\<lparr>TrustedIface := ''a'', UntrustedIface := ''b'', FlowMax := RecFlowMax rec,
       UDPFlowMax := RecUDPFlowMax rec, L1Size := RecL1Size rec\<rparr>)"
  using RecommendDedicated_valid [of sample_host "Default\<lparr>TrustedIface := ''a'', UntrustedIface := ''b''\<rparr>"]
    Default_valid [of "''a''" "''b''"] by (simp add: sample_host_def)

text \<open>the recommendation keeps to its budget: the budget is at most four fifteenths of
  the effective memory (a third, less a fifth), and whenever it leaves room for the
  smallest useful flow tables the estimate does not exceed it.\<close>

theorem RecommendDedicated_within_budget:
  assumes "RecommendDedicated r = Some rec"
    and "unat (FixedBytes rec) + unat (L1Bytes rec) + 655360 \<le> unat (MapBudgetBytes rec)"
  shows "EstimatedBytes rec \<le> MapBudgetBytes rec \<and>
     15 * unat (MapBudgetBytes rec) \<le> 4 * unat (fst (recommendBudget r))"
proof -
  have "unat (FixedBytes rec) + unat (L1Bytes rec) < unat (MapBudgetBytes rec)" using assms(2) by simp
  from RecommendDedicated_sel [OF assms(1) this] have "MapBudgetBytes rec = snd (recommendBudget r)" by blast
  then show ?thesis using RecommendDedicated_budget [OF assms] recommendBudget_le by simp
qed

theorem RecommendDedicated_within_budget_witness:
  "\<exists>rec. RecommendDedicated sample_host = Some rec \<and> EstimatedBytes rec \<le> MapBudgetBytes rec"
proof -
  have "case RecommendDedicated sample_host of None \<Rightarrow> False
      | Some rec \<Rightarrow> uint (FixedBytes rec) + uint (L1Bytes rec) + 655360 \<le> uint (MapBudgetBytes rec)"
    by code_simp
  then obtain rec where r: "RecommendDedicated sample_host = Some rec"
    and b: "uint (FixedBytes rec) + uint (L1Bytes rec) + 655360 \<le> uint (MapBudgetBytes rec)"
    by (auto split: option.splits)
  from b have "int (unat (FixedBytes rec) + unat (L1Bytes rec) + 655360) \<le> int (unat (MapBudgetBytes rec))"
    by simp
  then have "unat (FixedBytes rec) + unat (L1Bytes rec) + 655360 \<le> unat (MapBudgetBytes rec)"
    by (simp only: of_nat_le_iff)
  from RecommendDedicated_within_budget [OF r this] r show ?thesis by blast
qed

text \<open>what the probe reports is consistent for every content of the probed files: there
  is a possible and an online CPU, the effective memory never exceeds a known total,
  and a cgroup that limits it is named by the limit.\<close>

theorem detectHostResources_consistent:
  "let h = detectHostResources read in
     PossibleCPUs h \<noteq> 0 \<and> OnlineCPUs h \<noteq> 0 \<and>
     (if LimitedByCgroup h then EffectiveMemory h = CgroupLimit h \<and> 0 < CgroupLimit h
      else EffectiveMemory h = MemoryTotal h) \<and>
     (MemoryTotal h = 0 \<or> EffectiveMemory h \<le> MemoryTotal h) \<and>
     (MemoryHeadroom h = 0 \<or> MemoryAvailable h = 0 \<or> MemoryHeadroom h \<le> MemoryAvailable h)"
proof -
  obtain m a where m: "parseMeminfo (readFileOrEmpty read ''/proc/meminfo'') = (m, a)" by fastforce
  obtain l c h where l: "detectCgroupMemory read m = (l, c, h)" by (rule prod_cases3)
  show ?thesis
    unfolding detectHostResources_def Let_def m l prod.case HostResources.simps
    by (intro conjI) (simp_all add: word_neq_0_conv, auto)
qed

end
