(* ===== verification/Kmap.thy ===== *)
theory Kmap
  imports Xdp_Prelude "HOL-Library.AList"
begin

text \<open>
  The BPF maps of \<open>bpf/filter.bpf.c\<close> as association lists with distinct keys, so that a
  map can be looked up, updated in place and iterated. The kernel decides what a map
  update does beyond the map contract: a bounded hash refuses a new key when it is full,
  an LRU hash may fail or evict other entries, and the outcome of each such call is an
  argument of the operation. The locale \<open>bounded_map\<close> is the interface the control plane
  uses; it carries the reconciliation of a map with a wanted set of keys.
\<close>

type_synonym ('k, 'v) kmap = "('k \<times> 'v) list"

section \<open>Operations\<close>

abbreviation kget :: "('k, 'v) kmap \<Rightarrow> 'k \<Rightarrow> 'v option" where
  "kget \<equiv> map_of"

definition kset :: "'k \<Rightarrow> 'v \<Rightarrow> ('k, 'v) kmap \<Rightarrow> ('k, 'v) kmap" where
  "kset k v m = AList.update k v m"

definition kdel :: "'k \<Rightarrow> ('k, 'v) kmap \<Rightarrow> ('k, 'v) kmap" where
  "kdel k m = AList.delete k m"

definition kkeys :: "('k, 'v) kmap \<Rightarrow> 'k list" where
  "kkeys m = map fst m"

text \<open>
  \<open>bpf_map_update_elem\<close> on a hash with \<open>cap\<close> entries (\<open>None\<close>: E2BIG), and on an LRU
  hash, where the kernel fails or evicts some entries to make room.
\<close>

definition hash_put :: "nat \<Rightarrow> 'k \<Rightarrow> 'v \<Rightarrow> ('k, 'v) kmap \<Rightarrow> ('k, 'v) kmap option" where
  "hash_put cap k v m =
     (if kget m k = None \<and> cap \<le> length m then None else Some (kset k v m))"

datatype 'k lru_outcome = LruFail | LruOk "'k list"

definition kevict :: "'k list \<Rightarrow> ('k, 'v) kmap \<Rightarrow> ('k, 'v) kmap" where
  "kevict ks m = filter (\<lambda>e. fst e \<notin> set ks) m"

fun lru_put :: "'k lru_outcome \<Rightarrow> 'k \<Rightarrow> 'v \<Rightarrow> ('k, 'v) kmap \<Rightarrow> ('k, 'v) kmap option" where
  "lru_put LruFail k v m = None"
| "lru_put (LruOk ev) k v m = Some (kset k v (kevict ev m))"

section \<open>Laws\<close>

definition kmap_inv :: "('k, 'v) kmap \<Rightarrow> bool" where
  "kmap_inv m \<longleftrightarrow> distinct (map fst m)"

lemma kget_kset [simp]: "kget (kset k v m) k' = (if k' = k then Some v else kget m k')"
  by (simp add: kset_def update_conv)

lemma kget_kdel [simp]: "kget (kdel k m) k' = (if k' = k then None else kget m k')"
  by (simp add: kdel_def delete_conv)

lemma kget_kevict [simp]: "kget (kevict ks m) k = (if k \<in> set ks then None else kget m k)"
  by (induction m) (auto simp: kevict_def)

lemma kmap_inv_kset [simp]: "kmap_inv m \<Longrightarrow> kmap_inv (kset k v m)"
  by (simp add: kmap_inv_def kset_def distinct_update)

lemma kmap_inv_kdel [simp]: "kmap_inv m \<Longrightarrow> kmap_inv (kdel k m)"
  unfolding kmap_inv_def kdel_def by (rule distinct_delete)

lemma kmap_inv_kevict [simp]: "kmap_inv m \<Longrightarrow> kmap_inv (kevict ks m)"
  by (induction m) (auto simp: kmap_inv_def kevict_def)

lemma set_kkeys: "set (kkeys m) = dom (kget m)"
  by (simp add: kkeys_def dom_map_of_conv_image_fst)

lemma lru_put_kget:
  "lru_put r k v m = Some m' \<Longrightarrow> kget m' k' = Some w \<Longrightarrow> k' \<noteq> k \<Longrightarrow> kget m k' = Some w"
  by (cases r) (auto split: if_splits)

lemma lru_put_same: "lru_put r k v m = Some m' \<Longrightarrow> kget m' k = Some v"
  by (cases r) auto

lemma lru_put_inv: "lru_put r k v m = Some m' \<Longrightarrow> kmap_inv m \<Longrightarrow> kmap_inv m'"
  by (cases r) auto

lemma lru_put_dom: "lru_put r k v m = Some m' \<Longrightarrow> dom (kget m') \<subseteq> insert k (dom (kget m))"
  using lru_put_kget by fastforce

lemma hash_put_dom: "hash_put cap k v m = Some m' \<Longrightarrow> kget m' = (kget m)(k \<mapsto> v)"
  by (auto simp: hash_put_def split: if_splits)

lemma hash_put_inv: "hash_put cap k v m = Some m' \<Longrightarrow> kmap_inv m \<Longrightarrow> kmap_inv m'"
  by (auto simp: hash_put_def split: if_splits)

lemma length_kset: "length (kset k v m) = (if k \<in> dom (kget m) then length m else Suc (length m))"
  by (induction m) (auto simp: kset_def)

lemma length_kmap_inv: "kmap_inv m \<Longrightarrow> length m = card (dom (kget m))"
  by (metis distinct_card kkeys_def kmap_inv_def length_map set_kkeys)

lemma hash_put_None_iff:
  "kmap_inv m \<Longrightarrow> hash_put cap k v m = None \<longleftrightarrow> k \<notin> dom (kget m) \<and> cap \<le> card (dom (kget m))"
  by (auto simp: hash_put_def length_kmap_inv)

section \<open>The interface of the control plane\<close>

text \<open>
  Deletions and insertions are issued one by one and stop at the first error. \<open>run_ops\<close>
  returns the operation that failed and every map content that was visible on the way,
  which is what the data path sees while the control plane is at work.
\<close>

datatype 'k map_op = MapDel 'k | MapPut 'k

fun run_ops :: "('k map_op \<Rightarrow> 'm \<Rightarrow> 'm option) \<Rightarrow> 'k map_op list \<Rightarrow> 'm \<Rightarrow> 'k map_op option \<times> 'm list" where
  "run_ops f [] m = (None, [m])"
| "run_ops f (x # xs) m =
     (case f x m of
        None \<Rightarrow> (Some x, [m])
      | Some m' \<Rightarrow> (case run_ops f xs m' of (e, ms) \<Rightarrow> (e, m # ms)))"

text \<open>
  One system call on a map: \<open>ok\<close> says whether the kernel lets it pass, \<open>put\<close> and \<open>del\<close>
  what it then does.
\<close>

fun map_call :: "('k \<Rightarrow> 'v \<Rightarrow> 'm \<Rightarrow> 'm option) \<Rightarrow> ('k \<Rightarrow> 'm \<Rightarrow> 'm) \<Rightarrow> 'v \<Rightarrow> ('k map_op \<Rightarrow> bool)
    \<Rightarrow> 'k map_op \<Rightarrow> 'm \<Rightarrow> 'm option" where
  "map_call put del v ok (MapDel k) m = (if ok (MapDel k) then Some (del k m) else None)"
| "map_call put del v ok (MapPut k) m = (if ok (MapPut k) then put k v m else None)"

definition reconcile :: "('k \<Rightarrow> 'v \<Rightarrow> 'm \<Rightarrow> 'm option) \<Rightarrow> ('k \<Rightarrow> 'm \<Rightarrow> 'm) \<Rightarrow> ('m \<Rightarrow> 'k list) \<Rightarrow> 'v
    \<Rightarrow> ('k map_op \<Rightarrow> bool) \<Rightarrow> 'k list \<Rightarrow> 'm \<Rightarrow> 'k map_op option \<times> 'm list" where
  "reconcile put del keys v ok desired m =
     run_ops (map_call put del v ok)
       (map MapDel (filter (\<lambda>k. k \<notin> set desired) (keys m)) @ map MapPut desired) m"

locale bounded_map =
  fixes get :: "'m \<Rightarrow> 'k \<Rightarrow> 'v option"
    and put :: "'k \<Rightarrow> 'v \<Rightarrow> 'm \<Rightarrow> 'm option"
    and del :: "'k \<Rightarrow> 'm \<Rightarrow> 'm"
    and keys :: "'m \<Rightarrow> 'k list"
    and inv :: "'m \<Rightarrow> bool"
    and cap :: nat
  assumes get_put: "inv m \<Longrightarrow> put k v m = Some m' \<Longrightarrow> get m' = (get m)(k \<mapsto> v)"
    and get_del: "inv m \<Longrightarrow> get (del k m) = (get m)(k := None)"
    and set_keys: "inv m \<Longrightarrow> set (keys m) = dom (get m)"
    and put_fails: "inv m \<Longrightarrow> put k v m = None \<Longrightarrow> k \<notin> dom (get m) \<and> cap \<le> card (dom (get m))"
    and inv_put: "inv m \<Longrightarrow> put k v m = Some m' \<Longrightarrow> inv m'"
    and inv_del: "inv m \<Longrightarrow> inv (del k m)"
begin

lemma finite_dom: "inv m \<Longrightarrow> finite (dom (get m))"
  using set_keys by (metis List.finite_set)

lemma dom_del: "inv m \<Longrightarrow> dom (get (del k m)) = dom (get m) - {k}"
  by (simp add: get_del)

lemma dom_put: "inv m \<Longrightarrow> put k v m = Some m' \<Longrightarrow> dom (get m') = insert k (dom (get m))"
  by (simp add: get_put)

text \<open>Every content on the way stays between what is kept and what is added.\<close>

lemma run_ops_between:
  assumes "inv m" "run_ops (map_call put del v ok) ops m = (e, ms)"
    and "\<And>k. MapDel k \<in> set ops \<Longrightarrow> k \<notin> D" "\<And>k. MapPut k \<in> set ops \<Longrightarrow> k \<in> D"
  shows "\<forall>m' \<in> set ms. inv m' \<and> dom (get m) \<inter> D \<subseteq> dom (get m') \<and> dom (get m') \<subseteq> dom (get m) \<union> D"
  using assms
proof (induction ops arbitrary: m e ms)
  case (Cons x xs)
  show ?case
  proof (cases "map_call put del v ok x m")
    case None
    with Cons.prems show ?thesis by auto
  next
    case (Some m1)
    obtain e1 ms1 where r: "run_ops (map_call put del v ok) xs m1 = (e1, ms1)" by fastforce
    have "inv m1 \<and> dom (get m) \<inter> D \<subseteq> dom (get m1) \<and> dom (get m1) \<subseteq> dom (get m) \<union> D"
    proof (cases x)
      case (MapDel k)
      then have "m1 = del k m" "k \<notin> D" using Some Cons.prems(3) by (auto split: if_splits)
      then show ?thesis using Cons.prems(1) by (simp add: inv_del dom_del) blast
    next
      case (MapPut k)
      then have "put k v m = Some m1" "k \<in> D" using Some Cons.prems(4) by (auto split: if_splits)
      then show ?thesis using Cons.prems(1) by (simp add: inv_put dom_put) blast
    qed
    then have i: "inv m1" and lo: "dom (get m) \<inter> D \<subseteq> dom (get m1)" and hi: "dom (get m1) \<subseteq> dom (get m) \<union> D"
      by simp_all
    have "\<forall>m' \<in> set ms1. inv m' \<and> dom (get m1) \<inter> D \<subseteq> dom (get m') \<and> dom (get m') \<subseteq> dom (get m1) \<union> D"
      using Cons.IH [OF i r] Cons.prems(3,4) by simp
    moreover have "ms = m # ms1" using Cons.prems(2) Some r by simp
    ultimately show ?thesis using lo hi Cons.prems(1) by (simp only: list.set ball_simps) blast
  qed
qed auto

lemma run_ops_nonempty: "run_ops f ops m = (e, ms) \<Longrightarrow> ms \<noteq> []"
  by (induction ops arbitrary: m e ms) (auto split: option.splits prod.splits)

lemma run_ops_append:
  "run_ops f (xs @ ys) m = (case run_ops f xs m of
     (Some e, ms) \<Rightarrow> (Some e, ms)
   | (None, ms) \<Rightarrow> (case run_ops f ys (last ms) of (e, ns) \<Rightarrow> (e, butlast ms @ ns)))"
proof (induction xs arbitrary: m)
  case (Cons x xs)
  show ?case
  proof (cases "f x m")
    case (Some m1)
    obtain e1 ms1 where r: "run_ops f xs m1 = (e1, ms1)" by fastforce
    have "ms1 \<noteq> []" using run_ops_nonempty [OF r] .
    then show ?thesis using Some r Cons.IH [of m1]
      by (cases e1) (auto split: prod.splits)
  qed simp
qed (simp split: prod.split)

lemma run_dels:
  assumes "inv m" "run_ops (map_call put del v ok) (map MapDel ks) m = (None, ms)"
  shows "inv (last ms) \<and> dom (get (last ms)) = dom (get m) - set ks"
  using assms
proof (induction ks arbitrary: m ms)
  case (Cons k ks)
  from Cons.prems obtain ms1 where r: "run_ops (map_call put del v ok) (map MapDel ks) (del k m) = (None, ms1)"
    and ms: "ms = m # ms1" by (auto split: if_splits prod.splits)
  from Cons.IH [OF inv_del [OF Cons.prems(1)] r] run_ops_nonempty [OF r] show ?case
    using Cons.prems(1) by (simp add: ms dom_del) blast
qed auto

lemma run_puts:
  assumes "inv m" "run_ops (map_call put del v ok) (map MapPut ks) m = (None, ms)"
  shows "inv (last ms) \<and> dom (get (last ms)) = dom (get m) \<union> set ks"
  using assms
proof (induction ks arbitrary: m ms)
  case (Cons k ks)
  from Cons.prems obtain m1 ms1 where p: "put k v m = Some m1"
    and r: "run_ops (map_call put del v ok) (map MapPut ks) m1 = (None, ms1)" and ms: "ms = m # ms1"
    by (auto split: if_splits prod.splits option.splits)
  from Cons.IH [OF inv_put [OF Cons.prems(1) p] r] run_ops_nonempty [OF r] show ?case
    using dom_put [OF Cons.prems(1) p] by (simp add: ms)
qed auto

text \<open>A successful reconciliation leaves exactly the wanted keys.\<close>

lemma reconcile_exact:
  assumes "inv m" "reconcile put del keys v ok desired m = (None, ms)"
  shows "inv (last ms) \<and> dom (get (last ms)) = set desired"
proof -
  let ?st = "filter (\<lambda>k. k \<notin> set desired) (keys m)"
  obtain e1 ms1 where d: "run_ops (map_call put del v ok) (map MapDel ?st) m = (e1, ms1)" by fastforce
  from assms(2) d have n: "e1 = None" by (cases e1) (auto simp: reconcile_def run_ops_append)
  note d1 = run_dels [OF assms(1) d [unfolded n]]
  obtain e2 ms2 where p: "run_ops (map_call put del v ok) (map MapPut desired) (last ms1) = (e2, ms2)" by fastforce
  from assms(2) d p n have e: "e2 = None" "ms = butlast ms1 @ ms2" by (auto simp: reconcile_def run_ops_append)
  note p1 = run_puts [OF d1 [THEN conjunct1] p [unfolded e(1)]]
  have "dom (get (last ms1)) \<subseteq> set desired" using d1 by (simp add: set_keys [OF assms(1)]) blast
  then show ?thesis using p1 e(2) run_ops_nonempty [OF p] by (simp add: Un_absorb1)
qed

text \<open>At every moment the keys wanted both before and after are present, and nothing else appears.\<close>

lemma reconcile_between:
  assumes "inv m" "reconcile put del keys v ok desired m = (e, ms)" "m' \<in> set ms"
  shows "dom (get m) \<inter> set desired \<subseteq> dom (get m') \<and> dom (get m') \<subseteq> dom (get m) \<union> set desired"
proof -
  have "\<forall>m' \<in> set ms. inv m' \<and> dom (get m) \<inter> set desired \<subseteq> dom (get m') \<and> dom (get m') \<subseteq> dom (get m) \<union> set desired"
    by (rule run_ops_between [OF assms(1) assms(2) [unfolded reconcile_def]]) auto
  then show ?thesis using assms(3) by blast
qed

text \<open>It succeeds when the kernel lets the calls pass and the wanted keys fit.\<close>

lemma run_dels_ok:
  "(\<And>k. ok (MapDel k)) \<Longrightarrow> fst (run_ops (map_call put del v ok) (map MapDel ks) m) = None"
proof (induction ks arbitrary: m)
  case (Cons k ks)
  then show ?case by (cases "run_ops (map_call put del v ok) (map MapDel ks) (del k m)") (metis (no_types, lifting)
    case_prod_conv fst_conv list.simps(9) map_call.simps(1) option.simps(5) run_ops.simps(2))
qed simp

lemma run_puts_ok:
  assumes "inv m" "\<And>k. ok (MapPut k)" "dom (get m) \<subseteq> D" "set ks \<subseteq> D" "finite D" "card D \<le> cap"
  shows "fst (run_ops (map_call put del v ok) (map MapPut ks) m) = None"
  using assms
proof (induction ks arbitrary: m)
  case (Cons k ks)
  have "put k v m \<noteq> None"
  proof
    assume "put k v m = None"
    from put_fails [OF Cons.prems(1) this] have k: "k \<notin> dom (get m)" "cap \<le> card (dom (get m))" by auto
    moreover have "dom (get m) \<subset> D" using Cons.prems(3,4) k(1) by auto
    from psubset_card_mono [OF Cons.prems(5) this] k(2) Cons.prems(6) show False by simp
  qed
  then obtain m1 where p: "put k v m = Some m1" by auto
  have "fst (run_ops (map_call put del v ok) (map MapPut ks) m1) = None"
    using Cons.prems p by (intro Cons.IH) (simp_all add: inv_put dom_put [OF Cons.prems(1) p])
  then show ?case using p Cons.prems(2)
    by (cases "run_ops (map_call put del v ok) (map MapPut ks) m1") simp
qed simp

lemma reconcile_succeeds:
  assumes "inv m" "\<And>x. ok x" "card (set desired) \<le> cap"
  shows "fst (reconcile put del keys v ok desired m) = None"
proof -
  let ?st = "filter (\<lambda>k. k \<notin> set desired) (keys m)"
  obtain ms1 where d: "run_ops (map_call put del v ok) (map MapDel ?st) m = (None, ms1)"
    using run_dels_ok [where ok = ok and v = v and ks = ?st and m = m] assms(2)
    by (cases "run_ops (map_call put del v ok) (map MapDel ?st) m") simp
  note d1 = run_dels [OF assms(1) d]
  have "dom (get (last ms1)) \<subseteq> set desired" using d1 by (simp add: set_keys [OF assms(1)]) blast
  then have "fst (run_ops (map_call put del v ok) (map MapPut desired) (last ms1)) = None"
    using d1 assms by (intro run_puts_ok [where D = "set desired"]) auto
  then show ?thesis
    by (cases "run_ops (map_call put del v ok) (map MapPut desired) (last ms1)") (simp add: reconcile_def run_ops_append d)
qed

end

interpretation hash_map: bounded_map kget "hash_put cap" kdel kkeys kmap_inv cap for cap
proof
  show "kget (kdel k m) = (kget m)(k := None)" for k and m :: "('a, 'b) kmap" by auto
qed (auto simp: hash_put_dom set_kkeys hash_put_None_iff hash_put_inv)

end
