(* ===== verification/Bpf_Filter.thy ===== *)
theory Bpf_Filter
  imports Kmap
begin

text \<open>
  The XDP data path of \<open>bpf/filter.h\<close> and \<open>bpf/filter.bpf.c\<close>: the types, the maps as
  one state record, every handler, and \<open>xdp_filter\<close> on the bytes of a frame. The
  program runs once per packet; a run of the data path is a sequence of packets on any
  CPU and either port, each processed atomically. What a run asks of the kernel (clock,
  random numbers, the outcome of inserting into an LRU map) is the record \<open>kenv\<close>.
  Words in the keys are kept as the program loads them (little-endian loads of network
  order fields), as the map layouts shared with the Go side require.
\<close>

section \<open>Memory\<close>

definition byteAt :: "bytes \<Rightarrow> nat \<Rightarrow> u8" where
  "byteAt fr i = (if i < length fr then fr ! i else 0)"

definition ld16 :: "bytes \<Rightarrow> nat \<Rightarrow> u16" where
  "ld16 fr i = ucast (byteAt fr i) OR push_bit 8 (ucast (byteAt fr (i + 1)))"

definition ld32 :: "bytes \<Rightarrow> nat \<Rightarrow> u32" where
  "ld32 fr i = ucast (byteAt fr i) OR push_bit 8 (ucast (byteAt fr (i + 1))) OR
     push_bit 16 (ucast (byteAt fr (i + 2))) OR push_bit 24 (ucast (byteAt fr (i + 3)))"

definition mem16 :: "u16 \<Rightarrow> bytes" where
  "mem16 x = [ucast x, ucast (drop_bit 8 x)]"

definition mem32 :: "u32 \<Rightarrow> bytes" where
  "mem32 x = [ucast x, ucast (drop_bit 8 x), ucast (drop_bit 16 x), ucast (drop_bit 24 x)]"

text \<open>\<open>bpf_ntohs\<close>/\<open>bpf_htons\<close> and \<open>bpf_ntohl\<close>/\<open>bpf_htonl\<close> on a little-endian machine.\<close>

definition swap16 :: "u16 \<Rightarrow> u16" where
  "swap16 x = push_bit 8 x OR drop_bit 8 x"

definition swap32 :: "u32 \<Rightarrow> u32" where
  "swap32 x = push_bit 24 x OR push_bit 8 (x AND 0xFF00) OR
     drop_bit 8 (x AND 0xFF0000) OR drop_bit 24 x"

definition patch :: "nat \<Rightarrow> bytes \<Rightarrow> bytes \<Rightarrow> bytes" where
  "patch off bs fr = take off fr @ bs @ drop (off + length bs) fr"

section \<open>Constants and types of \<open>filter.h\<close>\<close>

definition TCP_FIN :: u8 where "TCP_FIN = 0x01"
definition TCP_SYN :: u8 where "TCP_SYN = 0x02"
definition TCP_RST :: u8 where "TCP_RST = 0x04"
definition TCP_PSH :: u8 where "TCP_PSH = 0x08"
definition TCP_ACK :: u8 where "TCP_ACK = 0x10"
definition TCP_URG :: u8 where "TCP_URG = 0x20"

definition ST_NONE :: u8 where "ST_NONE = 0"
definition ST_SYN_SENT :: u8 where "ST_SYN_SENT = 1"
definition ST_SYN_RCVD :: u8 where "ST_SYN_RCVD = 2"
definition ST_EST :: u8 where "ST_EST = 3"
definition ST_CLOSING :: u8 where "ST_CLOSING = 4"
definition ST_UDP :: u8 where "ST_UDP = 5"

definition FL_ISN_VALID :: u8 where "FL_ISN_VALID = 1"
definition FL_CLOSED_OUT :: u8 where "FL_CLOSED_OUT = 2"

definition MODE_MONITOR :: u8 where "MODE_MONITOR = 0"
definition MODE_ENFORCE :: u8 where "MODE_ENFORCE = 1"

definition NOW_SHIFT :: nat where "NOW_SHIFT = 30"

record flow_key =
  inet_ip :: u32
  host_ip :: u32
  inet_port :: u16
  host_port :: u16
  vlans :: u32

record flow_val =
  client_isn :: u32
  last_seen :: u32
  fstate :: u8
  fflags :: u8

record flow_monitor_key =
  mon_flow :: flow_key
  mon_protocol :: u8

record flow_counter =
  cnt_packets :: u64
  cnt_bytes :: u64

record l1_entry =
  l1_key :: flow_key
  l1_last_seen :: u32
  l1_state :: u8

record feature_set =
  mode :: u8
  oos_out_strict :: u8
  allow_inbound_servers :: u8
  drop_frags :: u8
  drop_bad_flags :: u8
  filter_udp :: u8
  drop_vlan_deep :: u8
  drop_udp_frags :: u8
  reject_with_rst :: u8
  allow_inbound_syn :: u8
  ttl_syn :: u32
  ttl_est :: u32
  ttl_closing :: u32
  ttl_udp :: u32

record tbkt =
  tokens :: u64
  ts_ns :: u64

datatype drop_reason =
    RSN_UNSOL_SYNACK | RSN_BAD_ISN | RSN_OOS_IN | RSN_OOS_OUT | RSN_OOS_RST | RSN_INBOUND_SYN
  | RSN_BAD_FLAGS | RSN_TCP_FRAG | RSN_MALFORMED | RSN_UDP_OOS | RSN_MAP_FAIL | RSN_VLAN_DEPTH
  | RSN_UDP_FRAG

record stats_global =
  rx_pkts :: u64
  rx_bytes :: u64
  redir_pkts :: u64
  redir_bytes :: u64
  drop_pkts :: u64
  drop_bytes :: u64
  nonip_pkts :: u64
  nonip_bytes :: u64
  nontcp_pkts :: u64
  nontcp_bytes :: u64
  l1_hits :: u64
  rst_pkts :: u64
  rst_bytes :: u64

record vlan_stat =
  vs_pkts :: u64
  vs_bytes :: u64
  vs_drops :: u64

text \<open>The read-only data of one loaded program instance.\<close>

record rodata =
  ROLE_TRUSTED :: bool
  PEER_IDX :: u32
  L1_MASK :: u32
  MULTIBUF :: bool

text \<open>
  The maps. The per-CPU arrays are functions of the CPU; the L1 cache has \<open>l1_entries\<close>
  slots, and a lookup beyond them is NULL. \<open>features\<close> is \<open>None\<close> while the control map
  cannot be read. The byte keys of \<open>server_allow\<close> and \<open>flow_monitor_cidrs\<close> are the
  memory of \<open>struct srv_key\<close> and \<open>struct flow_cidr_key\<close>.
\<close>

record dp =
  flows :: "(flow_key, flow_val) kmap"
  udp_flows :: "(flow_key, flow_val) kmap"
  flow_monitor_cidrs :: "(bytes, u8) kmap"
  flow_monitor_counters :: "(flow_monitor_key, flow_counter) kmap"
  l1cache :: "nat \<Rightarrow> u32 \<Rightarrow> l1_entry"
  l1_entries :: u32
  features :: "feature_set option"
  server_allow :: "(bytes, u8) kmap"
  synbkt :: "(u32, tbkt) kmap"
  drop_reasons :: "nat \<Rightarrow> drop_reason \<Rightarrow> u64"
  stats_cpu :: "nat \<Rightarrow> stats_global"
  stats_vlan :: "nat \<Rightarrow> u32 \<Rightarrow> vlan_stat"
  FLOW_MONITOR_ENABLED :: u32
  FLOW_MONITOR_SAMPLE_MASK :: u32

record kenv =
  cpu :: nat
  tick_ns :: u64
  syn_ns :: u64
  global_ns :: u64
  prandom :: u32
  buff_len :: u64
  flow_upd :: "flow_key lru_outcome"
  udp_upd :: "flow_key lru_outcome"
  bkt_upd :: "u32 lru_outcome"
  global_upd :: "u32 lru_outcome"
  mon_upd :: "flow_monitor_key lru_outcome"

section \<open>Small helpers\<close>

definition now_tick :: "kenv \<Rightarrow> u32" where
  "now_tick env = ucast (drop_bit NOW_SHIFT (tick_ns env))"

definition stat_reason :: "kenv \<Rightarrow> drop_reason \<Rightarrow> dp \<Rightarrow> dp" where
  "stat_reason env r s = s\<lparr>drop_reasons :=
     (drop_reasons s)(cpu env := (drop_reasons s (cpu env))(r := drop_reasons s (cpu env) r + 1))\<rparr>"

definition sg_upd :: "kenv \<Rightarrow> (stats_global \<Rightarrow> stats_global) \<Rightarrow> dp \<Rightarrow> dp" where
  "sg_upd env f s = s\<lparr>stats_cpu := (stats_cpu s)(cpu env := f (stats_cpu s (cpu env)))\<rparr>"

definition vlan_upd :: "kenv \<Rightarrow> u32 \<Rightarrow> (vlan_stat \<Rightarrow> vlan_stat) \<Rightarrow> dp \<Rightarrow> dp" where
  "vlan_upd env vid f s = (let v = (if vid > 4095 then 0 else vid) in
     s\<lparr>stats_vlan := (stats_vlan s)(cpu env := (stats_vlan s (cpu env))(v := f (stats_vlan s (cpu env) v)))\<rparr>)"

text \<open>Longest-prefix membership: some stored prefix covers the (network order) address.\<close>

definition cidr_covers :: "u32 \<Rightarrow> bytes \<Rightarrow> bool" where
  "cidr_covers addr key = (let n = unat (ld32 key 0) in n \<le> 32 \<and>
     drop_bit (32 - n) (swap32 addr) = drop_bit (32 - n) (swap32 (ld32 key 4)))"

definition add_sample :: "u64 \<Rightarrow> flow_counter \<Rightarrow> flow_counter" where
  "add_sample len c = c\<lparr>cnt_packets := cnt_packets c + 1, cnt_bytes := cnt_bytes c + len\<rparr>"

text \<open>
  \<open>monitor_flow\<close>. The insert carries BPF_NOEXIST; when it fails the entry is looked up
  again, and in a run without a racing CPU it is still absent.
\<close>

definition monitor_flow :: "kenv \<Rightarrow> flow_key \<Rightarrow> u8 \<Rightarrow> u64 \<Rightarrow> dp \<Rightarrow> dp" where
  "monitor_flow env k protocol len s =
     (if FLOW_MONITOR_ENABLED s = 0 then s
      else if prandom env AND FLOW_MONITOR_SAMPLE_MASK s \<noteq> 0 then s
      else if \<not> list_ex (\<lambda>(key, _). cidr_covers (host_ip k) key) (flow_monitor_cidrs s) then s
      else
        (let mk = \<lparr>mon_flow = k, mon_protocol = protocol\<rparr>; m = flow_monitor_counters s in
         case kget m mk of
           Some v \<Rightarrow> s\<lparr>flow_monitor_counters := kset mk (add_sample len v) m\<rparr>
         | None \<Rightarrow>
             (case lru_put (mon_upd env) mk \<lparr>cnt_packets = 1, cnt_bytes = len\<rparr> m of
                Some m' \<Rightarrow> s\<lparr>flow_monitor_counters := m'\<rparr>
              | None \<Rightarrow> s)))"

definition ttl_for :: "feature_set \<Rightarrow> u8 \<Rightarrow> u32" where
  "ttl_for f st = (if st = ST_EST then ttl_est f else if st = ST_CLOSING then ttl_closing f
     else if st = ST_UDP then ttl_udp f else ttl_syn f)"

definition expired :: "feature_set \<Rightarrow> flow_val \<Rightarrow> u32 \<Rightarrow> bool" where
  "expired f v now = (let ttl = ttl_for f (fstate v) in
     if now < last_seen v then False else now - last_seen v > ttl)"

definition bad_flags :: "u8 \<Rightarrow> bool" where
  "bad_flags fl = (if fl = 0 then True
     else if fl AND (TCP_SYN OR TCP_FIN) = TCP_SYN OR TCP_FIN then True
     else if fl AND (TCP_SYN OR TCP_RST) = TCP_SYN OR TCP_RST then True
     else if fl AND (TCP_FIN OR TCP_PSH OR TCP_URG) = TCP_FIN OR TCP_PSH OR TCP_URG then True
     else if fl AND (TCP_FIN OR TCP_ACK) = TCP_FIN then True
     else False)"

definition touch :: "flow_val \<Rightarrow> u32 \<Rightarrow> flow_val" where
  "touch v now = (if last_seen v \<noteq> now then v\<lparr>last_seen := now\<rparr> else v)"

definition fmix32 :: "u32 \<Rightarrow> u32" where
  "fmix32 h0 =
     (let h1 = h0 XOR drop_bit 16 h0; h2 = h1 * 0x85ebca6b; h3 = h2 XOR drop_bit 13 h2;
          h4 = h3 * 0xc2b2ae35
      in h4 XOR drop_bit 16 h4)"

definition l1_index :: "flow_key \<Rightarrow> u32 \<Rightarrow> u32" where
  "l1_index k m = fmix32 (inet_ip k XOR host_ip k XOR vlans k XOR
     (push_bit 16 (ucast (inet_port k)) OR ucast (host_port k))) AND m"

text \<open>The slot of the L1 cache (\<open>None\<close> is NULL), the hit test and the write-through.\<close>

definition l1_slot :: "kenv \<Rightarrow> u32 \<Rightarrow> dp \<Rightarrow> l1_entry option" where
  "l1_slot env idx s = (if idx < l1_entries s then Some (l1cache s (cpu env) idx) else None)"

definition l1_hit :: "kenv \<Rightarrow> u32 \<Rightarrow> flow_key \<Rightarrow> u8 \<Rightarrow> u32 \<Rightarrow> dp \<Rightarrow> bool" where
  "l1_hit env idx k want now s = (case l1_slot env idx s of
     None \<Rightarrow> False
   | Some e \<Rightarrow> l1_last_seen e = now \<and> l1_state e = want \<and> l1_key e = k)"

definition l1_put :: "kenv \<Rightarrow> u32 \<Rightarrow> flow_key \<Rightarrow> u8 \<Rightarrow> u32 \<Rightarrow> dp \<Rightarrow> dp" where
  "l1_put env idx k st now s = (case l1_slot env idx s of
     None \<Rightarrow> s
   | Some e \<Rightarrow>
       (let e' = (if l1_state e = st \<and> l1_key e = k
                  then (if l1_last_seen e \<noteq> now then e\<lparr>l1_last_seen := now\<rparr> else e)
                  else e\<lparr>l1_key := k, l1_last_seen := now, l1_state := st\<rparr>)
        in s\<lparr>l1cache := (l1cache s)(cpu env := (l1cache s (cpu env))(idx := e'))\<rparr>))"

section \<open>TCP, outbound\<close>

datatype verdict = ACT_FORWARD | Reject drop_reason

definition set_flow :: "flow_key \<Rightarrow> flow_val \<Rightarrow> dp \<Rightarrow> dp" where
  "set_flow k v s = s\<lparr>flows := kset k v (flows s)\<rparr>"

definition insert_flow :: "kenv \<Rightarrow> flow_key \<Rightarrow> flow_val \<Rightarrow> dp \<Rightarrow> bool \<times> dp" where
  "insert_flow env k nv s = (case lru_put (flow_upd env) k nv (flows s) of
     None \<Rightarrow> (False, stat_reason env RSN_MAP_FAIL s)
   | Some m \<Rightarrow> (True, s\<lparr>flows := m\<rparr>))"

text \<open>The live branch: the state an unexpired flow moves to and whether it is cacheable.\<close>

definition outbound_live :: "u8 \<Rightarrow> flow_val \<Rightarrow> flow_val \<times> u8" where
  "outbound_live fl v =
     (if fl AND TCP_FIN \<noteq> 0 then (v\<lparr>fstate := ST_CLOSING, fflags := fflags v OR FL_CLOSED_OUT\<rparr>, ST_NONE)
      else if fstate v = ST_CLOSING then
        (if fflags v AND FL_CLOSED_OUT = 0 then (v\<lparr>fstate := ST_EST\<rparr>, ST_EST) else (v, ST_NONE))
      else if fstate v = ST_SYN_RCVD \<and> fl AND TCP_SYN \<noteq> 0 then (v, ST_NONE)
      else (v\<lparr>fstate := ST_EST\<rparr>, ST_EST))"

definition handle_outbound :: "kenv \<Rightarrow> feature_set \<Rightarrow> flow_key \<Rightarrow> u8 \<Rightarrow> u32 \<Rightarrow> u32 \<Rightarrow> dp
    \<Rightarrow> verdict \<times> u8 \<times> dp" where
  "handle_outbound env f k fl seq now s =
     (let v = kget (flows s) k in
      if fl AND (TCP_SYN OR TCP_ACK) = TCP_SYN then
        (case v of
           None \<Rightarrow> (ACT_FORWARD, ST_NONE, snd (insert_flow env k
             \<lparr>client_isn = seq, last_seen = now, fstate = ST_SYN_SENT, fflags = FL_ISN_VALID\<rparr> s))
         | Some v0 \<Rightarrow> (ACT_FORWARD, ST_NONE, set_flow k
             (touch (v0\<lparr>fstate := ST_SYN_SENT, client_isn := seq, fflags := FL_ISN_VALID\<rparr>) now) s))
      else if fl AND TCP_RST \<noteq> 0 then
        (case v of
           None \<Rightarrow> (ACT_FORWARD, ST_NONE, s)
         | Some v0 \<Rightarrow> (ACT_FORWARD, ST_NONE, set_flow k
             (touch (v0\<lparr>fstate := ST_CLOSING, fflags := fflags v0 OR FL_CLOSED_OUT\<rparr>) now) s))
      else if (case v of None \<Rightarrow> False | Some v0 \<Rightarrow> \<not> expired f v0 now) then
        (case outbound_live fl (the v) of
           (v1, cache_st) \<Rightarrow> (ACT_FORWARD, cache_st, set_flow k (touch v1 now) s))
      else if oos_out_strict f \<noteq> 0 then (Reject RSN_OOS_OUT, ST_NONE, s)
      else if fl AND TCP_FIN \<noteq> 0 then
        (ACT_FORWARD, ST_NONE, snd (insert_flow env k
           \<lparr>client_isn = 0, last_seen = now, fstate = ST_CLOSING, fflags = FL_CLOSED_OUT\<rparr> s))
      else
        (case insert_flow env k \<lparr>client_isn = 0, last_seen = now, fstate = ST_EST, fflags = 0\<rparr> s of
           (ok, s') \<Rightarrow> (ACT_FORWARD, if ok then ST_EST else ST_NONE, s')))"

section \<open>Token buckets\<close>

text \<open>
  \<open>tbkt_charge\<close> for one packet at a time: both compare-and-swaps find the value read just
  before. The insert of a fresh bucket may fail, which admits the packet all the same.
\<close>

definition tbkt_refill :: "u64 \<Rightarrow> u64 \<Rightarrow> tbkt \<Rightarrow> tbkt" where
  "tbkt_refill rate tnow b =
     (let burst = rate * 2 * 1000; last = ts_ns b in
      if tnow > last \<and> tnow - last \<ge> push_bit 20 1 then
        (let add = drop_bit 20 ((tnow - last) * rate); cur = tokens b; room = burst - cur in
         b\<lparr>ts_ns := tnow,
           tokens := (if cur < burst then cur + (if add > room then room else add) else cur)\<rparr>)
      else b)"

definition tbkt_spend :: "tbkt \<Rightarrow> bool \<times> tbkt" where
  "tbkt_spend b = (if tokens b < 1000 then (False, b) else (True, b\<lparr>tokens := tokens b - 1000\<rparr>))"

definition tbkt_charge :: "u32 \<Rightarrow> u64 \<Rightarrow> u64 \<Rightarrow> u32 lru_outcome \<Rightarrow> dp \<Rightarrow> bool \<times> dp" where
  "tbkt_charge key rate tnow upd s =
     (case kget (synbkt s) key of
        None \<Rightarrow>
          (case lru_put upd key \<lparr>tokens = rate * 2 * 1000 - 1000, ts_ns = tnow\<rparr> (synbkt s) of
             None \<Rightarrow> (True, s)
           | Some m \<Rightarrow> (True, s\<lparr>synbkt := m\<rparr>))
      | Some b \<Rightarrow>
          (case tbkt_spend (tbkt_refill rate tnow b) of
             (ok, b') \<Rightarrow> (ok, s\<lparr>synbkt := kset key b' (synbkt s)\<rparr>)))"

definition syn_token_ok :: "kenv \<Rightarrow> u32 \<Rightarrow> dp \<Rightarrow> bool \<times> dp" where
  "syn_token_ok env src s = tbkt_charge src 50 (syn_ns env) (bkt_upd env) s"

definition syn_global_ok :: "kenv \<Rightarrow> dp \<Rightarrow> bool \<times> dp" where
  "syn_global_ok env s = tbkt_charge 0 (50 * 64) (global_ns env) (global_upd env) s"

section \<open>TCP, inbound\<close>

definition srv_key :: "flow_key \<Rightarrow> bytes" where
  "srv_key k = mem32 (host_ip k) @ mem16 (host_port k) @ [0, 0]"

definition syn_permitted :: "feature_set \<Rightarrow> flow_key \<Rightarrow> dp \<Rightarrow> bool" where
  "syn_permitted f k s \<longleftrightarrow> allow_inbound_syn f \<noteq> 0 \<or>
     (allow_inbound_servers f \<noteq> 0 \<and> kget (server_allow s) (srv_key k) \<noteq> None)"

definition inbound_syn :: "kenv \<Rightarrow> feature_set \<Rightarrow> flow_key \<Rightarrow> u32 \<Rightarrow> bool \<Rightarrow> dp \<Rightarrow> verdict \<times> u8 \<times> dp" where
  "inbound_syn env f k now live s =
     (if \<not> syn_permitted f k s then (Reject RSN_INBOUND_SYN, ST_NONE, s)
      else case syn_token_ok env (inet_ip k) s of
        (False, s1) \<Rightarrow> (Reject RSN_INBOUND_SYN, ST_NONE, s1)
      | (True, s1) \<Rightarrow>
          (case syn_global_ok env s1 of
             (False, s2) \<Rightarrow> (Reject RSN_INBOUND_SYN, ST_NONE, s2)
           | (True, s2) \<Rightarrow>
               (if \<not> live \<or> map_option fstate (kget (flows s) k) = Some ST_CLOSING
                then (ACT_FORWARD, ST_NONE, snd (insert_flow env k
                        \<lparr>client_isn = 0, last_seen = now, fstate = ST_SYN_RCVD, fflags = 0\<rparr> s2))
                else (ACT_FORWARD, ST_NONE, s2))))"

definition inbound_synack :: "flow_key \<Rightarrow> u32 \<Rightarrow> u32 \<Rightarrow> flow_val \<Rightarrow> dp \<Rightarrow> verdict \<times> u8 \<times> dp" where
  "inbound_synack k ack_seq now v s =
     (if fflags v AND FL_ISN_VALID \<noteq> 0 then
        (if ack_seq \<noteq> client_isn v + 1 then (Reject RSN_BAD_ISN, ST_NONE, s)
         else (ACT_FORWARD, ST_NONE, set_flow k
                 (touch (if fstate v = ST_SYN_SENT then v\<lparr>fstate := ST_EST\<rparr> else v) now) s))
      else if fstate v = ST_SYN_SENT then (Reject RSN_BAD_ISN, ST_NONE, s)
      else (ACT_FORWARD, ST_NONE, set_flow k (touch v now) s))"

definition inbound_rst :: "flow_key \<Rightarrow> u8 \<Rightarrow> u32 \<Rightarrow> u32 \<Rightarrow> flow_val \<Rightarrow> dp \<Rightarrow> verdict \<times> u8 \<times> dp" where
  "inbound_rst k fl ack_seq now v s =
     (if fstate v = ST_SYN_SENT \<and> fflags v AND FL_ISN_VALID \<noteq> 0 \<and>
         (fl AND TCP_ACK = 0 \<or> ack_seq \<noteq> client_isn v + 1)
      then (Reject RSN_OOS_RST, ST_NONE, s)
      else (ACT_FORWARD, ST_NONE, set_flow k (touch (v\<lparr>fstate := ST_CLOSING\<rparr>) now) s))"

definition inbound_data :: "flow_key \<Rightarrow> u8 \<Rightarrow> u32 \<Rightarrow> flow_val \<Rightarrow> dp \<Rightarrow> verdict \<times> u8 \<times> dp" where
  "inbound_data k fl now v s =
     (let v1 = (if fl AND TCP_FIN \<noteq> 0 then v\<lparr>fstate := ST_CLOSING\<rparr>
                else if fstate v = ST_SYN_RCVD then v\<lparr>fstate := ST_EST\<rparr> else v);
          v2 = touch v1 now
      in (ACT_FORWARD, if fstate v2 = ST_EST then ST_EST else ST_NONE, set_flow k v2 s))"

definition live_flow :: "feature_set \<Rightarrow> flow_key \<Rightarrow> u32 \<Rightarrow> (flow_key, flow_val) kmap \<Rightarrow> flow_val option" where
  "live_flow f k now m = (case kget m k of
     None \<Rightarrow> None | Some v \<Rightarrow> if expired f v now then None else Some v)"

definition handle_inbound :: "kenv \<Rightarrow> feature_set \<Rightarrow> flow_key \<Rightarrow> u8 \<Rightarrow> u32 \<Rightarrow> u32 \<Rightarrow> dp
    \<Rightarrow> verdict \<times> u8 \<times> dp" where
  "handle_inbound env f k fl ack_seq now s =
     (let live = live_flow f k now (flows s) in
      if fl AND (TCP_SYN OR TCP_ACK) = TCP_SYN OR TCP_ACK then
        (case live of None \<Rightarrow> (Reject RSN_UNSOL_SYNACK, ST_NONE, s)
         | Some v \<Rightarrow> inbound_synack k ack_seq now v s)
      else if fl AND (TCP_SYN OR TCP_ACK) = TCP_SYN then inbound_syn env f k now (live \<noteq> None) s
      else if fl AND TCP_RST \<noteq> 0 then
        (case live of None \<Rightarrow> (Reject RSN_OOS_RST, ST_NONE, s)
         | Some v \<Rightarrow> inbound_rst k fl ack_seq now v s)
      else
        (case live of None \<Rightarrow> (Reject RSN_OOS_IN, ST_NONE, s)
         | Some v \<Rightarrow> inbound_data k fl now v s))"

section \<open>UDP\<close>

definition set_udp :: "flow_key \<Rightarrow> flow_val \<Rightarrow> dp \<Rightarrow> dp" where
  "set_udp k v s = s\<lparr>udp_flows := kset k v (udp_flows s)\<rparr>"

definition handle_outbound_udp :: "kenv \<Rightarrow> flow_key \<Rightarrow> u32 \<Rightarrow> dp \<Rightarrow> verdict \<times> u8 \<times> dp" where
  "handle_outbound_udp env k now s =
     (case kget (udp_flows s) k of
        None \<Rightarrow>
          (case lru_put (udp_upd env) k
                  \<lparr>client_isn = 0, last_seen = now, fstate = ST_UDP, fflags = 0\<rparr> (udp_flows s) of
             None \<Rightarrow> (ACT_FORWARD, ST_NONE, stat_reason env RSN_MAP_FAIL s)
           | Some m \<Rightarrow> (ACT_FORWARD, ST_UDP, s\<lparr>udp_flows := m\<rparr>))
      | Some v \<Rightarrow> (ACT_FORWARD, ST_UDP, set_udp k (touch v now) s))"

definition handle_inbound_udp :: "feature_set \<Rightarrow> flow_key \<Rightarrow> u32 \<Rightarrow> dp \<Rightarrow> verdict \<times> u8 \<times> dp" where
  "handle_inbound_udp f k now s =
     (case live_flow f k now (udp_flows s) of
        Some v \<Rightarrow> (ACT_FORWARD, ST_UDP, set_udp k (touch v now) s)
      | None \<Rightarrow>
          (if allow_inbound_servers f \<noteq> 0 \<and> kget (server_allow s) (srv_key k) \<noteq> None
           then (ACT_FORWARD, ST_NONE, s)
           else (Reject RSN_UDP_OOS, ST_NONE, s)))"

section \<open>Verdicts\<close>

text \<open>
  What the program returns: a drop, a transmission of the rewritten frame out of the
  ingress port, or the redirect of the unmodified frame to a \<open>tx_ports\<close> index.
\<close>

datatype xdp_action = XDP_DROP | XDP_TX bytes | REDIRECT u32

definition do_forward :: "rodata \<Rightarrow> kenv \<Rightarrow> u64 \<Rightarrow> dp \<Rightarrow> xdp_action \<times> dp" where
  "do_forward ro env len s =
     (REDIRECT (PEER_IDX ro),
      sg_upd env (\<lambda>g. g\<lparr>redir_pkts := redir_pkts g + 1, redir_bytes := redir_bytes g + len\<rparr>) s)"

definition do_drop :: "rodata \<Rightarrow> kenv \<Rightarrow> feature_set \<Rightarrow> u32 \<Rightarrow> drop_reason \<Rightarrow> u64 \<Rightarrow> dp \<Rightarrow> xdp_action \<times> dp" where
  "do_drop ro env f vid reason len s0 =
     (let s = stat_reason env reason s0 in
      if mode f = MODE_ENFORCE then
        (XDP_DROP,
         vlan_upd env vid (\<lambda>v. v\<lparr>vs_drops := vs_drops v + 1\<rparr>)
           (sg_upd env (\<lambda>g. g\<lparr>drop_pkts := drop_pkts g + 1, drop_bytes := drop_bytes g + len\<rparr>) s))
      else do_forward ro env len s)"

definition do_drop_lazy :: "rodata \<Rightarrow> kenv \<Rightarrow> u32 \<Rightarrow> drop_reason \<Rightarrow> u64 \<Rightarrow> dp \<Rightarrow> xdp_action \<times> dp" where
  "do_drop_lazy ro env vid reason len s =
     (case features s of None \<Rightarrow> (REDIRECT (PEER_IDX ro), s)
      | Some f \<Rightarrow> do_drop ro env f vid reason len s)"

section \<open>TCP reset replies\<close>

definition csum_fold :: "u32 \<Rightarrow> u16" where
  "csum_fold sum0 =
     (let sum1 = (sum0 AND 0xffff) + drop_bit 16 sum0;
          sum2 = (sum1 AND 0xffff) + drop_bit 16 sum1
      in ucast (NOT sum2))"

definition rst_numbers :: "u8 \<Rightarrow> u32 \<Rightarrow> u32 \<Rightarrow> u32 \<Rightarrow> u32 \<times> u32 \<times> u8" where
  "rst_numbers in_flags in_seq in_ack payload =
     (if in_flags AND TCP_ACK \<noteq> 0 then (in_ack, 0, TCP_RST)
      else (let seglen1 = (if in_flags AND TCP_SYN \<noteq> 0 then payload + 1 else payload);
                seglen = (if in_flags AND TCP_FIN \<noteq> 0 then seglen1 + 1 else seglen1)
            in (0, swap32 (swap32 in_seq + seglen), TCP_RST OR TCP_ACK)))"

definition ld16s :: "nat \<Rightarrow> bytes \<Rightarrow> nat \<Rightarrow> u32 list" where
  "ld16s n fr off = map (\<lambda>i. ucast (ld16 fr (off + 2 * i))) [0..<n]"

text \<open>
  \<open>build_and_send_rst\<close> on the frame, with the offsets of the IP and TCP headers. \<open>None\<close>
  is the return of -1 when the TCP header would exceed the linear data.
\<close>

definition build_and_send_rst :: "bytes \<Rightarrow> nat \<Rightarrow> nat \<Rightarrow> bytes option" where
  "build_and_send_rst fr ipo tco =
     (if tco + 20 > length fr then None
      else
        (let in_flags = byteAt fr (tco + 13);
             in_seq = ld32 fr (tco + 4);
             in_ack = ld32 fr (tco + 8);
             ihl = ucast (byteAt fr ipo AND 0x0F) * 4 :: u32;
             tot_len = swap16 (ld16 fr (ipo + 2));
             doff = ucast (drop_bit 4 (byteAt fr (tco + 12))) * 4 :: u32;
             nums = rst_numbers in_flags in_seq in_ack (ucast tot_len - ihl - doff);
             rst_seq = fst nums; rst_ack = fst (snd nums); rst_flags = snd (snd nums);
             macs = take 6 (drop 6 fr) @ take 6 fr;
             saddr = take 4 (drop (ipo + 12) fr);
             daddr = take 4 (drop (ipo + 16) fr);
             new_len = ucast (ihl + 20) :: u16;
             ics = ucast (NOT (swap16 (ld16 fr (ipo + 10)))) + ucast (NOT tot_len) + ucast new_len;
             fr1 = patch 0 macs fr;
             fr2 = patch (ipo + 12) (daddr @ saddr) fr1;
             fr3 = patch (ipo + 2) (mem16 (swap16 new_len)) fr2;
             fr4 = patch (ipo + 10) (mem16 (swap16 (csum_fold ics))) fr3;
             hdr = mem16 (ld16 fr (tco + 2)) @ mem16 (ld16 fr tco) @ mem32 rst_seq @ mem32 rst_ack @
                   [0x50, rst_flags, 0, 0, 0, 0, 0, 0];
             fr5 = patch tco hdr fr4;
             sum = sum_list (ld16s 2 fr5 (ipo + 12)) + sum_list (ld16s 2 fr5 (ipo + 16)) +
                   (ucast (swap16 6) + ucast (swap16 20)) + sum_list (ld16s 10 fr5 tco)
         in Some (patch (tco + 16) (mem16 (csum_fold sum)) fr5)))"

definition do_drop_tcp :: "rodata \<Rightarrow> kenv \<Rightarrow> feature_set \<Rightarrow> u32 \<Rightarrow> drop_reason \<Rightarrow> u64 \<Rightarrow> bytes \<Rightarrow> nat \<Rightarrow> nat
    \<Rightarrow> dp \<Rightarrow> xdp_action \<times> dp" where
  "do_drop_tcp ro env f vid reason len fr ipo tco s =
     (if \<not> ROLE_TRUSTED ro \<and> mode f = MODE_ENFORCE \<and> reject_with_rst f \<noteq> 0 then
        (case build_and_send_rst fr ipo tco of
           Some fr' \<Rightarrow> (XDP_TX fr', sg_upd env (\<lambda>g. g\<lparr>rst_pkts := rst_pkts g + 1, rst_bytes := rst_bytes g + len\<rparr>)
                          (stat_reason env reason s))
         | None \<Rightarrow> do_drop ro env f vid reason len s)
      else do_drop ro env f vid reason len s)"

section \<open>The program\<close>

definition ETH_P_IP :: u16 where "ETH_P_IP = 0x0800"
definition ETH_P_8021Q :: u16 where "ETH_P_8021Q = 0x8100"
definition ETH_P_8021AD :: u16 where "ETH_P_8021AD = 0x88A8"
definition IPPROTO_TCP :: u8 where "IPPROTO_TCP = 6"
definition IPPROTO_UDP :: u8 where "IPPROTO_UDP = 17"
definition MAX_VLAN_DEPTH :: nat where "MAX_VLAN_DEPTH = 2"

definition is_vlan :: "u16 \<Rightarrow> bool" where
  "is_vlan proto \<longleftrightarrow> proto = swap16 ETH_P_8021Q \<or> proto = swap16 ETH_P_8021AD"

text \<open>
  The unrolled VLAN loop: the VIDs read so far, the protocol and the offset behind the
  last tag, and whether a tag was truncated. \<open>n\<close> counts the turns that are left.
\<close>

fun vlan_loop :: "bytes \<Rightarrow> nat \<Rightarrow> u16 list \<Rightarrow> u16 \<Rightarrow> nat \<Rightarrow> u16 list \<times> u16 \<times> nat \<times> bool" where
  "vlan_loop fr 0 vids proto cur = (vids, proto, cur, False)"
| "vlan_loop fr (Suc n) vids proto cur =
     (if \<not> is_vlan proto then (vids, proto, cur, False)
      else if cur + 4 > length fr then (vids, proto, cur, True)
      else vlan_loop fr n (vids @ [swap16 (ld16 fr cur) AND 0x0FFF]) (ld16 fr (cur + 2)) (cur + 4))"

definition vid_at :: "u16 list \<Rightarrow> nat \<Rightarrow> u32" where
  "vid_at vids i = (if i < length vids then ucast (vids ! i) else 0)"

definition make_key :: "bool \<Rightarrow> u32 \<Rightarrow> bytes \<Rightarrow> nat \<Rightarrow> nat \<Rightarrow> flow_key" where
  "make_key trusted vl fr ipo l4 =
     (let saddr = ld32 fr (ipo + 12); daddr = ld32 fr (ipo + 16);
          source = ld16 fr l4; dest = ld16 fr (l4 + 2)
      in if trusted then \<lparr>inet_ip = daddr, host_ip = saddr, inet_port = dest, host_port = source, vlans = vl\<rparr>
         else \<lparr>inet_ip = saddr, host_ip = daddr, inet_port = source, host_port = dest, vlans = vl\<rparr>)"

definition l1_eligible :: "rodata \<Rightarrow> u8 \<Rightarrow> bool" where
  "l1_eligible ro fl \<longleftrightarrow> L1_MASK ro \<noteq> 0 \<and> fl AND (TCP_SYN OR TCP_FIN OR TCP_RST) = 0 \<and> fl AND TCP_ACK \<noteq> 0"

text \<open>The TCP branch once the header checks have passed.\<close>

definition tcp_decide :: "rodata \<Rightarrow> kenv \<Rightarrow> feature_set \<Rightarrow> flow_key \<Rightarrow> u8 \<Rightarrow> u32 \<Rightarrow> u64 \<Rightarrow> bytes \<Rightarrow> nat \<Rightarrow> nat
    \<Rightarrow> dp \<Rightarrow> xdp_action \<times> dp" where
  "tcp_decide ro env f k fl vid len fr ipo tco s =
     (let now = now_tick env in
      case (if ROLE_TRUSTED ro then handle_outbound env f k fl (swap32 (ld32 fr (tco + 4))) now s
            else handle_inbound env f k fl (swap32 (ld32 fr (tco + 8))) now s) of
        (ACT_FORWARD, cache_st, s1) \<Rightarrow>
          do_forward ro env len
            (if l1_eligible ro fl \<and> cache_st = ST_EST
             then l1_put env (l1_index k (L1_MASK ro)) k ST_EST now s1 else s1)
      | (Reject reason, cache_st, s1) \<Rightarrow> do_drop_tcp ro env f vid reason len fr ipo tco s1)"

definition xdp_tcp_keyed :: "rodata \<Rightarrow> kenv \<Rightarrow> flow_key \<Rightarrow> u8 \<Rightarrow> u32 \<Rightarrow> u64 \<Rightarrow> bytes \<Rightarrow> nat \<Rightarrow> nat
    \<Rightarrow> dp \<Rightarrow> xdp_action \<times> dp" where
  "xdp_tcp_keyed ro env k fl vid len fr ipo tco s0 =
     (let s = (if ROLE_TRUSTED ro then s0 else monitor_flow env k IPPROTO_TCP len s0); now = now_tick env in
      if l1_eligible ro fl then
        (if l1_hit env (l1_index k (L1_MASK ro)) k ST_EST now s
         then do_forward ro env len (sg_upd env (\<lambda>g. g\<lparr>l1_hits := l1_hits g + 1\<rparr>) s)
         else case features s of
             None \<Rightarrow> (REDIRECT (PEER_IDX ro), s)
           | Some f \<Rightarrow> tcp_decide ro env f k fl vid len fr ipo tco s)
      else
        (case features s0 of
           None \<Rightarrow> (REDIRECT (PEER_IDX ro), s0)
         | Some f \<Rightarrow>
             (if drop_bad_flags f \<noteq> 0 \<and> bad_flags fl
              then do_drop_tcp ro env f vid RSN_BAD_FLAGS len fr ipo tco s
              else tcp_decide ro env f k fl vid len fr ipo tco s)))"

definition xdp_tcp :: "rodata \<Rightarrow> kenv \<Rightarrow> u32 \<Rightarrow> u32 \<Rightarrow> u64 \<Rightarrow> bytes \<Rightarrow> nat \<Rightarrow> u32 \<Rightarrow> dp \<Rightarrow> xdp_action \<times> dp" where
  "xdp_tcp ro env vid vl len fr ipo ihl s =
     (let tco = ipo + unat ihl in
      if ld16 fr (ipo + 6) AND swap16 0x1FFF \<noteq> 0 then
        (case features s of
           None \<Rightarrow> (REDIRECT (PEER_IDX ro), s)
         | Some f \<Rightarrow> (if drop_frags f \<noteq> 0 then do_drop ro env f vid RSN_TCP_FRAG len s
                       else do_forward ro env len s))
      else if tco + 20 > length fr then do_drop_lazy ro env vid RSN_MALFORMED len s
      else
        (let doff = ucast (drop_bit 4 (byteAt fr (tco + 12))) * 4 :: u32 in
         if doff < 20 \<or> ucast (swap16 (ld16 fr (ipo + 2))) < ihl + doff
         then do_drop_lazy ro env vid RSN_MALFORMED len s
         else xdp_tcp_keyed ro env (make_key (ROLE_TRUSTED ro) vl fr ipo tco)
                (byteAt fr (tco + 13)) vid len fr ipo tco s))"

definition nontcp :: "rodata \<Rightarrow> kenv \<Rightarrow> u64 \<Rightarrow> dp \<Rightarrow> xdp_action \<times> dp" where
  "nontcp ro env len s = do_forward ro env len
     (sg_upd env (\<lambda>g. g\<lparr>nontcp_pkts := nontcp_pkts g + 1, nontcp_bytes := nontcp_bytes g + len\<rparr>) s)"

definition xdp_udp_keyed :: "rodata \<Rightarrow> kenv \<Rightarrow> feature_set \<Rightarrow> flow_key \<Rightarrow> u32 \<Rightarrow> u64 \<Rightarrow> dp \<Rightarrow> xdp_action \<times> dp" where
  "xdp_udp_keyed ro env f k vid len s0 =
     (let s = (if ROLE_TRUSTED ro then s0 else monitor_flow env k IPPROTO_UDP len s0);
          now = now_tick env; idx = l1_index k (L1_MASK ro) in
      if filter_udp f = 0 then nontcp ro env len s
      else if L1_MASK ro \<noteq> 0 \<and> l1_hit env idx k ST_UDP now s
        then do_forward ro env len (sg_upd env (\<lambda>g. g\<lparr>l1_hits := l1_hits g + 1\<rparr>) s)
      else
        (case (if ROLE_TRUSTED ro then handle_outbound_udp env k now s else handle_inbound_udp f k now s) of
           (ACT_FORWARD, cache_st, s1) \<Rightarrow>
             do_forward ro env len
               (if L1_MASK ro \<noteq> 0 \<and> cache_st = ST_UDP then l1_put env idx k ST_UDP now s1 else s1)
         | (Reject reason, cache_st, s1) \<Rightarrow> do_drop ro env f vid reason len s1))"

definition xdp_udp :: "rodata \<Rightarrow> kenv \<Rightarrow> u32 \<Rightarrow> u32 \<Rightarrow> u64 \<Rightarrow> bytes \<Rightarrow> nat \<Rightarrow> u32 \<Rightarrow> dp \<Rightarrow> xdp_action \<times> dp" where
  "xdp_udp ro env vid vl len fr ipo ihl s =
     (case features s of
        None \<Rightarrow> (REDIRECT (PEER_IDX ro), s)
      | Some f \<Rightarrow>
          (let l4 = ipo + unat ihl in
           if ld16 fr (ipo + 6) AND swap16 0x1FFF \<noteq> 0 then
             (if filter_udp f = 0 then nontcp ro env len s
              else if drop_udp_frags f \<noteq> 0 then do_drop ro env f vid RSN_UDP_FRAG len s
              else do_forward ro env len s)
           else if l4 + 8 > length fr then
             (if filter_udp f = 0 then nontcp ro env len s else do_drop ro env f vid RSN_MALFORMED len s)
           else if ucast (swap16 (ld16 fr (ipo + 2))) < ihl + 8 then
             (if filter_udp f = 0 then nontcp ro env len s else do_drop ro env f vid RSN_MALFORMED len s)
           else xdp_udp_keyed ro env f (make_key (ROLE_TRUSTED ro) vl fr ipo l4) vid len s))"

definition xdp_ipv4 :: "rodata \<Rightarrow> kenv \<Rightarrow> u32 \<Rightarrow> u32 \<Rightarrow> u64 \<Rightarrow> bytes \<Rightarrow> nat \<Rightarrow> dp \<Rightarrow> xdp_action \<times> dp" where
  "xdp_ipv4 ro env vid vl len fr ipo s =
     (let ihl = ucast (byteAt fr ipo AND 0x0F) * 4 :: u32 in
      if ipo + 20 > length fr then do_drop_lazy ro env vid RSN_MALFORMED len s
      else if drop_bit 4 (byteAt fr ipo) \<noteq> 4 then do_drop_lazy ro env vid RSN_MALFORMED len s
      else if ihl < 20 then do_drop_lazy ro env vid RSN_MALFORMED len s
      else if ipo + unat ihl > length fr then do_drop_lazy ro env vid RSN_MALFORMED len s
      else if byteAt fr (ipo + 9) = IPPROTO_TCP then xdp_tcp ro env vid vl len fr ipo ihl s
      else if byteAt fr (ipo + 9) = IPPROTO_UDP then xdp_udp ro env vid vl len fr ipo ihl s
      else nontcp ro env len s)"

definition rx_account :: "kenv \<Rightarrow> u32 \<Rightarrow> u64 \<Rightarrow> dp \<Rightarrow> dp" where
  "rx_account env vid len s =
     vlan_upd env vid (\<lambda>v. v\<lparr>vs_pkts := vs_pkts v + 1, vs_bytes := vs_bytes v + len\<rparr>)
       (sg_upd env (\<lambda>g. g\<lparr>rx_pkts := rx_pkts g + 1, rx_bytes := rx_bytes g + len\<rparr>) s)"

definition nonip :: "rodata \<Rightarrow> kenv \<Rightarrow> u64 \<Rightarrow> dp \<Rightarrow> xdp_action \<times> dp" where
  "nonip ro env len s = do_forward ro env len
     (sg_upd env (\<lambda>g. g\<lparr>nonip_pkts := nonip_pkts g + 1, nonip_bytes := nonip_bytes g + len\<rparr>) s)"

definition xdp_filter :: "rodata \<Rightarrow> kenv \<Rightarrow> bytes \<Rightarrow> dp \<Rightarrow> xdp_action \<times> dp" where
  "xdp_filter ro env fr s =
     (let len = (if MULTIBUF ro then buff_len env else of_nat (length fr)) in
      if 14 > length fr then do_drop_lazy ro env 0 RSN_MALFORMED len (rx_account env 0 len s)
      else
        (case vlan_loop fr MAX_VLAN_DEPTH [] (ld16 fr 12) 14 of
           (vids, proto, ipo, trunc) \<Rightarrow>
             (let vid = vid_at vids 0;
                  vl = push_bit 12 (vid_at vids 0) OR vid_at vids 1;
                  s1 = rx_account env vid len s
              in if trunc then do_drop_lazy ro env vid RSN_MALFORMED len s1
                 else if is_vlan proto then
                   (case features s1 of
                      None \<Rightarrow> (REDIRECT (PEER_IDX ro), s1)
                    | Some f \<Rightarrow> (if drop_vlan_deep f \<noteq> 0 then do_drop ro env f vid RSN_VLAN_DEPTH len s1
                                  else nonip ro env len s1))
                 else if proto \<noteq> swap16 ETH_P_IP then nonip ro env len s1
                 else xdp_ipv4 ro env vid vl len fr ipo s1)))"

end
