(* ===== verification/Bpf_Class.thy ===== *)
theory Bpf_Class
  imports Bpf_Filter
begin

text \<open>
  The abstract packet filter: a pure classification of frames and the action per class.
  \<open>xdp_filter_classified\<close> shows that the data path implements it, so the properties of
  the handlers carry over to the program on raw frames. The second half collects, for
  every operation, what it changes in the flow tables and the L1 cache.
\<close>

section \<open>Classes of frames\<close>

datatype pclass =
    Malformed | DeepVlan | NonIp | OtherIp | TcpFrag
  | Tcp flow_key u8 nat nat
  | UdpFrag | UdpBad | Udp flow_key

definition ip_ihl :: "bytes \<Rightarrow> nat \<Rightarrow> u32" where
  "ip_ihl fr ipo = ucast (byteAt fr ipo AND 0x0F) * 4"

definition is_fragment :: "bytes \<Rightarrow> nat \<Rightarrow> bool" where
  "is_fragment fr ipo \<longleftrightarrow> ld16 fr (ipo + 6) AND swap16 0x1FFF \<noteq> 0"

definition tcp_doff :: "bytes \<Rightarrow> nat \<Rightarrow> u32" where
  "tcp_doff fr tco = ucast (drop_bit 4 (byteAt fr (tco + 12))) * 4"

definition ip_tot_len :: "bytes \<Rightarrow> nat \<Rightarrow> u32" where
  "ip_tot_len fr ipo = ucast (swap16 (ld16 fr (ipo + 2)))"

definition class_ipv4 :: "bool \<Rightarrow> u32 \<Rightarrow> bytes \<Rightarrow> nat \<Rightarrow> pclass" where
  "class_ipv4 trusted vl fr ipo =
     (let ihl = ip_ihl fr ipo; l4 = ipo + unat ihl in
      if ipo + 20 > length fr \<or> drop_bit 4 (byteAt fr ipo) \<noteq> 4 \<or> ihl < 20 \<or> l4 > length fr then Malformed
      else if byteAt fr (ipo + 9) = IPPROTO_TCP then
        (if is_fragment fr ipo then TcpFrag
         else if l4 + 20 > length fr \<or> tcp_doff fr l4 < 20 \<or> ip_tot_len fr ipo < ihl + tcp_doff fr l4
         then Malformed
         else Tcp (make_key trusted vl fr ipo l4) (byteAt fr (l4 + 13)) ipo l4)
      else if byteAt fr (ipo + 9) = IPPROTO_UDP then
        (if is_fragment fr ipo then UdpFrag
         else if l4 + 8 > length fr \<or> ip_tot_len fr ipo < ihl + 8 then UdpBad
         else Udp (make_key trusted vl fr ipo l4))
      else OtherIp)"

definition classify :: "bool \<Rightarrow> bytes \<Rightarrow> u32 \<times> pclass" where
  "classify trusted fr =
     (if 14 > length fr then (0, Malformed)
      else case vlan_loop fr MAX_VLAN_DEPTH [] (ld16 fr 12) 14 of
        (vids, proto, ipo, trunc) \<Rightarrow>
          (vid_at vids 0,
           if trunc then Malformed
           else if is_vlan proto then DeepVlan
           else if proto \<noteq> swap16 ETH_P_IP then NonIp
           else class_ipv4 trusted (push_bit 12 (vid_at vids 0) OR vid_at vids 1) fr ipo))"

definition frame_len :: "rodata \<Rightarrow> kenv \<Rightarrow> bytes \<Rightarrow> u64" where
  "frame_len ro env fr = (if MULTIBUF ro then buff_len env else of_nat (length fr))"

text \<open>The action per class. Without a readable policy the program forwards.\<close>

fun class_action :: "rodata \<Rightarrow> kenv \<Rightarrow> bytes \<Rightarrow> u64 \<Rightarrow> u32 \<Rightarrow> pclass \<Rightarrow> dp \<Rightarrow> xdp_action \<times> dp" where
  "class_action ro env fr len vid Malformed s = do_drop_lazy ro env vid RSN_MALFORMED len s"
| "class_action ro env fr len vid DeepVlan s = (case features s of
     None \<Rightarrow> (REDIRECT (PEER_IDX ro), s)
   | Some f \<Rightarrow> if drop_vlan_deep f \<noteq> 0 then do_drop ro env f vid RSN_VLAN_DEPTH len s else nonip ro env len s)"
| "class_action ro env fr len vid NonIp s = nonip ro env len s"
| "class_action ro env fr len vid OtherIp s = nontcp ro env len s"
| "class_action ro env fr len vid TcpFrag s = (case features s of
     None \<Rightarrow> (REDIRECT (PEER_IDX ro), s)
   | Some f \<Rightarrow> if drop_frags f \<noteq> 0 then do_drop ro env f vid RSN_TCP_FRAG len s else do_forward ro env len s)"
| "class_action ro env fr len vid (Tcp k fl ipo tco) s = xdp_tcp_keyed ro env k fl vid len fr ipo tco s"
| "class_action ro env fr len vid UdpFrag s = (case features s of
     None \<Rightarrow> (REDIRECT (PEER_IDX ro), s)
   | Some f \<Rightarrow> if filter_udp f = 0 then nontcp ro env len s
       else if drop_udp_frags f \<noteq> 0 then do_drop ro env f vid RSN_UDP_FRAG len s else do_forward ro env len s)"
| "class_action ro env fr len vid UdpBad s = (case features s of
     None \<Rightarrow> (REDIRECT (PEER_IDX ro), s)
   | Some f \<Rightarrow> if filter_udp f = 0 then nontcp ro env len s else do_drop ro env f vid RSN_MALFORMED len s)"
| "class_action ro env fr len vid (Udp k) s = (case features s of
     None \<Rightarrow> (REDIRECT (PEER_IDX ro), s)
   | Some f \<Rightarrow> xdp_udp_keyed ro env f k vid len s)"

lemma xdp_tcp_class:
  assumes "byteAt fr (ipo + 9) = IPPROTO_TCP" "ihl = ip_ihl fr ipo"
    "\<not> (ipo + 20 > length fr \<or> drop_bit 4 (byteAt fr ipo) \<noteq> 4 \<or> ihl < 20 \<or> ipo + unat ihl > length fr)"
  shows "xdp_tcp ro env vid vl len fr ipo ihl s =
     class_action ro env fr len vid (class_ipv4 (ROLE_TRUSTED ro) vl fr ipo) s"
  using assms
  by (simp add: xdp_tcp_def class_ipv4_def is_fragment_def tcp_doff_def ip_tot_len_def Let_def split: option.split)

lemma xdp_udp_class:
  assumes "byteAt fr (ipo + 9) = IPPROTO_UDP" "ihl = ip_ihl fr ipo"
    "\<not> (ipo + 20 > length fr \<or> drop_bit 4 (byteAt fr ipo) \<noteq> 4 \<or> ihl < 20 \<or> ipo + unat ihl > length fr)"
  shows "xdp_udp ro env vid vl len fr ipo ihl s =
     class_action ro env fr len vid (class_ipv4 (ROLE_TRUSTED ro) vl fr ipo) s"
  using assms
  by (simp add: xdp_udp_def class_ipv4_def is_fragment_def ip_tot_len_def IPPROTO_TCP_def IPPROTO_UDP_def Let_def
      split: option.split)

lemma xdp_ipv4_class:
  "xdp_ipv4 ro env vid vl len fr ipo s =
     class_action ro env fr len vid (class_ipv4 (ROLE_TRUSTED ro) vl fr ipo) s"
proof (cases "ipo + 20 > length fr \<or> drop_bit 4 (byteAt fr ipo) \<noteq> 4 \<or> ip_ihl fr ipo < 20 \<or>
    ipo + unat (ip_ihl fr ipo) > length fr")
  case True
  then have "class_ipv4 (ROLE_TRUSTED ro) vl fr ipo = Malformed" by (simp add: class_ipv4_def)
  moreover have "xdp_ipv4 ro env vid vl len fr ipo s = do_drop_lazy ro env vid RSN_MALFORMED len s"
    using True by (auto simp: xdp_ipv4_def Let_def simp flip: ip_ihl_def)
  ultimately show ?thesis by simp
next
  case False
  then have "xdp_ipv4 ro env vid vl len fr ipo s =
      (if byteAt fr (ipo + 9) = IPPROTO_TCP then xdp_tcp ro env vid vl len fr ipo (ip_ihl fr ipo) s
       else if byteAt fr (ipo + 9) = IPPROTO_UDP then xdp_udp ro env vid vl len fr ipo (ip_ihl fr ipo) s
       else nontcp ro env len s)"
    by (simp add: xdp_ipv4_def Let_def flip: ip_ihl_def)
  moreover have "byteAt fr (ipo + 9) \<noteq> IPPROTO_TCP \<Longrightarrow> byteAt fr (ipo + 9) \<noteq> IPPROTO_UDP \<Longrightarrow>
      class_ipv4 (ROLE_TRUSTED ro) vl fr ipo = OtherIp"
    using False by (simp add: class_ipv4_def Let_def)
  ultimately show ?thesis
    using xdp_tcp_class [OF _ refl False] xdp_udp_class [OF _ refl False] by auto
qed

lemma features_rx_account [simp]: "features (rx_account env vid len s) = features s"
  by (simp add: rx_account_def vlan_upd_def sg_upd_def Let_def)

lemma xdp_filter_classified:
  "xdp_filter ro env fr s =
     (case classify (ROLE_TRUSTED ro) fr of (vid, c) \<Rightarrow>
        class_action ro env fr (frame_len ro env fr) vid c (rx_account env vid (frame_len ro env fr) s))"
proof -
  obtain vids proto ipo trunc where v: "vlan_loop fr MAX_VLAN_DEPTH [] (ld16 fr 12) 14 = (vids, proto, ipo, trunc)"
    by (rule prod_cases4)
  show ?thesis
    by (simp add: xdp_filter_def classify_def frame_len_def v Let_def xdp_ipv4_class)
qed

end
