(* ===== verification/Bpf_Safety.thy ===== *)
theory Bpf_Safety
  imports Bpf_Class
begin

text \<open>
  Safety of the data path. The locale \<open>reply_filter\<close> states what makes a stateful filter
  sound over whole runs: an event grows the set of authorised tuples only by what it
  opens, and a reply is forwarded only for an authorised tuple. It is interpreted for
  TCP flows, for UDP pseudo-flows and for the initial sequence numbers that inbound
  SYN-ACKs must acknowledge.
\<close>

section \<open>What the bookkeeping leaves alone\<close>

lemma stat_reason_sel [simp]:
  "flows (stat_reason env r s) = flows s" "udp_flows (stat_reason env r s) = udp_flows s"
  "l1cache (stat_reason env r s) = l1cache s" "l1_entries (stat_reason env r s) = l1_entries s"
  "features (stat_reason env r s) = features s" "server_allow (stat_reason env r s) = server_allow s"
  "synbkt (stat_reason env r s) = synbkt s"
  by (simp_all add: stat_reason_def)

lemma sg_upd_sel [simp]:
  "flows (sg_upd env f s) = flows s" "udp_flows (sg_upd env f s) = udp_flows s"
  "l1cache (sg_upd env f s) = l1cache s" "l1_entries (sg_upd env f s) = l1_entries s"
  "features (sg_upd env f s) = features s" "server_allow (sg_upd env f s) = server_allow s"
  "synbkt (sg_upd env f s) = synbkt s"
  by (simp_all add: sg_upd_def)

lemma vlan_upd_sel [simp]:
  "flows (vlan_upd env v f s) = flows s" "udp_flows (vlan_upd env v f s) = udp_flows s"
  "l1cache (vlan_upd env v f s) = l1cache s" "l1_entries (vlan_upd env v f s) = l1_entries s"
  "features (vlan_upd env v f s) = features s" "server_allow (vlan_upd env v f s) = server_allow s"
  "synbkt (vlan_upd env v f s) = synbkt s"
  by (simp_all add: vlan_upd_def Let_def)

lemma rx_account_sel [simp]:
  "flows (rx_account env v l s) = flows s" "udp_flows (rx_account env v l s) = udp_flows s"
  "l1cache (rx_account env v l s) = l1cache s" "l1_entries (rx_account env v l s) = l1_entries s"
  "server_allow (rx_account env v l s) = server_allow s" "synbkt (rx_account env v l s) = synbkt s"
  by (simp_all add: rx_account_def)

lemma monitor_flow_sel [simp]:
  "flows (monitor_flow env k p l s) = flows s" "udp_flows (monitor_flow env k p l s) = udp_flows s"
  "l1cache (monitor_flow env k p l s) = l1cache s" "l1_entries (monitor_flow env k p l s) = l1_entries s"
  "features (monitor_flow env k p l s) = features s" "server_allow (monitor_flow env k p l s) = server_allow s"
  "synbkt (monitor_flow env k p l s) = synbkt s"
  by (simp_all add: monitor_flow_def Let_def split: option.split)

lemma do_forward_sel [simp]:
  "fst (do_forward ro env l s) = REDIRECT (PEER_IDX ro)"
  "flows (snd (do_forward ro env l s)) = flows s" "udp_flows (snd (do_forward ro env l s)) = udp_flows s"
  "l1cache (snd (do_forward ro env l s)) = l1cache s"
  by (simp_all add: do_forward_def)

lemma nonip_sel [simp]:
  "flows (snd (nonip ro env l s)) = flows s" "udp_flows (snd (nonip ro env l s)) = udp_flows s"
  "l1cache (snd (nonip ro env l s)) = l1cache s"
  by (simp_all add: nonip_def)

lemma nontcp_sel [simp]:
  "flows (snd (nontcp ro env l s)) = flows s" "udp_flows (snd (nontcp ro env l s)) = udp_flows s"
  "l1cache (snd (nontcp ro env l s)) = l1cache s"
  by (simp_all add: nontcp_def)

lemma do_drop_sel [simp]:
  "flows (snd (do_drop ro env f v r l s)) = flows s" "udp_flows (snd (do_drop ro env f v r l s)) = udp_flows s"
  "l1cache (snd (do_drop ro env f v r l s)) = l1cache s"
  by (simp_all add: do_drop_def Let_def)

lemma do_drop_lazy_sel [simp]:
  "flows (snd (do_drop_lazy ro env v r l s)) = flows s" "udp_flows (snd (do_drop_lazy ro env v r l s)) = udp_flows s"
  "l1cache (snd (do_drop_lazy ro env v r l s)) = l1cache s"
  by (simp_all add: do_drop_lazy_def split: option.split)

lemma do_drop_tcp_sel [simp]:
  "flows (snd (do_drop_tcp ro env f v r l fr i t s)) = flows s"
  "udp_flows (snd (do_drop_tcp ro env f v r l fr i t s)) = udp_flows s"
  "l1cache (snd (do_drop_tcp ro env f v r l fr i t s)) = l1cache s"
  by (simp_all add: do_drop_tcp_def split: option.split)

lemma tbkt_charge_sel [simp]:
  "flows (snd (tbkt_charge key rate t u s)) = flows s" "udp_flows (snd (tbkt_charge key rate t u s)) = udp_flows s"
  "l1cache (snd (tbkt_charge key rate t u s)) = l1cache s"
  "features (snd (tbkt_charge key rate t u s)) = features s"
  "server_allow (snd (tbkt_charge key rate t u s)) = server_allow s"
  by (simp_all add: tbkt_charge_def split: option.split prod.split)

lemma set_flow_sel [simp]:
  "flows (set_flow k v s) = kset k v (flows s)" "udp_flows (set_flow k v s) = udp_flows s"
  "l1cache (set_flow k v s) = l1cache s"
  by (simp_all add: set_flow_def)

lemma set_udp_sel [simp]:
  "flows (set_udp k v s) = flows s" "udp_flows (set_udp k v s) = kset k v (udp_flows s)"
  "l1cache (set_udp k v s) = l1cache s"
  by (simp_all add: set_udp_def)

lemma insert_flow_sel [simp]:
  "udp_flows (snd (insert_flow env k v s)) = udp_flows s" "l1cache (snd (insert_flow env k v s)) = l1cache s"
  by (simp_all add: insert_flow_def split: option.split)

lemma insert_flow_kget:
  "kget (flows (snd (insert_flow env k v s))) k' = Some w \<Longrightarrow>
     kget (flows s) k' = Some w \<or> k' = k \<and> w = v"
  using lru_put_kget [of "flow_upd env" k v "flows s"] lru_put_same [of "flow_upd env" k v "flows s"]
  by (auto simp: insert_flow_def split: option.splits) (metis option.inject)

lemma touch_sel [simp]:
  "fstate (touch v now) = fstate v" "fflags (touch v now) = fflags v"
  "client_isn (touch v now) = client_isn v" "last_seen (touch v now) = now"
  by (simp_all add: touch_def)

lemma l1_put_sel [simp]:
  "flows (l1_put env i k st now s) = flows s" "udp_flows (l1_put env i k st now s) = udp_flows s"
  by (simp_all add: l1_put_def Let_def split: option.split)

section \<open>The authorised tuples\<close>

definition l1_keys :: "u8 \<Rightarrow> dp \<Rightarrow> flow_key set" where
  "l1_keys st s = {k. \<exists>c i. l1_state (l1cache s c i) = st \<and> l1_key (l1cache s c i) = k}"

definition tcp_auth :: "dp \<Rightarrow> flow_key set" where
  "tcp_auth s = dom (kget (flows s)) \<union> l1_keys ST_EST s"

definition udp_auth :: "dp \<Rightarrow> flow_key set" where
  "udp_auth s = dom (kget (udp_flows s)) \<union> l1_keys ST_UDP s"

lemma l1_keys_cong: "l1cache s = l1cache s' \<Longrightarrow> l1_keys st s = l1_keys st s'"
  by (simp add: l1_keys_def)

lemma l1_keys_put:
  "l1_keys st' (l1_put env i k st now s) \<subseteq> l1_keys st' s \<union> (if st' = st then {k} else {})"
  by (auto simp: l1_keys_def l1_put_def l1_slot_def Let_def split: option.splits if_splits; blast)

lemma l1_hit_key: "l1_hit env i k st now s \<Longrightarrow> k \<in> l1_keys st s"
  by (auto simp: l1_hit_def l1_slot_def l1_keys_def split: option.splits if_splits)

lemma live_flow_Some: "live_flow f k now m = Some v \<longleftrightarrow> kget m k = Some v \<and> \<not> expired f v now"
  by (auto simp: live_flow_def split: option.splits)


text \<open>The sequence numbers an inbound SYN-ACK may acknowledge.\<close>

definition isn_auth :: "dp \<Rightarrow> (flow_key \<times> u32) set" where
  "isn_auth s = {(k, client_isn v) | k v. kget (flows s) k = Some v \<and> fflags v AND FL_ISN_VALID \<noteq> 0}"

definition lone_syn :: "u8 \<Rightarrow> bool" where
  "lone_syn fl \<longleftrightarrow> fl AND (TCP_SYN OR TCP_ACK) = TCP_SYN"

definition syn_ack :: "u8 \<Rightarrow> bool" where
  "syn_ack fl \<longleftrightarrow> fl AND (TCP_SYN OR TCP_ACK) = TCP_SYN OR TCP_ACK"

lemma syn_neq_synack: "TCP_SYN \<noteq> TCP_SYN OR TCP_ACK"
  by (simp add: TCP_SYN_def TCP_ACK_def)

lemma closed_out_keeps_isn: "(x OR FL_CLOSED_OUT) AND FL_ISN_VALID = x AND FL_ISN_VALID"
  by (simp add: bit.conj_disj_distrib2 FL_CLOSED_OUT_def FL_ISN_VALID_def)

section \<open>Effects of the handlers\<close>

lemma isn_auth_set_flow:
  "isn_auth (set_flow k v s) \<subseteq> isn_auth s \<union> {p. p = (k, client_isn v) \<and> fflags v AND FL_ISN_VALID \<noteq> 0}"
  by (auto simp: isn_auth_def split: if_splits)

lemma isn_auth_insert_flow:
  "isn_auth (snd (insert_flow env k v s)) \<subseteq>
     isn_auth s \<union> {p. p = (k, client_isn v) \<and> fflags v AND FL_ISN_VALID \<noteq> 0}"
  unfolding isn_auth_def using insert_flow_kget by blast

lemma isn_auth_update:
  "kget (flows s) k = Some v0 \<Longrightarrow> client_isn v = client_isn v0 \<Longrightarrow>
     fflags v AND FL_ISN_VALID = fflags v0 AND FL_ISN_VALID \<Longrightarrow> isn_auth (set_flow k v s) \<subseteq> isn_auth s"
  by (auto simp: isn_auth_def split: if_splits; metis)

lemma outbound_live_isn:
  "outbound_live fl v = (v1, c) \<Longrightarrow> client_isn v1 = client_isn v \<and>
     fflags v1 AND FL_ISN_VALID = fflags v AND FL_ISN_VALID"
  by (auto simp: outbound_live_def closed_out_keeps_isn split: if_splits)

lemma dom_insert_flow: "dom (kget (flows (snd (insert_flow env k v s)))) \<subseteq> insert k (dom (kget (flows s)))"
  using insert_flow_kget by fastforce

lemma dom_set_flow: "dom (kget (flows (set_flow k v s))) = insert k (dom (kget (flows s)))"
  by auto

text \<open>
  One statement of what the outbound handler does to the state: nothing, an update of
  the flow it found, or an insertion, and which of them may carry a fresh ISN.
\<close>

lemma handle_outbound_effect:
  assumes "handle_outbound env f k fl seq now s = (r, c, s')"
  obtains (same) "s' = s"
  | (upd) v0 v where "kget (flows s) k = Some v0" "s' = set_flow k v s"
      "lone_syn fl \<and> client_isn v = seq \<or>
       client_isn v = client_isn v0 \<and> fflags v AND FL_ISN_VALID = fflags v0 AND FL_ISN_VALID"
  | (ins) v where "s' = snd (insert_flow env k v s)"
      "fflags v AND FL_ISN_VALID \<noteq> 0 \<Longrightarrow> lone_syn fl \<and> client_isn v = seq"
proof -
  have s': "s' = snd (snd (handle_outbound env f k fl seq now s))" using assms by simp
  consider (syn) "lone_syn fl" | (rst) "\<not> lone_syn fl" "fl AND TCP_RST \<noteq> 0"
    | (live) v0 where "\<not> lone_syn fl" "fl AND TCP_RST = 0" "kget (flows s) k = Some v0" "\<not> expired f v0 now"
    | (oos) "\<not> lone_syn fl" "fl AND TCP_RST = 0" "\<nexists>v0. kget (flows s) k = Some v0 \<and> \<not> expired f v0 now"
    by blast
  then show thesis
  proof cases
    case syn
    then show ?thesis
      using upd ins s' by (cases "kget (flows s) k") (auto simp: handle_outbound_def lone_syn_def Let_def)
  next
    case rst
    then show ?thesis
      using same upd s'
      by (cases "kget (flows s) k") (auto simp: handle_outbound_def lone_syn_def Let_def closed_out_keeps_isn)
  next
    case live
    obtain v1 c1 where o: "outbound_live fl v0 = (v1, c1)" by fastforce
    from live have "s' = set_flow k (touch v1 now) s"
      unfolding s' by (simp add: handle_outbound_def lone_syn_def Let_def o)
    with live(3) outbound_live_isn [OF o] show ?thesis by (intro upd) auto
  next
    case oos
    then have "(case kget (flows s) k of None \<Rightarrow> False | Some v0 \<Rightarrow> \<not> expired f v0 now) = False"
      by (auto split: option.splits)
    with oos have "s' = s \<or>
        s' = snd (insert_flow env k \<lparr>client_isn = 0, last_seen = now, fstate = ST_CLOSING, fflags = FL_CLOSED_OUT\<rparr> s) \<or>
        s' = snd (insert_flow env k \<lparr>client_isn = 0, last_seen = now, fstate = ST_EST, fflags = 0\<rparr> s)"
      unfolding s' by (simp add: handle_outbound_def lone_syn_def Let_def case_prod_beta)
    moreover have "FL_CLOSED_OUT AND FL_ISN_VALID = 0" by (simp add: FL_ISN_VALID_def FL_CLOSED_OUT_def)
    ultimately have "s' = s \<or> (\<exists>v. s' = snd (insert_flow env k v s) \<and> fflags v AND FL_ISN_VALID = 0)"
      by (metis flow_val.select_convs(4) and_zero_eq bit.conj_zero_left)
    then show ?thesis using same ins by blast
  qed
qed

lemma handle_outbound_frame:
  assumes "handle_outbound env f k fl seq now s = (r, c, s')"
  shows "dom (kget (flows s')) \<subseteq> insert k (dom (kget (flows s))) \<and> udp_flows s' = udp_flows s \<and>
    l1cache s' = l1cache s \<and> isn_auth s' \<subseteq> isn_auth s \<union> (if lone_syn fl then {(k, seq)} else {})"
  using assms
proof (cases rule: handle_outbound_effect)
  case (upd v0 v)
  then show ?thesis using isn_auth_set_flow [of k v s] isn_auth_update [of s k v0 v] by auto
next
  case (ins v)
  then show ?thesis using isn_auth_insert_flow [of env k v s] dom_insert_flow [of env k v s] by auto
qed auto

text \<open>The inbound handler: every forward but a permitted SYN rests on a live flow.\<close>

lemma inbound_syn_frame:
  assumes "inbound_syn env f k now live s = (r, c, s')"
  shows "dom (kget (flows s')) \<subseteq> dom (kget (flows s)) \<union> (if syn_permitted f k s then {k} else {})"
    and "udp_flows s' = udp_flows s" and "l1cache s' = l1cache s" and "isn_auth s' \<subseteq> isn_auth s"
    and "r = ACT_FORWARD \<longrightarrow> syn_permitted f k s" and "c = ST_NONE"
proof -
  obtain b1 s1 where t1: "syn_token_ok env (inet_ip k) s = (b1, s1)" by fastforce
  obtain b2 s2 where t2: "syn_global_ok env s1 = (b2, s2)" by fastforce
  have s1: "flows s1 = flows s" "udp_flows s1 = udp_flows s" "l1cache s1 = l1cache s"
    using t1 tbkt_charge_sel by (metis snd_conv syn_token_ok_def)+
  have s2: "flows s2 = flows s" "udp_flows s2 = udp_flows s" "l1cache s2 = l1cache s"
    using t2 s1 tbkt_charge_sel by (metis snd_conv syn_global_ok_def)+
  let ?nv = "\<lparr>client_isn = 0, last_seen = now, fstate = ST_SYN_RCVD, fflags = 0\<rparr>"
  have "r = ACT_FORWARD \<and> syn_permitted f k s \<and> s' = snd (insert_flow env k ?nv s2) \<or>
        (r = ACT_FORWARD \<longrightarrow> syn_permitted f k s) \<and> s' \<in> {s, s1, s2}" and c: "c = ST_NONE"
    using assms by (auto simp: inbound_syn_def t1 t2 split: if_splits bool.splits)
  moreover have "isn_auth s1 = isn_auth s" "isn_auth s2 = isn_auth s" by (simp_all add: isn_auth_def s1 s2)
  moreover have "dom (kget (flows (snd (insert_flow env k ?nv s2)))) \<subseteq> insert k (dom (kget (flows s)))"
    using dom_insert_flow [of env k ?nv s2] s2 by simp
  moreover have "isn_auth (snd (insert_flow env k ?nv s2)) \<subseteq> isn_auth s2"
    using isn_auth_insert_flow [of env k ?nv s2] by simp
  ultimately show "dom (kget (flows s')) \<subseteq> dom (kget (flows s)) \<union> (if syn_permitted f k s then {k} else {})"
    "udp_flows s' = udp_flows s" "l1cache s' = l1cache s" "isn_auth s' \<subseteq> isn_auth s"
    "r = ACT_FORWARD \<longrightarrow> syn_permitted f k s" "c = ST_NONE"
    using s1 s2 by auto
qed

text \<open>On a live flow the inbound handler only rewrites that flow, and keeps its ISN.\<close>

definition keeps_isn :: "flow_key \<Rightarrow> flow_val \<Rightarrow> dp \<Rightarrow> dp \<Rightarrow> bool" where
  "keeps_isn k v s s' \<longleftrightarrow> s' = s \<or> (\<exists>w. s' = set_flow k w s \<and> client_isn w = client_isn v \<and> fflags w = fflags v)"

lemma inbound_keeps_isn:
  "keeps_isn k v s (snd (snd (inbound_synack k ack now v s)))"
  "keeps_isn k v s (snd (snd (inbound_rst k fl ack now v s)))"
  "keeps_isn k v s (snd (snd (inbound_data k fl now v s)))"
proof -
  have id: "set_flow k w s = set_flow k w' s" if "w = w'" for w w' using that by simp
  show "keeps_isn k v s (snd (snd (inbound_synack k ack now v s)))"
    unfolding keeps_isn_def inbound_synack_def by (auto intro: exI [of _ "touch _ _"])
  show "keeps_isn k v s (snd (snd (inbound_rst k fl ack now v s)))"
    unfolding keeps_isn_def inbound_rst_def by (auto intro: exI [of _ "touch _ _"])
  show "keeps_isn k v s (snd (snd (inbound_data k fl now v s)))"
    unfolding keeps_isn_def inbound_data_def Let_def by (auto intro: exI [of _ "touch _ _"])
qed

lemma keeps_isn_frame:
  assumes "keeps_isn k v s s'" and "kget (flows s) k = Some v"
  shows "dom (kget (flows s')) = dom (kget (flows s)) \<and> udp_flows s' = udp_flows s \<and> l1cache s' = l1cache s \<and>
     isn_auth s' \<subseteq> isn_auth s"
proof -
  from assms(1) consider "s' = s" | w where "s' = set_flow k w s" "client_isn w = client_isn v" "fflags w = fflags v"
    unfolding keeps_isn_def by blast
  then show ?thesis
  proof cases
    case 2
    have "isn_auth (set_flow k w s) \<subseteq> isn_auth s" by (rule isn_auth_update [OF assms(2)]) (simp_all add: 2)
    moreover have "dom (kget (flows (set_flow k w s))) = dom (kget (flows s))"
      unfolding dom_set_flow using assms(2) by auto
    ultimately show ?thesis using 2 by simp
  qed simp
qed

lemma handle_inbound_frame:
  assumes "handle_inbound env f k fl ack now s = (r, c, s')"
  shows "dom (kget (flows s')) \<subseteq> dom (kget (flows s)) \<union> (if lone_syn fl \<and> syn_permitted f k s then {k} else {}) \<and>
    udp_flows s' = udp_flows s \<and> l1cache s' = l1cache s \<and> isn_auth s' \<subseteq> isn_auth s \<and>
    (r = ACT_FORWARD \<longrightarrow> live_flow f k now (flows s) \<noteq> None \<or> lone_syn fl \<and> syn_permitted f k s) \<and>
    (c \<noteq> ST_NONE \<longrightarrow> k \<in> dom (kget (flows s)))"
proof (cases "lone_syn fl \<and> \<not> syn_ack fl")
  case True
  then have "handle_inbound env f k fl ack now s = inbound_syn env f k now (live_flow f k now (flows s) \<noteq> None) s"
    by (simp add: handle_inbound_def lone_syn_def syn_ack_def Let_def syn_neq_synack)
  with assms have "inbound_syn env f k now (live_flow f k now (flows s) \<noteq> None) s = (r, c, s')" by simp
  from inbound_syn_frame [OF this] True show ?thesis by auto
next
  case False
  show ?thesis
  proof (cases "live_flow f k now (flows s)")
    case None
    then have "s' = s \<and> r \<noteq> ACT_FORWARD \<and> c = ST_NONE"
      using assms False by (auto simp: handle_inbound_def lone_syn_def syn_ack_def Let_def split: if_splits)
    then show ?thesis by auto
  next
    case (Some v)
    then have k: "kget (flows s) k = Some v" by (simp add: live_flow_Some)
    have "handle_inbound env f k fl ack now s \<in>
        {inbound_synack k ack now v s, inbound_rst k fl ack now v s, inbound_data k fl now v s}"
      using Some False by (auto simp: handle_inbound_def lone_syn_def syn_ack_def Let_def)
    then have "keeps_isn k v s (snd (snd (handle_inbound env f k fl ack now s)))"
      using inbound_keeps_isn [of k v s] by auto
    with assms have "keeps_isn k v s s'" by simp
    from keeps_isn_frame [OF this k] Some k show ?thesis by auto
  qed
qed

lemma handle_outbound_udp_frame:
  assumes "handle_outbound_udp env k now s = (r, c, s')"
  shows "dom (kget (udp_flows s')) \<subseteq> insert k (dom (kget (udp_flows s))) \<and> flows s' = flows s \<and> l1cache s' = l1cache s"
proof (cases "kget (udp_flows s) k")
  case None
  let ?nv = "\<lparr>client_isn = 0, last_seen = now, fstate = ST_UDP, fflags = 0\<rparr>"
  show ?thesis
    using assms None lru_put_dom [of "udp_upd env" k ?nv "udp_flows s"]
    by (cases "lru_put (udp_upd env) k ?nv (udp_flows s)") (fastforce simp: handle_outbound_udp_def)+
next
  case (Some v)
  then have "s' = set_udp k (touch v now) s" using assms by (simp add: handle_outbound_udp_def)
  then show ?thesis by auto
qed

lemma handle_inbound_udp_frame:
  assumes "handle_inbound_udp f k now s = (r, c, s')"
  shows "dom (kget (udp_flows s')) = dom (kget (udp_flows s)) \<and> flows s' = flows s \<and> l1cache s' = l1cache s \<and>
    (r = ACT_FORWARD \<longrightarrow> live_flow f k now (udp_flows s) \<noteq> None \<or>
       allow_inbound_servers f \<noteq> 0 \<and> kget (server_allow s) (srv_key k) \<noteq> None) \<and>
    (c \<noteq> ST_NONE \<longrightarrow> k \<in> dom (kget (udp_flows s)))"
proof (cases "live_flow f k now (udp_flows s)")
  case None
  then show ?thesis using assms by (auto simp: handle_inbound_udp_def split: if_splits)
next
  case (Some v)
  then have k: "kget (udp_flows s) k = Some v" by (simp add: live_flow_Some)
  from Some assms have "s' = set_udp k (touch v now) s" by (simp add: handle_inbound_udp_def)
  moreover have "dom (kget (udp_flows (set_udp k (touch v now) s))) = dom (kget (udp_flows s))"
    using k by (auto split: if_splits)
  ultimately show ?thesis using Some k by auto
qed

section \<open>Effects of the program\<close>

definition enforcing :: "dp \<Rightarrow> bool" where
  "enforcing s \<longleftrightarrow> (case features s of None \<Rightarrow> False | Some f \<Rightarrow> mode f = MODE_ENFORCE)"

definition permits_syn :: "flow_key \<Rightarrow> dp \<Rightarrow> bool" where
  "permits_syn k s \<longleftrightarrow> (case features s of None \<Rightarrow> False | Some f \<Rightarrow> syn_permitted f k s)"

definition permits_udp :: "flow_key \<Rightarrow> dp \<Rightarrow> bool" where
  "permits_udp k s \<longleftrightarrow> (case features s of None \<Rightarrow> False
     | Some f \<Rightarrow> allow_inbound_servers f \<noteq> 0 \<and> kget (server_allow s) (srv_key k) \<noteq> None)"

lemma do_drop_enforce: "mode f = MODE_ENFORCE \<Longrightarrow> fst (do_drop ro env f v r l s) = XDP_DROP"
  by (simp add: do_drop_def Let_def)

lemma do_drop_tcp_enforce: "mode f = MODE_ENFORCE \<Longrightarrow> fst (do_drop_tcp ro env f v r l fr i t s) \<noteq> REDIRECT p"
  by (simp add: do_drop_tcp_def do_drop_enforce split: option.split)

lemma syn_permitted_cong:
  "server_allow s' = server_allow s \<Longrightarrow> syn_permitted f k s' = syn_permitted f k s"
  by (simp add: syn_permitted_def)

text \<open>What a state component may gain in one step, and the shared shape of the frame facts.\<close>

definition grows_tcp :: "flow_key set \<Rightarrow> (flow_key \<times> u32) set \<Rightarrow> dp \<Rightarrow> dp \<Rightarrow> bool" where
  "grows_tcp K I s s' \<longleftrightarrow> tcp_auth s' \<subseteq> tcp_auth s \<union> K \<and> isn_auth s' \<subseteq> isn_auth s \<union> I \<and> udp_auth s' \<subseteq> udp_auth s"

lemma grows_tcp_cong:
  "flows s' = flows t \<Longrightarrow> udp_flows s' = udp_flows t \<Longrightarrow> l1cache s' = l1cache t \<Longrightarrow> grows_tcp K I s t \<Longrightarrow> grows_tcp K I s s'"
  using l1_keys_cong [of s' t] by (simp add: grows_tcp_def tcp_auth_def udp_auth_def isn_auth_def)

lemma grows_tcp_refl: "flows s' = flows s \<Longrightarrow> udp_flows s' = udp_flows s \<Longrightarrow> l1cache s' = l1cache s \<Longrightarrow> grows_tcp K I s s'"
  using l1_keys_cong [of s' s] by (auto simp: grows_tcp_def tcp_auth_def udp_auth_def isn_auth_def)

lemma grows_tcp_start:
  "flows s0 = flows s \<Longrightarrow> udp_flows s0 = udp_flows s \<Longrightarrow> l1cache s0 = l1cache s \<Longrightarrow> grows_tcp K I s t \<Longrightarrow> grows_tcp K I s0 t"
  using l1_keys_cong [of s0 s] by (simp add: grows_tcp_def tcp_auth_def udp_auth_def isn_auth_def)

lemma grows_tcp_l1_put:
  assumes "grows_tcp K I s t" "k \<in> tcp_auth s \<union> K"
  shows "grows_tcp K I s (l1_put env i k ST_EST now t)"
proof -
  have "l1_keys ST_UDP (l1_put env i k ST_EST now t) \<subseteq> l1_keys ST_UDP t"
    using l1_keys_put [of ST_UDP env i k ST_EST now t] by (simp add: ST_UDP_def ST_EST_def)
  moreover have "l1_keys ST_EST (l1_put env i k ST_EST now t) \<subseteq> l1_keys ST_EST t \<union> {k}"
    using l1_keys_put [of ST_EST env i k ST_EST now t] by simp
  ultimately show ?thesis using assms by (auto simp: grows_tcp_def tcp_auth_def udp_auth_def isn_auth_def)
qed

definition tcp_opens :: "rodata \<Rightarrow> flow_key \<Rightarrow> u8 \<Rightarrow> dp \<Rightarrow> flow_key set" where
  "tcp_opens ro k fl s = (if ROLE_TRUSTED ro \<or> lone_syn fl \<and> permits_syn k s then {k} else {})"

definition isn_opens :: "rodata \<Rightarrow> flow_key \<Rightarrow> u8 \<Rightarrow> u32 \<Rightarrow> (flow_key \<times> u32) set" where
  "isn_opens ro k fl seq = (if ROLE_TRUSTED ro \<and> lone_syn fl then {(k, seq)} else {})"

lemma tcp_handler_grows:
  assumes "(if ROLE_TRUSTED ro then handle_outbound env f k fl seq now s
            else handle_inbound env f k fl ack now s) = (r, c, s')"
    and "features s = Some f"
  shows "grows_tcp (tcp_opens ro k fl s) (isn_opens ro k fl seq) s s' \<and>
     (c \<noteq> ST_NONE \<longrightarrow> k \<in> tcp_auth s \<union> tcp_opens ro k fl s)"
proof (cases "ROLE_TRUSTED ro")
  case True
  with assms(1) have "handle_outbound env f k fl seq now s = (r, c, s')" by simp
  from handle_outbound_frame [OF this] show ?thesis
    using True l1_keys_cong [of s' s]
    by (auto simp: grows_tcp_def tcp_auth_def udp_auth_def tcp_opens_def isn_opens_def split: if_splits)
next
  case False
  with assms(1) have "handle_inbound env f k fl ack now s = (r, c, s')" by simp
  from handle_inbound_frame [OF this] show ?thesis
    using False assms(2) l1_keys_cong [of s' s]
    by (auto simp: grows_tcp_def tcp_auth_def udp_auth_def tcp_opens_def isn_opens_def permits_syn_def split: if_splits)
qed

lemma tcp_decide_grows:
  assumes "features s = Some f"
  shows "grows_tcp (tcp_opens ro k fl s) (isn_opens ro k fl (swap32 (ld32 fr (tco + 4)))) s
     (snd (tcp_decide ro env f k fl vid len fr ipo tco s))"
proof -
  obtain r c s1 where h: "(if ROLE_TRUSTED ro then handle_outbound env f k fl (swap32 (ld32 fr (tco + 4))) (now_tick env) s
      else handle_inbound env f k fl (swap32 (ld32 fr (tco + 8))) (now_tick env) s) = (r, c, s1)"
    by (rule prod_cases3)
  note g = tcp_handler_grows [OF h assms]
  show ?thesis
  proof (cases r)
    case ACT_FORWARD
    let ?t = "if l1_eligible ro fl \<and> c = ST_EST then l1_put env (l1_index k (L1_MASK ro)) k ST_EST (now_tick env) s1 else s1"
    have "grows_tcp (tcp_opens ro k fl s) (isn_opens ro k fl (swap32 (ld32 fr (tco + 4)))) s ?t"
      using g grows_tcp_l1_put by (auto simp: ST_EST_def ST_NONE_def)
    then have "grows_tcp (tcp_opens ro k fl s) (isn_opens ro k fl (swap32 (ld32 fr (tco + 4)))) s
        (snd (do_forward ro env len ?t))"
      by (rule grows_tcp_cong [rotated 3]) simp_all
    then show ?thesis by (simp add: tcp_decide_def h ACT_FORWARD Let_def)
  next
    case (Reject reason)
    have "grows_tcp (tcp_opens ro k fl s) (isn_opens ro k fl (swap32 (ld32 fr (tco + 4)))) s
        (snd (do_drop_tcp ro env f vid reason len fr ipo tco s1))"
      by (rule grows_tcp_cong [of _ s1]) (simp_all add: g)
    then show ?thesis by (simp add: tcp_decide_def h Reject Let_def)
  qed
qed

text \<open>The packets that are filtered as TCP segments of a flow.\<close>

lemma xdp_tcp_keyed_grows:
  "grows_tcp (tcp_opens ro k fl s) (isn_opens ro k fl (swap32 (ld32 fr (tco + 4)))) s
     (snd (xdp_tcp_keyed ro env k fl vid len fr ipo tco s))"
proof -
  define s1 where "s1 = (if ROLE_TRUSTED ro then s else monitor_flow env k IPPROTO_TCP len s)"
  have s1: "flows s1 = flows s" "udp_flows s1 = udp_flows s" "l1cache s1 = l1cache s"
    "features s1 = features s" "server_allow s1 = server_allow s" by (simp_all add: s1_def)
  have o: "tcp_opens ro k fl s1 = tcp_opens ro k fl s"
    by (simp add: tcp_opens_def permits_syn_def s1 syn_permitted_cong [of s1 s] split: option.split)
  have dec: "grows_tcp (tcp_opens ro k fl s) (isn_opens ro k fl (swap32 (ld32 fr (tco + 4)))) s
      (snd (tcp_decide ro env f k fl vid len fr ipo tco s1))" if "features s = Some f" for f
    using tcp_decide_grows [of s1 f ro k fl fr tco env vid len ipo] that s1 o
    by (auto intro: grows_tcp_start [OF s1(1-3) [symmetric]])
  show ?thesis
    unfolding xdp_tcp_keyed_def Let_def s1_def [symmetric]
    by (cases "features s") (auto simp: s1 intro!: grows_tcp_refl dec)
qed

lemma tcp_decide_guard:
  assumes "features s = Some f" "mode f = MODE_ENFORCE" "\<not> ROLE_TRUSTED ro"
    and "fst (tcp_decide ro env f k fl vid len fr ipo tco s) = REDIRECT p"
  shows "\<exists>c s'. handle_inbound env f k fl (swap32 (ld32 fr (tco + 8))) (now_tick env) s = (ACT_FORWARD, c, s')"
proof -
  obtain r c s1 where h: "handle_inbound env f k fl (swap32 (ld32 fr (tco + 8))) (now_tick env) s = (r, c, s1)"
    by (rule prod_cases3)
  then show ?thesis using assms do_drop_tcp_enforce
    by (cases r) (auto simp: tcp_decide_def Let_def)
qed

lemma xdp_tcp_keyed_guard:
  assumes "enforcing s" "\<not> ROLE_TRUSTED ro" "fst (xdp_tcp_keyed ro env k fl vid len fr ipo tco s) = REDIRECT p"
  shows "l1_eligible ro fl \<and> k \<in> l1_keys ST_EST s \<or>
     (\<exists>f s1 c s'. features s = Some f \<and> flows s1 = flows s \<and> server_allow s1 = server_allow s \<and>
        handle_inbound env f k fl (swap32 (ld32 fr (tco + 8))) (now_tick env) s1 = (ACT_FORWARD, c, s'))"
proof -
  define s1 where "s1 = monitor_flow env k IPPROTO_TCP len s"
  have s1: "flows s1 = flows s" "l1cache s1 = l1cache s" "features s1 = features s" "server_allow s1 = server_allow s"
    by (simp_all add: s1_def)
  from assms(1) obtain f where f: "features s = Some f" "mode f = MODE_ENFORCE"
    by (auto simp: enforcing_def split: option.splits)
  from assms(3) have "l1_eligible ro fl \<and> l1_hit env (l1_index k (L1_MASK ro)) k ST_EST (now_tick env) s1 \<or>
      fst (tcp_decide ro env f k fl vid len fr ipo tco s1) = REDIRECT p"
    using assms(2) f do_drop_tcp_enforce [OF f(2)]
    by (auto simp: xdp_tcp_keyed_def Let_def s1 simp flip: s1_def split: if_splits)
  then show ?thesis
  proof
    assume "l1_eligible ro fl \<and> l1_hit env (l1_index k (L1_MASK ro)) k ST_EST (now_tick env) s1"
    then show ?thesis using l1_hit_key l1_keys_cong [OF s1(2)] by blast
  next
    assume "fst (tcp_decide ro env f k fl vid len fr ipo tco s1) = REDIRECT p"
    from tcp_decide_guard [OF _ f(2) assms(2) this] f s1 show ?thesis by auto
  qed
qed

lemma xdp_tcp_keyed_auth:
  assumes "enforcing s" "\<not> ROLE_TRUSTED ro" "fst (xdp_tcp_keyed ro env k fl vid len fr ipo tco s) = REDIRECT p"
  shows "k \<in> tcp_auth s \<or> lone_syn fl \<and> permits_syn k s"
  using xdp_tcp_keyed_guard [OF assms]
proof
  assume "\<exists>f s1 c s'. features s = Some f \<and> flows s1 = flows s \<and> server_allow s1 = server_allow s \<and>
        handle_inbound env f k fl (swap32 (ld32 fr (tco + 8))) (now_tick env) s1 = (ACT_FORWARD, c, s')"
  then obtain f s1 c s' where f: "features s = Some f" "flows s1 = flows s" "server_allow s1 = server_allow s"
    and h: "handle_inbound env f k fl (swap32 (ld32 fr (tco + 8))) (now_tick env) s1 = (ACT_FORWARD, c, s')" by blast
  from handle_inbound_frame [OF h] f syn_permitted_cong [OF f(3)] show ?thesis
    by (auto simp: tcp_auth_def permits_syn_def live_flow_def split: option.splits)
qed (auto simp: tcp_auth_def)

section \<open>UDP\<close>

definition grows_udp :: "flow_key set \<Rightarrow> dp \<Rightarrow> dp \<Rightarrow> bool" where
  "grows_udp K s s' \<longleftrightarrow> udp_auth s' \<subseteq> udp_auth s \<union> K \<and> tcp_auth s' \<subseteq> tcp_auth s \<and> isn_auth s' \<subseteq> isn_auth s"

lemma grows_udp_l1_put:
  assumes "grows_udp K s t" "k \<in> udp_auth s \<union> K"
  shows "grows_udp K s (l1_put env i k ST_UDP now t)"
proof -
  have "l1_keys ST_EST (l1_put env i k ST_UDP now t) \<subseteq> l1_keys ST_EST t"
    using l1_keys_put [of ST_EST env i k ST_UDP now t] by (simp add: ST_UDP_def ST_EST_def)
  moreover have "l1_keys ST_UDP (l1_put env i k ST_UDP now t) \<subseteq> l1_keys ST_UDP t \<union> {k}"
    using l1_keys_put [of ST_UDP env i k ST_UDP now t] by simp
  ultimately show ?thesis using assms by (auto simp: grows_udp_def tcp_auth_def udp_auth_def isn_auth_def)
qed

lemma grows_udp_cong:
  "flows s' = flows t \<Longrightarrow> udp_flows s' = udp_flows t \<Longrightarrow> l1cache s' = l1cache t \<Longrightarrow> grows_udp K s t \<Longrightarrow> grows_udp K s s'"
  using l1_keys_cong [of s' t] by (simp add: grows_udp_def tcp_auth_def udp_auth_def isn_auth_def)

lemma grows_udp_refl: "flows s' = flows s \<Longrightarrow> udp_flows s' = udp_flows s \<Longrightarrow> l1cache s' = l1cache s \<Longrightarrow> grows_udp K s s'"
  using l1_keys_cong [of s' s] by (auto simp: grows_udp_def tcp_auth_def udp_auth_def isn_auth_def)

definition udp_opens :: "rodata \<Rightarrow> flow_key \<Rightarrow> flow_key set" where
  "udp_opens ro k = (if ROLE_TRUSTED ro then {k} else {})"

lemma udp_handler_grows:
  assumes "(if ROLE_TRUSTED ro then handle_outbound_udp env k now s1 else handle_inbound_udp f k now s1) = (r, c, s')"
    and "flows s1 = flows s" "udp_flows s1 = udp_flows s" "l1cache s1 = l1cache s"
  shows "grows_udp (udp_opens ro k) s s' \<and> (c \<noteq> ST_NONE \<longrightarrow> k \<in> udp_auth s \<union> udp_opens ro k)"
proof (cases "ROLE_TRUSTED ro")
  case True
  with assms(1) have "handle_outbound_udp env k now s1 = (r, c, s')" by simp
  from handle_outbound_udp_frame [OF this] show ?thesis
    using True assms(2-4) l1_keys_cong [of s' s] by (auto simp: grows_udp_def tcp_auth_def udp_auth_def udp_opens_def isn_auth_def)
next
  case False
  with assms(1) have "handle_inbound_udp f k now s1 = (r, c, s')" by simp
  from handle_inbound_udp_frame [OF this] show ?thesis
    using False assms(2-4) l1_keys_cong [of s' s] by (auto simp: grows_udp_def tcp_auth_def udp_auth_def udp_opens_def isn_auth_def)
qed

lemma xdp_udp_keyed_grows: "grows_udp (udp_opens ro k) s (snd (xdp_udp_keyed ro env f k vid len s))"
proof -
  define s1 where "s1 = (if ROLE_TRUSTED ro then s else monitor_flow env k IPPROTO_UDP len s)"
  have s1: "flows s1 = flows s" "udp_flows s1 = udp_flows s" "l1cache s1 = l1cache s" by (simp_all add: s1_def)
  obtain r c s2 where h: "(if ROLE_TRUSTED ro then handle_outbound_udp env k (now_tick env) s1
      else handle_inbound_udp f k (now_tick env) s1) = (r, c, s2)" by (rule prod_cases3)
  note g = udp_handler_grows [OF h s1]
  have l: "grows_udp (udp_opens ro k) s
      (if L1_MASK ro \<noteq> 0 \<and> c = ST_UDP then l1_put env (l1_index k (L1_MASK ro)) k ST_UDP (now_tick env) s2 else s2)"
    using g grows_udp_l1_put by (auto simp: ST_UDP_def ST_NONE_def)
  let ?t = "if L1_MASK ro \<noteq> 0 \<and> c = ST_UDP then l1_put env (l1_index k (L1_MASK ro)) k ST_UDP (now_tick env) s2 else s2"
  have fwd: "grows_udp (udp_opens ro k) s (snd (do_forward ro env len ?t))"
    by (rule grows_udp_cong [OF _ _ _ l]) simp_all
  have drp: "grows_udp (udp_opens ro k) s (snd (do_drop ro env f vid reason len s2))" for reason
    by (rule grows_udp_cong [of _ s2]) (simp_all add: g)
  have hit: "grows_udp (udp_opens ro k) s (snd (do_forward ro env len (sg_upd env h s1)))"
    "grows_udp (udp_opens ro k) s (snd (nontcp ro env len s1))" for h
    by (rule grows_udp_refl; simp add: s1)+
  show ?thesis
    unfolding xdp_udp_keyed_def Let_def s1_def [symmetric] h prod.case
    using fwd drp hit by (cases r) (simp_all split: if_split)
qed

lemma xdp_udp_keyed_auth:
  assumes "features s = Some f" "mode f = MODE_ENFORCE" "filter_udp f \<noteq> 0" "\<not> ROLE_TRUSTED ro"
    and "fst (xdp_udp_keyed ro env f k vid len s) = REDIRECT p"
  shows "k \<in> udp_auth s \<or> permits_udp k s"
proof -
  define s1 where "s1 = monitor_flow env k IPPROTO_UDP len s"
  have s1: "udp_flows s1 = udp_flows s" "l1cache s1 = l1cache s" "server_allow s1 = server_allow s" by (simp_all add: s1_def)
  obtain r c s2 where h: "handle_inbound_udp f k (now_tick env) s1 = (r, c, s2)" by (rule prod_cases3)
  from assms have "l1_hit env (l1_index k (L1_MASK ro)) k ST_UDP (now_tick env) s1 \<or> r = ACT_FORWARD"
    by (cases r) (auto simp: xdp_udp_keyed_def Let_def h do_drop_enforce simp flip: s1_def split: if_splits)
  then show ?thesis
  proof
    assume "l1_hit env (l1_index k (L1_MASK ro)) k ST_UDP (now_tick env) s1"
    from l1_hit_key [OF this] show ?thesis by (simp add: udp_auth_def l1_keys_cong [OF s1(2)])
  next
    assume "r = ACT_FORWARD"
    with handle_inbound_udp_frame [OF h] assms(1) s1 show ?thesis
      by (auto simp: udp_auth_def permits_udp_def live_flow_def split: option.splits)
  qed
qed

section \<open>Runs of the data path\<close>

text \<open>
  What happens to the maps: a packet on one of the two ports, a write of the control
  plane (policy, allowlist, monitored networks, monitor switches), or deletions from the
  flow tables, by the garbage collector or by an operator.
\<close>

record ctl_update =
  new_features :: feature_set
  new_allow :: "(bytes, u8) kmap"
  new_cidrs :: "(bytes, u8) kmap"
  new_enabled :: u32
  new_mask :: u32

datatype dp_event = Packet rodata kenv bytes | Control ctl_update | Expire "flow_key list" "flow_key list"

fun dp_step :: "dp_event \<Rightarrow> dp \<Rightarrow> xdp_action option \<times> dp" where
  "dp_step (Packet ro env fr) s = (case xdp_filter ro env fr s of (a, s') \<Rightarrow> (Some a, s'))"
| "dp_step (Control c) s = (None, s\<lparr>features := Some (new_features c), server_allow := new_allow c,
     flow_monitor_cidrs := new_cidrs c, FLOW_MONITOR_ENABLED := new_enabled c,
     FLOW_MONITOR_SAMPLE_MASK := new_mask c\<rparr>)"
| "dp_step (Expire ts us) s = (None, s\<lparr>flows := fold kdel ts (flows s), udp_flows := fold kdel us (udp_flows s)\<rparr>)"

primrec after_events :: "('e \<Rightarrow> 's \<Rightarrow> 'a \<times> 's) \<Rightarrow> 's \<Rightarrow> 'e list \<Rightarrow> 's" where
  "after_events st s [] = s"
| "after_events st s (e # es) = after_events st (snd (st e s)) es"

lemma after_events_append: "after_events st s (es @ fs) = after_events st (after_events st s es) fs"
  by (induction es arbitrary: s) simp_all

locale reply_filter =
  fixes step :: "'e \<Rightarrow> 's \<Rightarrow> 'a \<times> 's"
    and auth :: "'s \<Rightarrow> 'k set"
    and opens :: "'e \<Rightarrow> 's \<Rightarrow> 'k set"
    and reply :: "'e \<Rightarrow> 's \<Rightarrow> 'a \<Rightarrow> 'k option"
  assumes grow: "auth (snd (step e s)) \<subseteq> auth s \<union> opens e s"
    and guard: "reply e s (fst (step e s)) = Some k \<Longrightarrow> k \<in> auth s \<union> opens e s"
begin

lemma auth_after:
  "k \<in> auth (after_events step s es) \<Longrightarrow> k \<in> auth s \<or>
     (\<exists>j < length es. k \<in> opens (es ! j) (after_events step s (take j es)))"
proof (induction es arbitrary: s)
  case (Cons e es)
  from Cons.IH [of "snd (step e s)"] Cons.prems consider "k \<in> auth (snd (step e s))"
    | j where "j < length es" "k \<in> opens (es ! j) (after_events step (snd (step e s)) (take j es))" by auto
  then show ?case
  proof cases
    case 1
    then have "k \<in> auth s \<or> k \<in> opens e s" using grow by blast
    then show ?thesis by force
  next
    case (2 j)
    then have "Suc j < length (e # es) \<and> k \<in> opens ((e # es) ! Suc j) (after_events step s (take (Suc j) (e # es)))" by simp
    then show ?thesis by blast
  qed
qed simp

lemma reply_opened:
  assumes "auth s = {}" and "i < length es"
    and "reply (es ! i) (after_events step s (take i es)) (fst (step (es ! i) (after_events step s (take i es)))) = Some k"
  shows "\<exists>j \<le> i. k \<in> opens (es ! j) (after_events step s (take j es))"
proof -
  from guard [OF assms(3)] consider "k \<in> auth (after_events step s (take i es))"
    | "k \<in> opens (es ! i) (after_events step s (take i es))" by blast
  then show ?thesis
  proof cases
    case 1
    from auth_after [OF this] assms(1,2) obtain j where "j < i"
      and "k \<in> opens (take i es ! j) (after_events step s (take j (take i es)))" by auto
    then show ?thesis by (intro exI [of _ j]) (simp add: min_def)
  qed blast
qed

end

text \<open>The three instances: which tuples a packet may open, and which a reply answers.\<close>

fun opens_tcp :: "dp_event \<Rightarrow> dp \<Rightarrow> flow_key set" where
  "opens_tcp (Packet ro env fr) s = (case classify (ROLE_TRUSTED ro) fr of
     (vid, Tcp k fl ipo tco) \<Rightarrow> tcp_opens ro k fl s | _ \<Rightarrow> {})"
| "opens_tcp _ s = {}"

fun reply_tcp :: "dp_event \<Rightarrow> dp \<Rightarrow> xdp_action option \<Rightarrow> flow_key option" where
  "reply_tcp (Packet ro env fr) s (Some (REDIRECT p)) = (case classify (ROLE_TRUSTED ro) fr of
     (vid, Tcp k fl ipo tco) \<Rightarrow> if \<not> ROLE_TRUSTED ro \<and> enforcing s then Some k else None | _ \<Rightarrow> None)"
| "reply_tcp _ s _ = None"

fun opens_isn :: "dp_event \<Rightarrow> dp \<Rightarrow> (flow_key \<times> u32) set" where
  "opens_isn (Packet ro env fr) s = (case classify (ROLE_TRUSTED ro) fr of
     (vid, Tcp k fl ipo tco) \<Rightarrow> isn_opens ro k fl (swap32 (ld32 fr (tco + 4))) | _ \<Rightarrow> {})"
| "opens_isn _ s = {}"

fun reply_isn :: "dp_event \<Rightarrow> dp \<Rightarrow> xdp_action option \<Rightarrow> (flow_key \<times> u32) option" where
  "reply_isn (Packet ro env fr) s (Some (REDIRECT p)) = (case classify (ROLE_TRUSTED ro) fr of
     (vid, Tcp k fl ipo tco) \<Rightarrow>
       (case kget (flows s) k of
          Some v \<Rightarrow> if \<not> ROLE_TRUSTED ro \<and> enforcing s \<and> syn_ack fl \<and> fflags v AND FL_ISN_VALID \<noteq> 0
                    then Some (k, swap32 (ld32 fr (tco + 8)) - 1) else None
        | None \<Rightarrow> None)
   | _ \<Rightarrow> None)"
| "reply_isn _ s _ = None"

definition udp_enforcing :: "dp \<Rightarrow> bool" where
  "udp_enforcing s \<longleftrightarrow> (case features s of None \<Rightarrow> False | Some f \<Rightarrow> mode f = MODE_ENFORCE \<and> filter_udp f \<noteq> 0)"

fun opens_udp :: "dp_event \<Rightarrow> dp \<Rightarrow> flow_key set" where
  "opens_udp (Packet ro env fr) s = (case classify (ROLE_TRUSTED ro) fr of
     (vid, Udp k) \<Rightarrow> (if ROLE_TRUSTED ro \<or> permits_udp k s then {k} else {}) | _ \<Rightarrow> {})"
| "opens_udp _ s = {}"

fun reply_udp :: "dp_event \<Rightarrow> dp \<Rightarrow> xdp_action option \<Rightarrow> flow_key option" where
  "reply_udp (Packet ro env fr) s (Some (REDIRECT p)) = (case classify (ROLE_TRUSTED ro) fr of
     (vid, Udp k) \<Rightarrow> if \<not> ROLE_TRUSTED ro \<and> udp_enforcing s then Some k else None | _ \<Rightarrow> None)"
| "reply_udp _ s _ = None"

lemma kget_fold_kdel: "kget (fold kdel ks m) k = (if k \<in> set ks then None else kget m k)"
  by (induction ks arbitrary: m) auto

lemma auth_rx_account [simp]:
  "tcp_auth (rx_account env v l s) = tcp_auth s" "udp_auth (rx_account env v l s) = udp_auth s"
  "isn_auth (rx_account env v l s) = isn_auth s"
  using l1_keys_cong [of "rx_account env v l s" s] by (simp_all add: tcp_auth_def udp_auth_def isn_auth_def)

lemma permits_rx_account [simp]:
  "permits_syn k (rx_account env v l s) = permits_syn k s" "permits_udp k (rx_account env v l s) = permits_udp k s"
  by (simp_all add: permits_syn_def permits_udp_def syn_permitted_def split: option.split)

lemma tcp_opens_rx_account [simp]: "tcp_opens ro k fl (rx_account env v l s) = tcp_opens ro k fl s"
  by (simp add: tcp_opens_def)

text \<open>Per class: what the packet adds to the authorised tuples.\<close>

lemma class_action_quiet:
  assumes "\<And>k fl ipo tco. c \<noteq> Tcp k fl ipo tco" "\<And>k. c \<noteq> Udp k"
  shows "flows (snd (class_action ro env fr len vid c s)) = flows s \<and>
     udp_flows (snd (class_action ro env fr len vid c s)) = udp_flows s \<and>
     l1cache (snd (class_action ro env fr len vid c s)) = l1cache s"
proof (cases c)
  case Tcp
  with assms(1) show ?thesis by blast
next
  case Udp
  with assms(2) show ?thesis by blast
qed (simp_all split: option.split)

lemma class_action_grows:
  assumes "classify (ROLE_TRUSTED ro) fr = (vid, c)"
  shows "tcp_auth (snd (class_action ro env fr len vid c s)) \<subseteq> tcp_auth s \<union>
      (case c of Tcp k fl ipo tco \<Rightarrow> tcp_opens ro k fl s | _ \<Rightarrow> {}) \<and>
    isn_auth (snd (class_action ro env fr len vid c s)) \<subseteq> isn_auth s \<union>
      (case c of Tcp k fl ipo tco \<Rightarrow> isn_opens ro k fl (swap32 (ld32 fr (tco + 4))) | _ \<Rightarrow> {}) \<and>
    udp_auth (snd (class_action ro env fr len vid c s)) \<subseteq> udp_auth s \<union>
      (case c of Udp k \<Rightarrow> udp_opens ro k | _ \<Rightarrow> {})"
proof -
  consider (tcp) k fl ipo tco where "c = Tcp k fl ipo tco" | (udp) k where "c = Udp k"
    | (other) "\<And>k fl ipo tco. c \<noteq> Tcp k fl ipo tco" "\<And>k. c \<noteq> Udp k" by (cases c) auto
  then show ?thesis
  proof cases
    case tcp
    then show ?thesis using xdp_tcp_keyed_grows [of ro k fl s fr tco env vid len ipo] by (simp add: grows_tcp_def)
  next
    case udp
    then show ?thesis using xdp_udp_keyed_grows [of ro k s env _ vid len]
      by (cases "features s") (auto simp: grows_udp_def)
  next
    case other
    have "grows_tcp {} {} s (snd (class_action ro env fr len vid c s))"
      using class_action_quiet [OF other, of ro env fr len vid s] by (intro grows_tcp_refl) auto
    then show ?thesis by (auto simp: grows_tcp_def)
  qed
qed

lemma packet_grows:
  assumes "classify (ROLE_TRUSTED ro) fr = (vid, c)"
  shows "tcp_auth (snd (xdp_filter ro env fr s)) \<subseteq> tcp_auth s \<union>
      (case c of Tcp k fl ipo tco \<Rightarrow> tcp_opens ro k fl s | _ \<Rightarrow> {}) \<and>
    isn_auth (snd (xdp_filter ro env fr s)) \<subseteq> isn_auth s \<union>
      (case c of Tcp k fl ipo tco \<Rightarrow> isn_opens ro k fl (swap32 (ld32 fr (tco + 4))) | _ \<Rightarrow> {}) \<and>
    udp_auth (snd (xdp_filter ro env fr s)) \<subseteq> udp_auth s \<union> (case c of Udp k \<Rightarrow> udp_opens ro k | _ \<Rightarrow> {})"
  using class_action_grows [OF assms, of env "frame_len ro env fr" "rx_account env vid (frame_len ro env fr) s"]
  by (cases c) (simp_all add: xdp_filter_classified assms)

lemma control_shrinks:
  assumes "\<And>ro env fr. e \<noteq> Packet ro env fr"
  shows "tcp_auth (snd (dp_step e s)) \<subseteq> tcp_auth s \<and> isn_auth (snd (dp_step e s)) \<subseteq> isn_auth s \<and>
     udp_auth (snd (dp_step e s)) \<subseteq> udp_auth s"
proof (cases e)
  case Packet
  with assms show ?thesis by blast
qed (auto simp: tcp_auth_def udp_auth_def isn_auth_def l1_keys_def kget_fold_kdel dom_def split: if_splits)

lemma dp_step_grows:
  "tcp_auth (snd (dp_step e s)) \<subseteq> tcp_auth s \<union> opens_tcp e s"
  "isn_auth (snd (dp_step e s)) \<subseteq> isn_auth s \<union> opens_isn e s"
  "udp_auth (snd (dp_step e s)) \<subseteq> udp_auth s \<union> opens_udp e s"
proof (atomize (full), cases e)
  case (Packet ro env fr)
  obtain vid c where c: "classify (ROLE_TRUSTED ro) fr = (vid, c)" by fastforce
  have u: "(case c of Udp k \<Rightarrow> udp_opens ro k | _ \<Rightarrow> {}) \<subseteq> opens_udp e s"
    by (auto simp: Packet c udp_opens_def split: pclass.splits)
  have "snd (dp_step e s) = snd (xdp_filter ro env fr s)" by (simp add: Packet split: prod.split)
  then show "tcp_auth (snd (dp_step e s)) \<subseteq> tcp_auth s \<union> opens_tcp e s \<and>
      isn_auth (snd (dp_step e s)) \<subseteq> isn_auth s \<union> opens_isn e s \<and>
      udp_auth (snd (dp_step e s)) \<subseteq> udp_auth s \<union> opens_udp e s"
    using packet_grows [OF c, of env s] u by (auto simp: Packet c)
next
  case (Control u)
  then show "tcp_auth (snd (dp_step e s)) \<subseteq> tcp_auth s \<union> opens_tcp e s \<and>
      isn_auth (snd (dp_step e s)) \<subseteq> isn_auth s \<union> opens_isn e s \<and>
      udp_auth (snd (dp_step e s)) \<subseteq> udp_auth s \<union> opens_udp e s" using control_shrinks [of e s] by auto
next
  case (Expire ts us)
  then show "tcp_auth (snd (dp_step e s)) \<subseteq> tcp_auth s \<union> opens_tcp e s \<and>
      isn_auth (snd (dp_step e s)) \<subseteq> isn_auth s \<union> opens_isn e s \<and>
      udp_auth (snd (dp_step e s)) \<subseteq> udp_auth s \<union> opens_udp e s" using control_shrinks [of e s] by auto
qed

text \<open>A forwarded inbound segment, by the way it reached the verdict.\<close>

lemma reply_tcp_cases:
  assumes "reply_tcp e s (fst (dp_step e s)) = Some k"
  obtains ro env fr vid fl ipo tco p where "e = Packet ro env fr" "\<not> ROLE_TRUSTED ro" "enforcing s"
    "classify (ROLE_TRUSTED ro) fr = (vid, Tcp k fl ipo tco)"
    "fst (xdp_tcp_keyed ro env k fl vid (frame_len ro env fr) fr ipo tco
       (rx_account env vid (frame_len ro env fr) s)) = REDIRECT p"
proof -
  from assms obtain ro env fr where e: "e = Packet ro env fr" by (cases e) auto
  obtain vid c where c: "classify (ROLE_TRUSTED ro) fr = (vid, c)" by fastforce
  from assms obtain p where p: "fst (xdp_filter ro env fr s) = REDIRECT p"
    unfolding e by (cases "fst (xdp_filter ro env fr s)") (auto split: prod.splits)
  from assms c p obtain fl ipo tco where "c = Tcp k fl ipo tco" "\<not> ROLE_TRUSTED ro" "enforcing s"
    unfolding e by (auto split: prod.splits pclass.splits if_splits)
  then show thesis using that [OF e _ _ _ ] c p by (simp add: xdp_filter_classified)
qed

lemma enforcing_rx_account [simp]: "enforcing (rx_account env v l s) = enforcing s"
  by (simp add: enforcing_def)

interpretation tcp_replies: reply_filter dp_step tcp_auth opens_tcp reply_tcp
proof
  show "tcp_auth (snd (dp_step e s)) \<subseteq> tcp_auth s \<union> opens_tcp e s" for e s by (rule dp_step_grows)
  fix e s k
  assume "reply_tcp e s (fst (dp_step e s)) = Some k"
  then obtain ro env fr vid fl ipo tco p where e: "e = Packet ro env fr" "\<not> ROLE_TRUSTED ro" "enforcing s"
    "classify (ROLE_TRUSTED ro) fr = (vid, Tcp k fl ipo tco)"
    and a: "fst (xdp_tcp_keyed ro env k fl vid (frame_len ro env fr) fr ipo tco
       (rx_account env vid (frame_len ro env fr) s)) = REDIRECT p" by (rule reply_tcp_cases)
  have "k \<in> tcp_auth s \<or> lone_syn fl \<and> permits_syn k s"
    using xdp_tcp_keyed_auth [OF _ e(2) a] e(3) by simp
  then show "k \<in> tcp_auth s \<union> opens_tcp e s" using e by (auto simp: tcp_opens_def)
qed

interpretation udp_replies: reply_filter dp_step udp_auth opens_udp reply_udp
proof
  show "udp_auth (snd (dp_step e s)) \<subseteq> udp_auth s \<union> opens_udp e s" for e s by (rule dp_step_grows)
  fix e s k
  assume r: "reply_udp e s (fst (dp_step e s)) = Some k"
  then obtain ro env fr where e: "e = Packet ro env fr" by (cases e) auto
  obtain vid c where c: "classify (ROLE_TRUSTED ro) fr = (vid, c)" by fastforce
  from r obtain p where p: "fst (xdp_filter ro env fr s) = REDIRECT p"
    unfolding e by (cases "fst (xdp_filter ro env fr s)") (auto split: prod.splits)
  from r c p have u: "c = Udp k" "\<not> ROLE_TRUSTED ro" "udp_enforcing s"
    unfolding e by (auto split: prod.splits pclass.splits if_splits)
  then obtain f where f: "features s = Some f" "mode f = MODE_ENFORCE" "filter_udp f \<noteq> 0"
    by (auto simp: udp_enforcing_def split: option.splits)
  from c u have c': "classify False fr = (vid, Udp k)" by simp
  from p have "fst (xdp_udp_keyed ro env f k vid (frame_len ro env fr)
      (rx_account env vid (frame_len ro env fr) s)) = REDIRECT p"
    by (simp add: xdp_filter_classified c' u f)
  from xdp_udp_keyed_auth [OF _ f(2,3) u(2) this] f(1) have "k \<in> udp_auth s \<or> permits_udp k s" by simp
  then show "k \<in> udp_auth s \<union> opens_udp e s" using e c u by auto
qed

text \<open>A SYN-ACK is never served from the L1 cache: it reaches the handler, which checks the ISN.\<close>

lemma syn_ack_not_l1: "syn_ack fl \<Longrightarrow> \<not> l1_eligible ro fl"
proof
  assume "syn_ack fl" and "l1_eligible ro fl"
  then have "fl AND (TCP_SYN OR TCP_ACK) = TCP_SYN OR TCP_ACK" and "fl AND (TCP_SYN OR TCP_FIN OR TCP_RST) = 0"
    by (auto simp: syn_ack_def l1_eligible_def)
  then have "(fl AND (TCP_SYN OR TCP_ACK)) AND TCP_SYN = TCP_SYN" and "(fl AND (TCP_SYN OR TCP_FIN OR TCP_RST)) AND TCP_SYN = 0"
    by (simp_all add: TCP_SYN_def TCP_ACK_def)
  then have "fl AND TCP_SYN = TCP_SYN" and "fl AND TCP_SYN = 0"
    by (simp_all add: and.assoc TCP_SYN_def TCP_ACK_def TCP_FIN_def TCP_RST_def)
  then show False by (simp add: TCP_SYN_def)
qed

lemma inbound_synack_forward:
  assumes "handle_inbound env f k fl ack now s = (ACT_FORWARD, c, s')" "syn_ack fl"
  shows "\<exists>v. kget (flows s) k = Some v \<and> \<not> expired f v now \<and>
     (if fflags v AND FL_ISN_VALID \<noteq> 0 then ack = client_isn v + 1 else fstate v \<noteq> ST_SYN_SENT)"
  using assms
  by (auto simp: handle_inbound_def syn_ack_def inbound_synack_def Let_def live_flow_def split: option.splits if_splits)

lemma xdp_tcp_synack:
  assumes "enforcing s" "\<not> ROLE_TRUSTED ro" "syn_ack fl"
    and "fst (xdp_tcp_keyed ro env k fl vid len fr ipo tco s) = REDIRECT p"
  shows "\<exists>f v. features s = Some f \<and> kget (flows s) k = Some v \<and> \<not> expired f v (now_tick env) \<and>
     (if fflags v AND FL_ISN_VALID \<noteq> 0 then swap32 (ld32 fr (tco + 8)) = client_isn v + 1
      else fstate v \<noteq> ST_SYN_SENT)"
proof -
  from xdp_tcp_keyed_guard [OF assms(1,2,4)] syn_ack_not_l1 [OF assms(3)] obtain f s1 c s' where
    f: "features s = Some f" "flows s1 = flows s"
    and h: "handle_inbound env f k fl (swap32 (ld32 fr (tco + 8))) (now_tick env) s1 = (ACT_FORWARD, c, s')" by blast
  from inbound_synack_forward [OF h assms(3)] f show ?thesis by auto
qed

interpretation isn_replies: reply_filter dp_step isn_auth opens_isn reply_isn
proof
  show "isn_auth (snd (dp_step e s)) \<subseteq> isn_auth s \<union> opens_isn e s" for e s by (rule dp_step_grows)
  fix e s and q :: "flow_key \<times> u32"
  assume r: "reply_isn e s (fst (dp_step e s)) = Some q"
  then obtain ro env fr where e: "e = Packet ro env fr" by (cases e) auto
  obtain vid c where c: "classify (ROLE_TRUSTED ro) fr = (vid, c)" by fastforce
  from r obtain p where p: "fst (xdp_filter ro env fr s) = REDIRECT p"
    unfolding e by (cases "fst (xdp_filter ro env fr s)") (auto split: prod.splits)
  from r c p obtain k fl ipo tco v where u: "c = Tcp k fl ipo tco" "\<not> ROLE_TRUSTED ro" "enforcing s" "syn_ack fl"
    and v: "kget (flows s) k = Some v" "fflags v AND FL_ISN_VALID \<noteq> 0" "q = (k, swap32 (ld32 fr (tco + 8)) - 1)"
    unfolding e by (auto split: prod.splits pclass.splits if_splits option.splits)
  from p c u have "fst (xdp_tcp_keyed ro env k fl vid (frame_len ro env fr) fr ipo tco
       (rx_account env vid (frame_len ro env fr) s)) = REDIRECT p" by (simp add: xdp_filter_classified)
  from xdp_tcp_synack [OF _ u(2,4) this] u(3) v have "swap32 (ld32 fr (tco + 8)) = client_isn v + 1" by auto
  with v have "q \<in> isn_auth s" by (auto simp: isn_auth_def)
  then show "q \<in> isn_auth s \<union> opens_isn e s" by blast
qed

section \<open>A concrete data path\<close>

text \<open>Empty maps with an enforcing policy, the two ports, and a handshake, for the witnesses.\<close>

definition empty_dp :: dp where
  "empty_dp = \<lparr>flows = [], udp_flows = [], flow_monitor_cidrs = [], flow_monitor_counters = [],
     l1cache = (\<lambda>c i. \<lparr>l1_key = \<lparr>inet_ip = 0, host_ip = 0, inet_port = 0, host_port = 0, vlans = 0\<rparr>,
       l1_last_seen = 0, l1_state = 0\<rparr>), l1_entries = 1024, features = None, server_allow = [], synbkt = [],
     drop_reasons = (\<lambda>c r. 0),
     stats_cpu = (\<lambda>c. \<lparr>rx_pkts = 0, rx_bytes = 0, redir_pkts = 0, redir_bytes = 0, drop_pkts = 0, drop_bytes = 0,
       nonip_pkts = 0, nonip_bytes = 0, nontcp_pkts = 0, nontcp_bytes = 0, l1_hits = 0, rst_pkts = 0, rst_bytes = 0\<rparr>),
     stats_vlan = (\<lambda>c v. \<lparr>vs_pkts = 0, vs_bytes = 0, vs_drops = 0\<rparr>),
     FLOW_MONITOR_ENABLED = 0, FLOW_MONITOR_SAMPLE_MASK = 63\<rparr>"

definition enforce_policy :: feature_set where
  "enforce_policy = \<lparr>mode = 1, oos_out_strict = 0, allow_inbound_servers = 0, drop_frags = 1, drop_bad_flags = 1,
     filter_udp = 1, drop_vlan_deep = 0, drop_udp_frags = 0, reject_with_rst = 0, allow_inbound_syn = 0,
     ttl_syn = 10, ttl_est = 280, ttl_closing = 10, ttl_udp = 28\<rparr>"

definition sample_dp :: dp where "sample_dp = empty_dp\<lparr>features := Some enforce_policy\<rparr>"

definition sample_env :: kenv where
  "sample_env = \<lparr>cpu = 0, tick_ns = 0x100000000000, syn_ns = 0x100000000000, global_ns = 0x100000000000, prandom = 1, buff_len = 0,
     flow_upd = LruOk [], udp_upd = LruOk [], bkt_upd = LruOk [], global_upd = LruOk [], mon_upd = LruOk []\<rparr>"

definition trusted_port :: rodata where
  "trusted_port = \<lparr>ROLE_TRUSTED = True, PEER_IDX = 1, L1_MASK = 1023, MULTIBUF = False\<rparr>"
definition untrusted_port :: rodata where
  "untrusted_port = \<lparr>ROLE_TRUSTED = False, PEER_IDX = 0, L1_MASK = 1023, MULTIBUF = False\<rparr>"

definition sample_frame :: "u8 \<Rightarrow> bytes \<Rightarrow> bytes \<Rightarrow> bytes \<Rightarrow> bytes" where
  "sample_frame proto addrs ports l4 =
     [2,0,0,0,0,1, 2,0,0,0,0,2, 8,0, 0x45,0,0,40, 0,0,0,0, 64,proto,0,0] @ addrs @ ports @ l4"

definition syn_frame :: bytes where
  "syn_frame = sample_frame 6 [10,0,0,1, 192,0,2,9] [200,0, 0,80] [0,0,1,0, 0,0,0,0, 0x50,2,0,0, 0,0,0,0]"
definition synack_frame :: bytes where
  "synack_frame = sample_frame 6 [192,0,2,9, 10,0,0,1] [0,80, 200,0] [0,0,9,0, 0,0,1,1, 0x50,18,0,0, 0,0,0,0]"
definition sample_key :: flow_key where
  "sample_key = make_key True 0 syn_frame 14 34"
definition sample_run :: "dp_event list" where
  "sample_run = [Packet trusted_port sample_env syn_frame, Packet untrusted_port sample_env synack_frame]"

definition udp_frame :: bytes where
  "udp_frame = sample_frame 17 [10,0,0,1, 192,0,2,9] [200,0, 0,53] [0,8,0,0]"

definition udp_reply_frame :: bytes where
  "udp_reply_frame = sample_frame 17 [192,0,2,9, 10,0,0,1] [0,53, 200,0] [0,8,0,0]"

definition sample_udp_run :: "dp_event list" where
  "sample_udp_run = [Packet trusted_port sample_env udp_frame, Packet untrusted_port sample_env udp_reply_frame]"

lemma sample_dp_empty: "tcp_auth sample_dp = {}" "udp_auth sample_dp = {}" "isn_auth sample_dp = {}"
  by (simp_all add: tcp_auth_def udp_auth_def isn_auth_def l1_keys_def sample_dp_def empty_dp_def ST_EST_def ST_UDP_def)

section \<open>Properties of the data path\<close>

text \<open>C1: no unsolicited TCP. In every run of the data path from empty flow tables, over any
  sequence of packets on both ports, policy changes, map evictions and deletions: an
  inbound TCP segment that is forwarded while the policy enforces belongs to a tuple for
  which, at that event or an earlier one, a packet went out from the trusted side, or an
  inbound SYN was let in by the policy in force at that moment.\<close>

theorem no_unsolicited_tcp:
  assumes "tcp_auth s = {}" and "i < length es"
    and "reply_tcp (es ! i) (after_events dp_step s (take i es))
           (fst (dp_step (es ! i) (after_events dp_step s (take i es)))) = Some k"
  shows "\<exists>j \<le> i. k \<in> opens_tcp (es ! j) (after_events dp_step s (take j es))"
  using assms by (rule tcp_replies.reply_opened)

theorem no_unsolicited_tcp_witness:
  "reply_tcp (sample_run ! 1) (after_events dp_step sample_dp (take 1 sample_run))
     (fst (dp_step (sample_run ! 1) (after_events dp_step sample_dp (take 1 sample_run)))) = Some sample_key \<and>
   (\<exists>j \<le> 1. sample_key \<in> opens_tcp (sample_run ! j) (after_events dp_step sample_dp (take j sample_run)))"
proof -
  have r: "reply_tcp (sample_run ! 1) (after_events dp_step sample_dp (take 1 sample_run))
      (fst (dp_step (sample_run ! 1) (after_events dp_step sample_dp (take 1 sample_run)))) = Some sample_key"
    by code_simp
  have "1 < length sample_run" by (simp add: sample_run_def)
  from no_unsolicited_tcp [OF sample_dp_empty(1) this r] r show ?thesis by blast
qed

text \<open>C5: no unsolicited UDP: the same for UDP datagrams under UDP filtering, where an
  inbound datagram without an earlier outbound one must be addressed to an allowlisted
  server.\<close>

theorem no_unsolicited_udp:
  assumes "udp_auth s = {}" and "i < length es"
    and "reply_udp (es ! i) (after_events dp_step s (take i es))
           (fst (dp_step (es ! i) (after_events dp_step s (take i es)))) = Some k"
  shows "\<exists>j \<le> i. k \<in> opens_udp (es ! j) (after_events dp_step s (take j es))"
  using assms by (rule udp_replies.reply_opened)

theorem no_unsolicited_udp_witness:
  "\<exists>k. reply_udp (sample_udp_run ! 1) (after_events dp_step sample_dp (take 1 sample_udp_run))
     (fst (dp_step (sample_udp_run ! 1) (after_events dp_step sample_dp (take 1 sample_udp_run)))) = Some k \<and>
   (\<exists>j \<le> 1. k \<in> opens_udp (sample_udp_run ! j) (after_events dp_step sample_dp (take j sample_udp_run)))"
proof -
  have r: "reply_udp (sample_udp_run ! 1) (after_events dp_step sample_dp (take 1 sample_udp_run))
      (fst (dp_step (sample_udp_run ! 1) (after_events dp_step sample_dp (take 1 sample_udp_run)))) =
      Some (make_key True 0 udp_frame 14 34)"
    by code_simp
  have "1 < length sample_udp_run" by (simp add: sample_udp_run_def)
  from no_unsolicited_udp [OF sample_dp_empty(2) this r] r show ?thesis by blast
qed

text \<open>C6: every SYN-ACK forwarded to a protected host for a flow with a recorded initial
  sequence number acknowledges the sequence number of a SYN that the trusted side really
  sent for this tuple earlier in the run.\<close>

theorem synack_answers_syn:
  assumes "isn_auth s = {}" and "i < length es"
    and "reply_isn (es ! i) (after_events dp_step s (take i es))
           (fst (dp_step (es ! i) (after_events dp_step s (take i es)))) = Some (k, isn)"
  shows "\<exists>j \<le> i. (k, isn) \<in> opens_isn (es ! j) (after_events dp_step s (take j es))"
  using assms by (rule isn_replies.reply_opened)

theorem synack_answers_syn_witness:
  "reply_isn (sample_run ! 1) (after_events dp_step sample_dp (take 1 sample_run))
     (fst (dp_step (sample_run ! 1) (after_events dp_step sample_dp (take 1 sample_run)))) = Some (sample_key, 256) \<and>
   (\<exists>j \<le> 1. (sample_key, 256) \<in> opens_isn (sample_run ! j) (after_events dp_step sample_dp (take j sample_run)))"
proof -
  have r: "reply_isn (sample_run ! 1) (after_events dp_step sample_dp (take 1 sample_run))
      (fst (dp_step (sample_run ! 1) (after_events dp_step sample_dp (take 1 sample_run)))) = Some (sample_key, 256)"
    by code_simp
  have "1 < length sample_run" by (simp add: sample_run_def)
  from synack_answers_syn [OF sample_dp_empty(3) this r] r show ?thesis by blast
qed

text \<open>C2: the headline check of one packet: an inbound SYN-ACK is forwarded under an
  enforcing policy only if its tuple has an unexpired flow, and for a flow with a valid
  ISN only if it acknowledges exactly ISN + 1.\<close>

theorem inbound_synack_checked:
  assumes "enforcing s" "\<not> ROLE_TRUSTED ro"
    and "classify (ROLE_TRUSTED ro) fr = (vid, Tcp k fl ipo tco)" "syn_ack fl"
    and "fst (xdp_filter ro env fr s) = REDIRECT p"
  shows "\<exists>f v. features s = Some f \<and> kget (flows s) k = Some v \<and> \<not> expired f v (now_tick env) \<and>
     (if fflags v AND FL_ISN_VALID \<noteq> 0 then swap32 (ld32 fr (tco + 8)) = client_isn v + 1
      else fstate v \<noteq> ST_SYN_SENT)"
  using xdp_tcp_synack [of "rx_account env vid (frame_len ro env fr) s" ro fl env k vid "frame_len ro env fr" fr ipo tco p] assms
  by (simp add: xdp_filter_classified)

theorem inbound_synack_checked_witness:
  "let s = snd (dp_step (Packet trusted_port sample_env syn_frame) sample_dp) in
   fst (xdp_filter untrusted_port sample_env synack_frame s) = REDIRECT 0 \<and>
   (\<exists>f v. features s = Some f \<and> kget (flows s) sample_key = Some v \<and> \<not> expired f v (now_tick sample_env) \<and>
     (if fflags v AND FL_ISN_VALID \<noteq> 0 then swap32 (ld32 synack_frame (34 + 8)) = client_isn v + 1
      else fstate v \<noteq> ST_SYN_SENT))"
proof -
  let ?s = "snd (dp_step (Packet trusted_port sample_env syn_frame) sample_dp)"
  have e: "enforcing ?s" by code_simp
  have u: "\<not> ROLE_TRUSTED untrusted_port" by (simp add: untrusted_port_def)
  have c: "classify (ROLE_TRUSTED untrusted_port) synack_frame = (0, Tcp sample_key 18 14 34)" by code_simp
  have f: "syn_ack 18" by (simp add: syn_ack_def TCP_SYN_def TCP_ACK_def)
  have r: "fst (xdp_filter untrusted_port sample_env synack_frame ?s) = REDIRECT 0" by code_simp
  from inbound_synack_checked [OF e u c f r] r show ?thesis unfolding Let_def by blast
qed

end
