(* ===== verification/Bpf_Policy.thy ===== *)
theory Bpf_Policy
  imports Bpf_Safety
begin

text \<open>
  Further properties of the data path: monitor mode, the L1 fast path's flag argument,
  expiry under clock skew, allocation by inbound packets, recovery from spoofed resets,
  the direction-independent key, the SYN token buckets, and the RST replies.
\<close>

section \<open>Monitor mode\<close>

lemma do_drop_monitor: "mode f \<noteq> MODE_ENFORCE \<Longrightarrow> fst (do_drop ro env f v r l s) = REDIRECT (PEER_IDX ro)"
  by (simp add: do_drop_def Let_def)

lemma do_drop_tcp_monitor:
  "mode f \<noteq> MODE_ENFORCE \<Longrightarrow> fst (do_drop_tcp ro env f v r l fr i t s) = REDIRECT (PEER_IDX ro)"
  by (simp add: do_drop_tcp_def do_drop_monitor)

lemma tcp_decide_monitor:
  "mode f \<noteq> MODE_ENFORCE \<Longrightarrow> fst (tcp_decide ro env f k fl vid len fr ipo tco s) = REDIRECT (PEER_IDX ro)"
  by (simp add: tcp_decide_def Let_def do_drop_tcp_monitor split: prod.split verdict.split)

lemma xdp_tcp_keyed_monitor:
  "(\<And>f. features s = Some f \<Longrightarrow> mode f \<noteq> MODE_ENFORCE) \<Longrightarrow>
     fst (xdp_tcp_keyed ro env k fl vid len fr ipo tco s) = REDIRECT (PEER_IDX ro)"
  by (simp add: xdp_tcp_keyed_def Let_def do_drop_tcp_monitor tcp_decide_monitor split: option.split)

lemma xdp_udp_keyed_monitor:
  "mode f \<noteq> MODE_ENFORCE \<Longrightarrow> fst (xdp_udp_keyed ro env f k vid len s) = REDIRECT (PEER_IDX ro)"
  by (simp add: xdp_udp_keyed_def Let_def do_drop_monitor nontcp_def split: prod.split verdict.split)

lemma class_action_monitor:
  assumes "\<And>f. features s = Some f \<Longrightarrow> mode f \<noteq> MODE_ENFORCE"
  shows "fst (class_action ro env fr len vid c s) = REDIRECT (PEER_IDX ro)"
  using assms
  by (cases c) (simp_all add: do_drop_lazy_def do_drop_monitor nonip_def nontcp_def xdp_tcp_keyed_monitor
      xdp_udp_keyed_monitor split: option.split)

section \<open>Flags\<close>

lemma and_eq_self_contra:
  assumes "fl AND m = 0" and "fl AND x = y" and "y AND m \<noteq> 0"
  shows False
proof -
  have "y AND m = (fl AND m) AND x" unfolding assms(2) [symmetric] by (simp add: and.assoc and.commute and.left_commute)
  with assms show False by simp
qed

lemma l1_eligible_not_bad: "l1_eligible ro fl \<Longrightarrow> \<not> bad_flags fl"
proof
  assume l: "l1_eligible ro fl" and b: "bad_flags fl"
  from l have m: "fl AND 7 = 0" and a: "fl AND 16 \<noteq> 0"
    by (auto simp: l1_eligible_def TCP_SYN_def TCP_FIN_def TCP_RST_def TCP_ACK_def)
  from a have "fl \<noteq> 0" by auto
  with b show False
    using and_eq_self_contra [where x = 3 and y = 3, OF m] and_eq_self_contra [where x = 6 and y = 6, OF m]
      and_eq_self_contra [where x = "0x29" and y = "0x29", OF m] and_eq_self_contra [where x = "0x11" and y = 1, OF m]
    by (auto simp: bad_flags_def TCP_SYN_def TCP_FIN_def TCP_RST_def TCP_ACK_def TCP_PSH_def TCP_URG_def split: if_splits)
qed

section \<open>Expiry\<close>

lemma expired_nat: "expired f v now \<longleftrightarrow> unat (ttl_for f (fstate v)) < unat now - unat (last_seen v)"
proof (cases "now < last_seen v")
  case True
  then show ?thesis by (simp add: expired_def word_less_nat_alt)
next
  case False
  then have "unat (now - last_seen v) = unat now - unat (last_seen v)" by (intro unat_sub) (simp add: not_less)
  with False show ?thesis by (simp add: expired_def word_less_nat_alt)
qed

section \<open>Token buckets\<close>

definition burst_of :: "u64 \<Rightarrow> u64" where
  "burst_of rate = rate * 2 * 1000"

lemma tbkt_refill_sel:
  assumes "tokens b \<le> burst_of rate"
  shows "tokens (tbkt_refill rate t b) \<le> burst_of rate \<and>
     unat (tokens b) \<le> unat (tokens (tbkt_refill rate t b)) \<and>
     unat (ts_ns b) \<le> unat (ts_ns (tbkt_refill rate t b)) \<and>
     unat (tokens (tbkt_refill rate t b)) \<le>
       unat (tokens b) + (unat (ts_ns (tbkt_refill rate t b)) - unat (ts_ns b)) * unat rate div 2 ^ 20"
proof (cases "t > ts_ns b \<and> t - ts_ns b \<ge> push_bit 20 1")
  case False
  then have "tbkt_refill rate t b = b" by (auto simp: tbkt_refill_def Let_def)
  then show ?thesis using assms by simp
next
  case True
  define add where "add = drop_bit 20 ((t - ts_ns b) * rate)"
  define room where "room = burst_of rate - tokens b"
  define inc where "inc = (if add > room then room else add)"
  have d: "unat (t - ts_ns b) = unat t - unat (ts_ns b)" using True by (intro unat_sub) auto
  have ts: "ts_ns (tbkt_refill rate t b) = t" using True by (simp add: tbkt_refill_def Let_def)
  have r: "unat room = unat (burst_of rate) - unat (tokens b)"
    unfolding room_def using assms by (intro unat_sub)
  have i: "unat inc \<le> unat room" "unat inc \<le> unat add" by (auto simp: inc_def word_less_nat_alt)
  have "unat (tokens b) \<le> unat (burst_of rate)" using assms by (simp add: word_le_nat_alt)
  then have s: "unat (tokens b + inc) = unat (tokens b) + unat inc"
    using i(1) r unat_u64_less [of "burst_of rate"] by (intro unat_add_no_wrap) simp
  have "unat add = unat ((t - ts_ns b) * rate) div 2 ^ 20"
    by (simp add: add_def unat_drop_bit_eq drop_bit_eq_div unat_div)
  also have "\<dots> \<le> (unat t - unat (ts_ns b)) * unat rate div 2 ^ 20"
    using unat_mult_le [of "t - ts_ns b" rate] d by (intro div_le_mono) simp
  finally have a: "unat add \<le> (unat t - unat (ts_ns b)) * unat rate div 2 ^ 20" .
  have tk: "tokens (tbkt_refill rate t b) = (if tokens b < burst_of rate then tokens b + inc else tokens b)"
    using True by (simp add: tbkt_refill_def Let_def inc_def add_def room_def burst_of_def)
  show ?thesis
    using s i r a assms True by (auto simp: tk ts word_le_nat_alt word_less_nat_alt)
qed

text \<open>The verdicts of one bucket for a sequence of charges, and the bucket they leave.\<close>

fun tbkt_run :: "u64 \<Rightarrow> tbkt \<Rightarrow> u64 list \<Rightarrow> nat \<times> tbkt" where
  "tbkt_run rate b [] = (0, b)"
| "tbkt_run rate b (t # ts) =
     (case tbkt_spend (tbkt_refill rate t b) of (ok, b1) \<Rightarrow>
      case tbkt_run rate b1 ts of (n, b') \<Rightarrow> ((if ok then Suc n else n), b'))"

lemma div_add_le: "a div c + b div c \<le> (a + b) div (c::nat)"
  using div_add1_eq [of a b c] by linarith

lemma tbkt_spend_sel:
  assumes "tbkt_spend b = (ok, b')"
  shows "ts_ns b' = ts_ns b \<and> tokens b' \<le> tokens b \<and>
     unat (tokens b) = unat (tokens b') + (if ok then 1000 else 0)"
proof (cases "tokens b < 1000")
  case True
  then show ?thesis using assms by (simp add: tbkt_spend_def)
next
  case False
  then have le: "1000 \<le> tokens b" by simp
  then have n: "unat (tokens b - 1000) = unat (tokens b) - 1000" by (simp add: unat_sub)
  from le have "1000 \<le> unat (tokens b)" by (simp add: word_le_nat_alt)
  then show ?thesis using False assms n by (auto simp: tbkt_spend_def word_le_nat_alt)
qed

lemma tbkt_run_bound:
  "tokens b \<le> burst_of rate \<Longrightarrow> tbkt_run rate b ts = (n, b') \<Longrightarrow>
     tokens b' \<le> burst_of rate \<and> unat (ts_ns b) \<le> unat (ts_ns b') \<and>
     1000 * n + unat (tokens b') \<le> unat (tokens b) + (unat (ts_ns b') - unat (ts_ns b)) * unat rate div 2 ^ 20"
proof (induction ts arbitrary: b n)
  case (Cons t ts)
  let ?r = "tbkt_refill rate t b"
  obtain ok b1 where sp: "tbkt_spend ?r = (ok, b1)" by fastforce
  obtain m where m: "tbkt_run rate b1 ts = (m, b')" and n: "n = (if ok then Suc m else m)"
    using Cons.prems(2) by (auto simp: sp split: prod.splits)
  note r = tbkt_refill_sel [OF Cons.prems(1), of t]
  note s = tbkt_spend_sel [OF sp]
  have "tokens b1 \<le> burst_of rate" using r s by (meson order_trans)
  from Cons.IH [OF this m] have ih: "tokens b' \<le> burst_of rate" "unat (ts_ns b1) \<le> unat (ts_ns b')"
    "1000 * m + unat (tokens b') \<le> unat (tokens b1) + (unat (ts_ns b') - unat (ts_ns b1)) * unat rate div 2 ^ 20" by auto
  let ?d1 = "unat (ts_ns ?r) - unat (ts_ns b)" and ?d2 = "unat (ts_ns b') - unat (ts_ns ?r)"
  have "?d1 * unat rate div 2 ^ 20 + ?d2 * unat rate div 2 ^ 20 \<le> (?d1 * unat rate + ?d2 * unat rate) div 2 ^ 20"
    by (rule div_add_le)
  also have "?d1 * unat rate + ?d2 * unat rate = (unat (ts_ns b') - unat (ts_ns b)) * unat rate"
    using r ih(2) s by (simp flip: add_mult_distrib)
  finally show ?case using r ih s n by auto
qed simp

section \<open>Recovery from a spoofed reset\<close>

lemma outbound_repromotes:
  assumes "kget (flows s) k = Some v" "fstate v = ST_CLOSING" "fflags v AND FL_CLOSED_OUT = 0"
    "\<not> expired f v now" "fl AND (TCP_SYN OR TCP_RST OR TCP_FIN) = 0"
  shows "handle_outbound env f k fl seq now s =
    (ACT_FORWARD, ST_EST, set_flow k (touch (v\<lparr>fstate := ST_EST\<rparr>) now) s)"
proof -
  have m: "fl AND 7 = 0" using assms(5) by (simp add: TCP_SYN_def TCP_FIN_def TCP_RST_def)
  have "fl AND TCP_FIN = 0" "fl AND TCP_RST = 0" "fl AND (TCP_SYN OR TCP_ACK) \<noteq> TCP_SYN"
    using and_eq_self_contra [where x = "0x12" and y = 2, OF m] and.assoc [of fl 7 1] and.assoc [of fl 7 4] m
    by (auto simp: TCP_SYN_def TCP_FIN_def TCP_RST_def TCP_ACK_def)
  then show ?thesis using assms by (simp add: handle_outbound_def outbound_live_def Let_def)
qed

section \<open>Direction-independent keys\<close>

text \<open>The reply of a frame at the header level: addresses and ports exchanged.\<close>

definition answers :: "bytes \<Rightarrow> nat \<Rightarrow> nat \<Rightarrow> bytes \<Rightarrow> nat \<Rightarrow> nat \<Rightarrow> bool" where
  "answers fr ipo l4 fr' ipo' l4' \<longleftrightarrow>
     (\<forall>i < 4. byteAt fr' (ipo' + 12 + i) = byteAt fr (ipo + 16 + i) \<and> byteAt fr' (ipo' + 16 + i) = byteAt fr (ipo + 12 + i)) \<and>
     (\<forall>i < 2. byteAt fr' (l4' + i) = byteAt fr (l4 + 2 + i) \<and> byteAt fr' (l4' + 2 + i) = byteAt fr (l4 + i))"

lemma ld32_cong:
  assumes "\<And>i. i < 4 \<Longrightarrow> byteAt fr (p + i) = byteAt fr' (q + i)" shows "ld32 fr p = ld32 fr' q"
  using assms [of 0] assms [of 1] assms [of 2] assms [of 3] by (simp add: ld32_def)

lemma ld16_cong:
  assumes "\<And>i. i < 2 \<Longrightarrow> byteAt fr (p + i) = byteAt fr' (q + i)" shows "ld16 fr p = ld16 fr' q"
  using assms [of 0] assms [of 1] by (simp add: ld16_def)

section \<open>Properties\<close>

text \<open>C13: monitor mode never drops: unless a readable policy says enforce, every frame
  whatsoever is redirected unmodified to the peer port.\<close>

theorem monitor_never_drops:
  assumes "\<not> enforcing s"
  shows "fst (xdp_filter ro env fr s) = REDIRECT (PEER_IDX ro)"
proof -
  obtain vid c where c: "classify (ROLE_TRUSTED ro) fr = (vid, c)" by fastforce
  have "fst (class_action ro env fr l vid c (rx_account env vid l s)) = REDIRECT (PEER_IDX ro)" for l
    using assms by (intro class_action_monitor) (auto simp: enforcing_def)
  then show ?thesis by (simp add: xdp_filter_classified c)
qed

theorem monitor_never_drops_witness:
  "fst (xdp_filter untrusted_port sample_env synack_frame empty_dp) = REDIRECT 0"
proof -
  have "\<not> enforcing empty_dp" by (simp add: enforcing_def empty_dp_def)
  from monitor_never_drops [OF this] show ?thesis by (simp add: untrusted_port_def)
qed

text \<open>the fast path may skip the flag check: no segment that is eligible for the L1
  cache has a flag combination that \<open>bad_flags\<close> rejects, so for eligible segments the
  program behaves as if the check had been made.\<close>

theorem l1_skips_no_bad_flags:
  assumes "l1_eligible ro fl"
  shows "\<not> bad_flags fl \<and> \<not> lone_syn fl \<and> \<not> syn_ack fl"
proof -
  have m: "fl AND 7 = 0" using assms by (simp add: l1_eligible_def TCP_SYN_def TCP_FIN_def TCP_RST_def)
  show ?thesis
    using l1_eligible_not_bad [OF assms] syn_ack_not_l1 assms and_eq_self_contra [where x = "0x12" and y = 2, OF m]
    by (auto simp: lone_syn_def TCP_SYN_def TCP_ACK_def)
qed

theorem l1_skips_no_bad_flags_witness: "\<not> bad_flags 24 \<and> \<not> lone_syn 24 \<and> \<not> syn_ack 24"
  by (rule l1_skips_no_bad_flags [of untrusted_port]) code_simp

text \<open>expiry never underflows: a flow is expired exactly when the clock is ahead of its
  last activity by more than the TTL of its state; a stamp from the future (clock skew
  between CPUs) counts as fresh.\<close>

theorem expired_iff: "expired f v now \<longleftrightarrow> unat (last_seen v) + unat (ttl_for f (fstate v)) < unat now"
  unfolding expired_nat by auto

text \<open>spoofed inbound traffic allocates nothing: a packet on the untrusted port that is
  not an inbound SYN the policy lets in adds no entry to the TCP or UDP flow table, and
  records no sequence number.\<close>

theorem inbound_allocates_nothing:
  assumes "\<not> ROLE_TRUSTED ro"
    and "\<And>vid k fl ipo tco. classify False fr = (vid, Tcp k fl ipo tco) \<Longrightarrow> \<not> (lone_syn fl \<and> permits_syn k s)"
  shows "tcp_auth (snd (xdp_filter ro env fr s)) \<subseteq> tcp_auth s \<and> udp_auth (snd (xdp_filter ro env fr s)) \<subseteq> udp_auth s \<and>
     isn_auth (snd (xdp_filter ro env fr s)) \<subseteq> isn_auth s"
proof -
  obtain vid c where c: "classify (ROLE_TRUSTED ro) fr = (vid, c)" by fastforce
  have "classify False fr = (vid, c)" using c assms(1) by simp
  then have "(case c of Tcp k fl ipo tco \<Rightarrow> tcp_opens ro k fl s | _ \<Rightarrow> {}) = {}"
    "(case c of Tcp k fl ipo tco \<Rightarrow> isn_opens ro k fl (swap32 (ld32 fr (tco + 4))) | _ \<Rightarrow> {}) = {}"
    "(case c of Udp k \<Rightarrow> udp_opens ro k | _ \<Rightarrow> {}) = {}"
    using assms by (auto simp: tcp_opens_def isn_opens_def udp_opens_def split: pclass.splits)
  with packet_grows [OF c, of env s] show ?thesis by simp
qed

theorem inbound_allocates_nothing_witness:
  "tcp_auth (snd (xdp_filter untrusted_port sample_env synack_frame sample_dp)) \<subseteq> {}"
proof -
  have "classify False synack_frame = (0, Tcp sample_key 18 14 34)" by code_simp
  then have "\<not> (lone_syn fl \<and> permits_syn k sample_dp)" if "classify False synack_frame = (vid, Tcp k fl ipo tco)" for vid k fl ipo tco
    using that by (auto simp: lone_syn_def TCP_SYN_def TCP_ACK_def)
  from inbound_allocates_nothing [of untrusted_port synack_frame sample_dp sample_env, OF _ this] show ?thesis
    using sample_dp_empty by (simp add: untrusted_port_def)
qed

text \<open>a spoofed reset does not kill a connection: after an inbound RST on an established
  flow that was not being closed from inside, the next segment of the protected host
  within the drain time makes the flow established again.\<close>

theorem spoofed_reset_recovers:
  assumes "kget (flows s) k = Some v" "fstate v = ST_EST" "fflags v AND FL_CLOSED_OUT = 0" "\<not> expired f v t0"
    and rst: "rfl AND (TCP_SYN OR TCP_ACK) = 0" "rfl AND TCP_RST \<noteq> 0"
    and "fl AND (TCP_SYN OR TCP_RST OR TCP_FIN) = 0" "unat t1 \<le> unat t0 + unat (ttl_closing f)"
  shows "\<exists>w c s1 s2. handle_inbound env f k rfl ack t0 s = (ACT_FORWARD, ST_NONE, s1) \<and>
     handle_outbound env' f k fl seq t1 s1 = (ACT_FORWARD, c, s2) \<and>
     kget (flows s2) k = Some w \<and> fstate w = ST_EST \<and> client_isn w = client_isn v \<and> last_seen w = t1"
proof -
  let ?v1 = "touch (v\<lparr>fstate := ST_CLOSING\<rparr>) t0"
  have n: "ST_EST \<noteq> ST_SYN_SENT" by (simp add: ST_EST_def ST_SYN_SENT_def)
  have ns: "rfl AND (TCP_SYN OR TCP_ACK) \<noteq> TCP_SYN" "rfl AND (TCP_SYN OR TCP_ACK) \<noteq> TCP_SYN OR TCP_ACK"
    using rst(1) by (simp_all add: TCP_SYN_def TCP_ACK_def)
  have "live_flow f k t0 (flows s) = Some v" using assms by (simp add: live_flow_Some)
  then have i: "handle_inbound env f k rfl ack t0 s = (ACT_FORWARD, ST_NONE, set_flow k ?v1 s)"
    using rst ns assms(2) n by (simp add: handle_inbound_def inbound_rst_def Let_def)
  have "\<not> expired f ?v1 t1" using assms(8)
    by (simp add: expired_nat ttl_for_def ST_CLOSING_def ST_EST_def)
  then have o: "handle_outbound env' f k fl seq t1 (set_flow k ?v1 s) =
      (ACT_FORWARD, ST_EST, set_flow k (touch (?v1\<lparr>fstate := ST_EST\<rparr>) t1) (set_flow k ?v1 s))"
    using assms by (intro outbound_repromotes) simp_all
  show ?thesis
    by (rule exI [of _ "touch (?v1\<lparr>fstate := ST_EST\<rparr>) t1"], rule exI [of _ ST_EST],
        rule exI [of _ "set_flow k ?v1 s"],
        rule exI [of _ "set_flow k (touch (?v1\<lparr>fstate := ST_EST\<rparr>) t1) (set_flow k ?v1 s)"])
       (simp add: i o)
qed

theorem spoofed_reset_recovers_witness:
  "let v = \<lparr>client_isn = 256, last_seen = 100, fstate = ST_EST, fflags = FL_ISN_VALID\<rparr>;
       s = empty_dp\<lparr>flows := [(sample_key, v)]\<rparr>
   in \<exists>w c s1 s2. handle_inbound sample_env enforce_policy sample_key TCP_RST 0 101 s = (ACT_FORWARD, ST_NONE, s1) \<and>
     handle_outbound sample_env enforce_policy sample_key TCP_ACK 7 105 s1 = (ACT_FORWARD, c, s2) \<and>
     kget (flows s2) sample_key = Some w \<and> fstate w = ST_EST \<and> client_isn w = client_isn v \<and> last_seen w = 105"
  unfolding Let_def
  by (rule spoofed_reset_recovers)
     (simp_all add: expired_def ttl_for_def enforce_policy_def FL_ISN_VALID_def FL_CLOSED_OUT_def ST_EST_def
       TCP_RST_def TCP_SYN_def TCP_ACK_def TCP_FIN_def)



text \<open>the flow key is independent of the direction: the key the trusted port computes for
  a packet is the key the untrusted port computes for its answer, on the same VLANs.\<close>

theorem flow_key_symmetric:
  assumes "answers fr ipo l4 fr' ipo' l4'"
  shows "make_key False vl fr' ipo' l4' = make_key True vl fr ipo l4"
proof -
  have "ld32 fr' (ipo' + 12) = ld32 fr (ipo + 16)" "ld32 fr' (ipo' + 16) = ld32 fr (ipo + 12)"
    "ld16 fr' l4' = ld16 fr (l4 + 2)" "ld16 fr' (l4' + 2) = ld16 fr l4"
    using assms by (auto simp: answers_def intro!: ld32_cong ld16_cong)
  then show ?thesis by (simp add: make_key_def)
qed

theorem flow_key_symmetric_witness:
  "make_key False 7 synack_frame 14 34 = make_key True 7 syn_frame 14 34"
  by (rule flow_key_symmetric) code_simp

end
