(* ===== verification/Dataplane.thy ===== *)
theory Dataplane
  imports Config Bpf_Filter
begin

text \<open>
  The loader of \<open>internal/dataplane/loader.go\<close>: the conversion of a configuration into the
  live policy, adoption or creation of the pinned maps, \<open>Load\<close> with its two program
  instances and their attachment, the reconciliation of the allowlist and of the monitored
  networks, live reload, mode switching and detaching. The objects pinned under one pin
  directory are the record \<open>host\<close>; what the kernel and the operating system answer to
  each call is the record \<open>sysenv\<close>. The compiled BPF object is a parameter (it is
  generated by bpf2go): its map specifications and the names of its variables.
\<close>

section \<open>Ticks\<close>

definition nowShift :: nat where "nowShift = 30"

definition secToTicks :: "u32 \<Rightarrow> u32" where
  "secToTicks sec = (if sec = 0 then 0
     else (let ns = ucast sec * 1000000000 :: u64 in
           ucast (drop_bit nowShift (ns + push_bit nowShift 1 - 1))))"

definition ticksToSec :: "u32 \<Rightarrow> u32" where
  "ticksToSec ticks = ucast (push_bit nowShift (ucast ticks :: u64) div 1000000000)"

section \<open>Policy\<close>

definition boolU8 :: "bool \<Rightarrow> u8" where
  "boolU8 v = (if v then 1 else 0)"

definition boolU32 :: "bool \<Rightarrow> u32" where
  "boolU32 v = (if v then 1 else 0)"

definition featuresFrom :: "Config \<Rightarrow> feature_set" where
  "featuresFrom cfg =
     \<lparr>mode = (if Mode cfg = ''enforce'' then 1 else 0),
      oos_out_strict = boolU8 (OosStrict cfg),
      allow_inbound_servers = boolU8 (AllowInboundServers cfg),
      drop_frags = boolU8 (DropFrags cfg),
      drop_bad_flags = boolU8 (DropBadFlags cfg),
      filter_udp = boolU8 (FilterUDP cfg),
      drop_vlan_deep = boolU8 (DropVlanDeep cfg),
      drop_udp_frags = boolU8 (DropUDPFrags cfg),
      reject_with_rst = boolU8 (RejectWithRST cfg),
      allow_inbound_syn = boolU8 (AllowInboundSYN cfg),
      ttl_syn = secToTicks (TTLSyn cfg),
      ttl_est = secToTicks (TTLEst cfg),
      ttl_closing = secToTicks (TTLClosing cfg),
      ttl_udp = secToTicks (TTLUdp cfg)\<rparr>"

record LivePolicy =
  LpMode :: string
  LpOosStrict :: bool
  LpAllowInboundServers :: bool
  LpAllowInboundSYN :: bool
  LpDropFrags :: bool
  LpDropBadFlags :: bool
  LpFilterUDP :: bool
  LpDropVlanDeep :: bool
  LpDropUDPFrags :: bool
  LpRejectWithRST :: bool
  LpTTLSyn :: u32
  LpTTLEst :: u32
  LpTTLClosing :: u32
  LpTTLUdp :: u32

definition livePolicy :: "feature_set \<Rightarrow> LivePolicy" where
  "livePolicy fv =
     \<lparr>LpMode = (if mode fv = 1 then ''enforce'' else ''monitor''),
      LpOosStrict = (oos_out_strict fv \<noteq> 0),
      LpAllowInboundServers = (allow_inbound_servers fv \<noteq> 0),
      LpAllowInboundSYN = (allow_inbound_syn fv \<noteq> 0),
      LpDropFrags = (drop_frags fv \<noteq> 0), LpDropBadFlags = (drop_bad_flags fv \<noteq> 0),
      LpFilterUDP = (filter_udp fv \<noteq> 0), LpDropVlanDeep = (drop_vlan_deep fv \<noteq> 0),
      LpDropUDPFrags = (drop_udp_frags fv \<noteq> 0), LpRejectWithRST = (reject_with_rst fv \<noteq> 0),
      LpTTLSyn = ticksToSec (ttl_syn fv), LpTTLEst = ticksToSec (ttl_est fv),
      LpTTLClosing = ticksToSec (ttl_closing fv), LpTTLUdp = ticksToSec (ttl_udp fv)\<rparr>"

text \<open>\<open>srvKeyBytes\<close>: the address bytes, the port in network order, two zero bytes.\<close>

definition srvKeyBytes :: "ip \<Rightarrow> u16 \<Rightarrow> bytes" where
  "srvKeyBytes a port =
     (let b = (case to4 a of Some b \<Rightarrow> b | None \<Rightarrow> []) in
      take 4 (b @ replicate 4 0) @ [ucast (drop_bit 8 port), ucast port, 0, 0])"

section \<open>The pinned objects of one pin directory\<close>

record map_spec =
  ms_type :: nat
  ms_key_size :: u32
  ms_value_size :: u32
  ms_max_entries :: u32
  ms_flags :: u32

datatype attach_flag = XDPGenericMode | XDPDriverMode

record xdp_link =
  l_ifindex :: u32
  l_flags :: attach_flag
  l_prog :: rodata

record RuntimeState =
  TCPLive :: u64
  UDPLive :: u64
  LastGCUnixNano :: int
  DaemonStartUnixNano :: int

record host =
  h_dp :: dp
  h_tx :: "u32 \<rightharpoonup> u32"
  h_runtime :: RuntimeState
  h_pins :: "string \<rightharpoonup> map_spec"
  h_links :: "string \<rightharpoonup> xdp_link"

text \<open>
  The outcomes of the calls of one reconciliation: the iteration, each map operation, and
  the order in which Go ranges over the map of wanted keys.
\<close>

record sync_env =
  sy_iter_ok :: bool
  sy_ok :: "bytes map_op \<Rightarrow> bool"
  sy_order :: "bytes list \<Rightarrow> bytes list"

record sysenv =
  memlock_ok :: bool
  pin_mkdir_ok :: bool
  ifaces :: "string \<rightharpoonup> u32 \<times> int"
  bpf_object :: "(string \<rightharpoonup> map_spec) option"
  has_var :: "string \<Rightarrow> bool"
  stale_removed :: "string \<Rightarrow> bool"
  create_ok :: "string \<Rightarrow> bool"
  publish_ok :: bool
  tx_put_ok :: "u32 \<Rightarrow> bool"
  features_ok :: bool
  allow_env :: sync_env
  cidr_env :: sync_env
  prog_ok :: "bool \<Rightarrow> bool"
  link_update_ok :: "string \<Rightarrow> attach_flag \<Rightarrow> bool"
  link_attach_ok :: "string \<Rightarrow> attach_flag \<Rightarrow> bool"
  link_pin_ok :: "string \<Rightarrow> attach_flag \<Rightarrow> bool"
  now_nano :: int

datatype sync_error = SyncBadEntry string | SyncIterate | SyncOp "bytes map_op"

datatype load_error =
    ErrMemlock | ErrPinDir | ErrTrustedIface string | ErrUntrustedIface string | ErrSpec | ErrNilMapSpec
  | ErrNoVar string | ErrMissingMap string | ErrMap string | ErrTxPorts u32 | ErrFeatures
  | ErrSyncAllow sync_error | ErrSyncCIDRs sync_error | ErrProg bool | ErrProgVar bool string
  | ErrAttach string | ErrUpdateLink string | ErrPinLink string | ErrNotPinned string | ErrRemove string

section \<open>Creating and adopting maps\<close>

definition sharedMapNames :: "string list" where
  "sharedMapNames = [''flows'', ''udp_flows'', ''flow_monitor_cidrs'', ''flow_monitor_counters'', ''l1cache'',
     ''tx_ports'', ''features'', ''server_allow'', ''synbkt'', ''drop_reason'', ''stats_global'', ''stats_vlan'']"

definition runtimeMapName :: string where "runtimeMapName = ''runtime_state''"

definition zero_key :: flow_key where
  "zero_key = \<lparr>inet_ip = 0, host_ip = 0, inet_port = 0, host_port = 0, vlans = 0\<rparr>"

definition zero_stats :: stats_global where
  "zero_stats = \<lparr>rx_pkts = 0, rx_bytes = 0, redir_pkts = 0, redir_bytes = 0, drop_pkts = 0, drop_bytes = 0,
     nonip_pkts = 0, nonip_bytes = 0, nontcp_pkts = 0, nontcp_bytes = 0, l1_hits = 0, rst_pkts = 0, rst_bytes = 0\<rparr>"

definition zero_features :: feature_set where
  "zero_features = \<lparr>mode = 0, oos_out_strict = 0, allow_inbound_servers = 0, drop_frags = 0, drop_bad_flags = 0,
     filter_udp = 0, drop_vlan_deep = 0, drop_udp_frags = 0, reject_with_rst = 0, allow_inbound_syn = 0,
     ttl_syn = 0, ttl_est = 0, ttl_closing = 0, ttl_udp = 0\<rparr>"

text \<open>The contents of a map that was just created: empty, or zero for the array types.\<close>

definition fresh_map :: "string \<Rightarrow> map_spec \<Rightarrow> host \<Rightarrow> host" where
  "fresh_map name ms h =
     (let d = h_dp h in
      if name = ''flows'' then h\<lparr>h_dp := d\<lparr>flows := []\<rparr>\<rparr>
      else if name = ''udp_flows'' then h\<lparr>h_dp := d\<lparr>udp_flows := []\<rparr>\<rparr>
      else if name = ''flow_monitor_cidrs'' then h\<lparr>h_dp := d\<lparr>flow_monitor_cidrs := []\<rparr>\<rparr>
      else if name = ''flow_monitor_counters'' then h\<lparr>h_dp := d\<lparr>flow_monitor_counters := []\<rparr>\<rparr>
      else if name = ''l1cache'' then h\<lparr>h_dp := d\<lparr>l1_entries := ms_max_entries ms,
        l1cache := (\<lambda>c i. \<lparr>l1_key = zero_key, l1_last_seen = 0, l1_state = ST_NONE\<rparr>)\<rparr>\<rparr>
      else if name = ''tx_ports'' then h\<lparr>h_tx := Map.empty\<rparr>
      else if name = ''features'' then h\<lparr>h_dp := d\<lparr>features := Some zero_features\<rparr>\<rparr>
      else if name = ''server_allow'' then h\<lparr>h_dp := d\<lparr>server_allow := []\<rparr>\<rparr>
      else if name = ''synbkt'' then h\<lparr>h_dp := d\<lparr>synbkt := []\<rparr>\<rparr>
      else if name = ''drop_reason'' then h\<lparr>h_dp := d\<lparr>drop_reasons := (\<lambda>c r. 0)\<rparr>\<rparr>
      else if name = ''stats_global'' then h\<lparr>h_dp := d\<lparr>stats_cpu := (\<lambda>c. zero_stats)\<rparr>\<rparr>
      else if name = ''stats_vlan'' then h\<lparr>h_dp := d\<lparr>stats_vlan := (\<lambda>c v. \<lparr>vs_pkts = 0, vs_bytes = 0, vs_drops = 0\<rparr>)\<rparr>\<rparr>
      else if name = runtimeMapName then
        h\<lparr>h_runtime := \<lparr>TCPLive = 0, UDPLive = 0, LastGCUnixNano = 0, DaemonStartUnixNano = 0\<rparr>\<rparr>
      else h)"

definition mapCompatible :: "map_spec \<Rightarrow> map_spec \<Rightarrow> bool" where
  "mapCompatible m ms \<longleftrightarrow> ms_type m = ms_type ms \<and> ms_key_size m = ms_key_size ms \<and>
     ms_value_size m = ms_value_size ms \<and> ms_max_entries m = ms_max_entries ms \<and> ms_flags m = ms_flags ms"

text \<open>
  An incompatible map is unpinned first; creating a map whose old pin could not be removed
  fails, since the pinned one does not match the specification.
\<close>

definition adoptOrCreateMap :: "sysenv \<Rightarrow> string \<Rightarrow> map_spec \<Rightarrow> host \<Rightarrow> load_error option \<times> host" where
  "adoptOrCreateMap env name ms h =
     (if (case h_pins h name of Some m \<Rightarrow> mapCompatible m ms | None \<Rightarrow> False) then (None, h)
      else (let h1 = (if stale_removed env name then h\<lparr>h_pins := (h_pins h)(name := None)\<rparr> else h) in
            if h_pins h1 name = None \<and> create_ok env name
            then (None, fresh_map name ms (h1\<lparr>h_pins := (h_pins h1)(name \<mapsto> ms)\<rparr>))
            else (Some (ErrMap name), h1)))"

text \<open>Steps that stop at the first error, keeping what was already done.\<close>

definition andThen :: "'e option \<times> 's \<Rightarrow> ('s \<Rightarrow> 'e option \<times> 's) \<Rightarrow> 'e option \<times> 's" where
  "andThen r f = (case r of (Some e, s) \<Rightarrow> (Some e, s) | (None, s) \<Rightarrow> f s)"

fun adoptAll :: "sysenv \<Rightarrow> (string \<rightharpoonup> map_spec) \<Rightarrow> string list \<Rightarrow> host \<Rightarrow> load_error option \<times> host" where
  "adoptAll env specs [] h = (None, h)"
| "adoptAll env specs (name # names) h =
     (case specs name of
        None \<Rightarrow> (Some (ErrMissingMap name), h)
      | Some ms \<Rightarrow> andThen (adoptOrCreateMap env name ms h) (adoptAll env specs names))"

definition runtimeSpec :: map_spec where
  "runtimeSpec = \<lparr>ms_type = 2, ms_key_size = 4, ms_value_size = 32, ms_max_entries = 1, ms_flags = 0\<rparr>"

definition createOrAdoptShared :: "sysenv \<Rightarrow> (string \<rightharpoonup> map_spec) \<Rightarrow> host \<Rightarrow> load_error option \<times> host" where
  "createOrAdoptShared env specs h =
     andThen (adoptAll env specs sharedMapNames h) (adoptOrCreateMap env runtimeMapName runtimeSpec)"

section \<open>Writing the control maps\<close>

definition ApplyFeatures :: "bool \<Rightarrow> Config \<Rightarrow> dp \<Rightarrow> load_error option \<times> dp" where
  "ApplyFeatures ok cfg d =
     (if ok then (None, d\<lparr>features := Some (featuresFrom cfg)\<rparr>) else (Some ErrFeatures, d))"

fun desiredServers :: "string list \<Rightarrow> sync_error + bytes list" where
  "desiredServers [] = Inr []"
| "desiredServers (entry # es) =
     (case ParseHostPort entry of
        Inl _ \<Rightarrow> Inl (SyncBadEntry entry)
      | Inr (a, port) \<Rightarrow>
          (case desiredServers es of Inl e \<Rightarrow> Inl e | Inr ks \<Rightarrow> Inr (srvKeyBytes a port # ks)))"

definition allow_cap :: nat where "allow_cap = 1024"
definition cidr_cap :: nat where "cidr_cap = 4096"

text \<open>The shared reconciliation; the result lists every content the data path can see.\<close>

definition syncKeys :: "sync_env \<Rightarrow> nat \<Rightarrow> bytes list \<Rightarrow> (bytes, u8) kmap \<Rightarrow> sync_error option \<times> (bytes, u8) kmap list" where
  "syncKeys env cap ks m =
     (if \<not> sy_iter_ok env then (Some SyncIterate, [m])
      else case reconcile (hash_put cap) kdel kkeys 1 (sy_ok env) (sy_order env (remdups ks)) m of
        (e, ms) \<Rightarrow> (map_option SyncOp e, ms))"

definition SyncServerAllow :: "sync_env \<Rightarrow> Config \<Rightarrow> (bytes, u8) kmap \<Rightarrow> sync_error option \<times> (bytes, u8) kmap list" where
  "SyncServerAllow env cfg m =
     (case desiredServers (elems (ServerAllow cfg)) of
        Inl e \<Rightarrow> (Some e, [m])
      | Inr ks \<Rightarrow> syncKeys env allow_cap ks m)"

definition cidrKey :: "ipnet \<Rightarrow> bytes" where
  "cidrKey network =
     (let b = (case to4 (net_ip network) of Some b \<Rightarrow> b | None \<Rightarrow> []) in
      mem32 (of_nat (maskOnes (net_mask network))) @ take 4 (b @ replicate 4 0))"

fun desiredCIDRs :: "FlowMonitorCIDR list \<Rightarrow> sync_error + bytes list" where
  "desiredCIDRs [] = Inr []"
| "desiredCIDRs (rule # rs) =
     (case parseCIDR (CIDR rule) of
        None \<Rightarrow> Inl (SyncBadEntry (CIDR rule))
      | Some (a, network) \<Rightarrow>
          (if to4 a = None then Inl (SyncBadEntry (CIDR rule))
           else (case desiredCIDRs rs of Inl e \<Rightarrow> Inl e | Inr ks \<Rightarrow> Inr (cidrKey network # ks))))"

definition SyncFlowMonitorCIDRs :: "sync_env \<Rightarrow> Config \<Rightarrow> (bytes, u8) kmap \<Rightarrow> sync_error option \<times> (bytes, u8) kmap list" where
  "SyncFlowMonitorCIDRs env cfg m =
     (case desiredCIDRs (elems (CIDRs (Flow_Monitoring cfg))) of
        Inl e \<Rightarrow> (Some e, [m])
      | Inr ks \<Rightarrow> syncKeys env cidr_cap ks m)"

definition applyAllow :: "sysenv \<Rightarrow> Config \<Rightarrow> dp \<Rightarrow> load_error option \<times> dp" where
  "applyAllow env cfg d = (case SyncServerAllow (allow_env env) cfg (server_allow d) of
     (e, ms) \<Rightarrow> (map_option ErrSyncAllow e, d\<lparr>server_allow := last ms\<rparr>))"

definition applyCIDRs :: "sysenv \<Rightarrow> Config \<Rightarrow> dp \<Rightarrow> load_error option \<times> dp" where
  "applyCIDRs env cfg d = (case SyncFlowMonitorCIDRs (cidr_env env) cfg (flow_monitor_cidrs d) of
     (e, ms) \<Rightarrow> (map_option ErrSyncCIDRs e, d\<lparr>flow_monitor_cidrs := last ms\<rparr>))"

definition ReloadPolicy :: "sysenv \<Rightarrow> Config \<Rightarrow> dp \<Rightarrow> load_error option \<times> dp" where
  "ReloadPolicy env cfg d =
     andThen (ApplyFeatures (features_ok env) cfg d) (\<lambda>d1. andThen (applyAllow env cfg d1) (applyCIDRs env cfg))"

text \<open>
  \<open>ApplyFlowMonitorControl\<close> writes the two variables of the untrusted program. The result
  lists the pairs (enabled, mask) the program can observe, the present one first.
\<close>

definition setVarStep :: "bool \<Rightarrow> string \<Rightarrow> (u32 \<times> u32 \<Rightarrow> u32 \<times> u32) \<Rightarrow> load_error option \<times> (u32 \<times> u32) list
    \<Rightarrow> load_error option \<times> (u32 \<times> u32) list" where
  "setVarStep ok name f r = (case r of
     (Some e, ps) \<Rightarrow> (Some e, ps)
   | (None, ps) \<Rightarrow> if ok then (None, ps @ [f (last ps)]) else (Some (ErrNoVar name), ps))"

definition ApplyFlowMonitorControl :: "(string \<Rightarrow> bool) \<Rightarrow> Config \<Rightarrow> u32 \<times> u32 \<Rightarrow> load_error option \<times> (u32 \<times> u32) list" where
  "ApplyFlowMonitorControl ok cfg cur =
     (let enabled = boolU32 (Enabled (Flow_Monitoring cfg));
          msk = SampleEvery (Flow_Monitoring cfg) - 1;
          setE = (\<lambda>v. setVarStep (ok ''FLOW_MONITOR_ENABLED'') ''FLOW_MONITOR_ENABLED'' (\<lambda>p. (v, snd p)));
          setM = setVarStep (ok ''FLOW_MONITOR_SAMPLE_MASK'') ''FLOW_MONITOR_SAMPLE_MASK'' (\<lambda>p. (fst p, msk));
          r0 = (None, [cur]);
          r1 = (if enabled = 0 then setE 0 r0 else r0);
          r2 = setM r1
      in if enabled \<noteq> 0 then setE enabled r2 else r2)"

section \<open>Attaching\<close>

definition attach :: "sysenv \<Rightarrow> rodata \<Rightarrow> u32 \<Rightarrow> string \<Rightarrow> attach_flag \<Rightarrow> host \<Rightarrow> load_error option \<times> host" where
  "attach env prog ifindex pin flag h =
     (case h_links h pin of
        Some l \<Rightarrow>
          (if link_update_ok env pin flag then (None, h\<lparr>h_links := (h_links h)(pin \<mapsto> l\<lparr>l_prog := prog\<rparr>)\<rparr>)
           else (Some (ErrUpdateLink pin), h))
      | None \<Rightarrow>
          (if \<not> link_attach_ok env pin flag then (Some (ErrAttach pin), h)
           else if \<not> link_pin_ok env pin flag then (Some (ErrPinLink pin), h)
           else (None, h\<lparr>h_links := (h_links h)(pin \<mapsto> \<lparr>l_ifindex = ifindex, l_flags = flag, l_prog = prog\<rparr>)\<rparr>)))"

definition attachMode :: "sysenv \<Rightarrow> rodata \<Rightarrow> u32 \<Rightarrow> string \<Rightarrow> string \<Rightarrow> host \<Rightarrow> load_error option \<times> host" where
  "attachMode env prog ifindex pin xmode h =
     (if xmode = ''generic'' then attach env prog ifindex pin XDPGenericMode h
      else if xmode = ''native'' then attach env prog ifindex pin XDPDriverMode h
      else (case attach env prog ifindex pin XDPDriverMode h of
              (None, h') \<Rightarrow> (None, h')
            | (Some _, h') \<Rightarrow> attach env prog ifindex pin XDPGenericMode h'))"

text \<open>\<open>loadProg\<close>: the rodata of one instance; the variables are set in this order.\<close>

fun firstMissing :: "(string \<Rightarrow> bool) \<Rightarrow> string list \<Rightarrow> string option" where
  "firstMissing has [] = None"
| "firstMissing has (v # vs) = (if has v then firstMissing has vs else Some v)"

definition loadProg :: "sysenv \<Rightarrow> bool \<Rightarrow> u32 \<Rightarrow> u32 \<Rightarrow> bool \<Rightarrow> load_error + rodata" where
  "loadProg env trusted peer l1m multi =
     (case firstMissing (has_var env)
             ([''ROLE_TRUSTED''] @ (if trusted then [''FLOW_MONITOR_ENABLED''] else []) @
              [''PEER_IDX'', ''L1_MASK'', ''MULTIBUF'']) of
        Some v \<Rightarrow> Inl (ErrProgVar trusted v)
      | None \<Rightarrow>
          (if prog_ok env trusted
           then Inr \<lparr>ROLE_TRUSTED = trusted, PEER_IDX = peer, L1_MASK = l1m, MULTIBUF = multi\<rparr>
           else Inl (ErrProg trusted)))"

section \<open>Load\<close>

text \<open>
  The sizes and flags taken over from the configuration; \<open>None\<close> is the nil dereference
  when the object lacks one of the five maps the code writes to.
\<close>

definition bpfFNoCommonLRU :: u32 where "bpfFNoCommonLRU = 2"

definition sized :: "u32 \<Rightarrow> string \<Rightarrow> (string \<rightharpoonup> map_spec) \<Rightarrow> (string \<rightharpoonup> map_spec) option" where
  "sized n name sp = map_option (\<lambda>ms. sp(name \<mapsto> ms\<lparr>ms_max_entries := n\<rparr>)) (sp name)"

definition noCommonLRU :: "string \<Rightarrow> (string \<rightharpoonup> map_spec) \<Rightarrow> (string \<rightharpoonup> map_spec)" where
  "noCommonLRU name sp = (case sp name of None \<Rightarrow> sp
     | Some ms \<Rightarrow> sp(name \<mapsto> ms\<lparr>ms_flags := ms_flags ms OR bpfFNoCommonLRU\<rparr>))"

definition l1Params :: "Config \<Rightarrow> u32 \<times> u32" where
  "l1Params cfg = (if L1Size cfg \<noteq> 0 then (L1Size cfg, L1Size cfg - 1) else (1, 0))"

definition sizeTables :: "Config \<Rightarrow> (string \<rightharpoonup> map_spec) \<Rightarrow> (string \<rightharpoonup> map_spec) option" where
  "sizeTables cfg sp =
     Option.bind (sized (FlowMax cfg) ''flows'' sp) (\<lambda>sp.
     Option.bind (sized (UDPFlowMax cfg) ''udp_flows'' sp) (\<lambda>sp.
     sized (MaxFlows (Flow_Monitoring cfg)) ''flow_monitor_counters'' sp))"

definition sizeL1 :: "Config \<Rightarrow> (string \<rightharpoonup> map_spec) \<Rightarrow> (string \<rightharpoonup> map_spec) option" where
  "sizeL1 cfg sp =
     map_option (\<lambda>sp. if LRUPerCPU cfg then noCommonLRU ''udp_flows'' (noCommonLRU ''flows'' sp) else sp)
       (sized (fst (l1Params cfg)) ''l1cache'' sp)"

definition overrideSpec :: "Config \<Rightarrow> (string \<rightharpoonup> map_spec) \<Rightarrow> (string \<rightharpoonup> map_spec) option" where
  "overrideSpec cfg sp = Option.bind (sizeTables cfg sp) (sizeL1 cfg)"

definition onDp :: "(dp \<Rightarrow> load_error option \<times> dp) \<Rightarrow> host \<Rightarrow> load_error option \<times> host" where
  "onDp f h = (case f (h_dp h) of (e, d) \<Rightarrow> (e, h\<lparr>h_dp := d\<rparr>))"

definition putTx :: "sysenv \<Rightarrow> u32 \<Rightarrow> u32 \<Rightarrow> host \<Rightarrow> load_error option \<times> host" where
  "putTx env i ifindex h =
     (if tx_put_ok env i then (None, h\<lparr>h_tx := (h_tx h)(i \<mapsto> ifindex)\<rparr>) else (Some (ErrTxPorts i), h))"

definition PublishRuntimeState :: "bool \<Rightarrow> RuntimeState \<Rightarrow> host \<Rightarrow> bool \<times> host" where
  "PublishRuntimeState ok st h =
     (if h_pins h runtimeMapName = None then (True, h)
      else if ok then (True, h\<lparr>h_runtime := st\<rparr>) else (False, h))"

definition populate :: "sysenv \<Rightarrow> Config \<Rightarrow> u32 \<Rightarrow> u32 \<Rightarrow> host \<Rightarrow> load_error option \<times> host" where
  "populate env cfg iT iU h0 =
     (let h = snd (PublishRuntimeState (publish_ok env)
                \<lparr>TCPLive = 0, UDPLive = 0, LastGCUnixNano = 0, DaemonStartUnixNano = now_nano env\<rparr> h0) in
      andThen (putTx env 0 iT h) (\<lambda>h.
      andThen (putTx env 1 iU h) (\<lambda>h.
      andThen (onDp (ApplyFeatures (features_ok env) cfg) h) (\<lambda>h.
      andThen (onDp (applyAllow env cfg) h)
        (onDp (applyCIDRs env cfg))))))"

definition link_trusted :: string where "link_trusted = ''link_trusted''"
definition link_untrusted :: string where "link_untrusted = ''link_untrusted''"

text \<open>
  Loading the two instances and attaching them. The variables of the untrusted program
  take effect when its link starts to run it.
\<close>

definition attachBoth :: "sysenv \<Rightarrow> Config \<Rightarrow> u32 \<Rightarrow> u32 \<Rightarrow> bool \<Rightarrow> host \<Rightarrow> load_error option \<times> host" where
  "attachBoth env cfg iT iU multi h =
     (case loadProg env True 1 (snd (l1Params cfg)) multi of
        Inl e \<Rightarrow> (Some e, h)
      | Inr progT \<Rightarrow>
     (case loadProg env False 0 (snd (l1Params cfg)) multi of
        Inl e \<Rightarrow> (Some e, h)
      | Inr progU \<Rightarrow>
          andThen (attachMode env progT iT link_trusted (XDPMode cfg) h) (\<lambda>h.
          andThen (attachMode env progU iU link_untrusted (XDPMode cfg) h) (\<lambda>h.
            (None, h\<lparr>h_dp := (h_dp h)\<lparr>FLOW_MONITOR_ENABLED := boolU32 (Enabled (Flow_Monitoring cfg)),
               FLOW_MONITOR_SAMPLE_MASK := SampleEvery (Flow_Monitoring cfg) - 1\<rparr>\<rparr>)))))"

definition LoadDatapath :: "sysenv \<Rightarrow> Config \<Rightarrow> host \<Rightarrow> load_error option \<times> host" where
  "LoadDatapath env cfg h =
     (if \<not> memlock_ok env then (Some ErrMemlock, h)
      else if \<not> pin_mkdir_ok env then (Some ErrPinDir, h)
      else case ifaces env (TrustedIface cfg) of
        None \<Rightarrow> (Some (ErrTrustedIface (TrustedIface cfg)), h)
      | Some (iT, mtuT) \<Rightarrow>
     (case ifaces env (UntrustedIface cfg) of
        None \<Rightarrow> (Some (ErrUntrustedIface (UntrustedIface cfg)), h)
      | Some (iU, mtuU) \<Rightarrow>
     (case bpf_object env of
        None \<Rightarrow> (Some ErrSpec, h)
      | Some sp \<Rightarrow>
     (case sizeTables cfg sp of
        None \<Rightarrow> (Some ErrNilMapSpec, h)
      | Some sp1 \<Rightarrow>
     (case firstMissing (has_var env) [''FLOW_MONITOR_ENABLED'', ''FLOW_MONITOR_SAMPLE_MASK''] of
        Some v \<Rightarrow> (Some (ErrNoVar v), h)
      | None \<Rightarrow>
     (case sizeL1 cfg sp1 of
        None \<Rightarrow> (Some ErrNilMapSpec, h)
      | Some specs \<Rightarrow>
          andThen (createOrAdoptShared env specs h) (\<lambda>h.
          andThen (populate env cfg iT iU h)
            (attachBoth env cfg iT iU (mtuT > 1500 \<or> mtuU > 1500)))))))))"

section \<open>A running instance\<close>

definition OpenPinned :: "host \<Rightarrow> load_error option" where
  "OpenPinned h = map_option ErrNotPinned (firstMissing (\<lambda>n. h_pins h n \<noteq> None) sharedMapNames)"

text \<open>\<open>ok\<close> says whether the lookup in the features map succeeds.\<close>

definition ReadLivePolicy :: "bool \<Rightarrow> dp \<Rightarrow> LivePolicy option" where
  "ReadLivePolicy ok d = (if ok then map_option livePolicy (features d) else None)"

definition ModeName :: "bool \<Rightarrow> dp \<Rightarrow> string" where
  "ModeName ok d = (case ReadLivePolicy ok d of None \<Rightarrow> ''unknown'' | Some p \<Rightarrow> LpMode p)"

definition SetModePinned :: "bool \<Rightarrow> bool \<Rightarrow> bool \<Rightarrow> host \<Rightarrow> load_error option \<times> host" where
  "SetModePinned lookup_ok put_ok enforce h =
     (case OpenPinned h of
        Some e \<Rightarrow> (Some e, h)
      | None \<Rightarrow>
          (case (if lookup_ok then features (h_dp h) else None) of
             None \<Rightarrow> (Some ErrFeatures, h)
           | Some fv \<Rightarrow>
               (if put_ok then (None, h\<lparr>h_dp := (h_dp h)\<lparr>features := Some (fv\<lparr>mode := if enforce then 1 else 0\<rparr>)\<rparr>\<rparr>)
                else (Some ErrFeatures, h))))"

definition ReadRuntimeState :: "bool \<Rightarrow> host \<Rightarrow> RuntimeState option" where
  "ReadRuntimeState ok h = (if h_pins h runtimeMapName = None \<or> \<not> ok then None else Some (h_runtime h))"

text \<open>
  \<open>Detach\<close>: both links are unpinned and their files removed, then every map; \<open>gone n\<close>
  says that the file of \<open>n\<close> could be removed. The first failure on a map is reported,
  failures on links are not.
\<close>

definition Detach :: "(string \<Rightarrow> bool) \<Rightarrow> host \<Rightarrow> load_error option \<times> host" where
  "Detach gone h =
     (let names = sharedMapNames @ [runtimeMapName];
          h1 = h\<lparr>h_links := (\<lambda>p. if p \<in> {link_trusted, link_untrusted} \<and> gone p then None else h_links h p),
                 h_pins := (\<lambda>n. if n \<in> set names \<and> gone n then None else h_pins h n)\<rparr>
      in (map_option ErrRemove (find (\<lambda>n. h_pins h n \<noteq> None \<and> \<not> gone n) names), h1))"

end
