(* ===== verification/Dataplane_Props.thy ===== *)
theory Dataplane_Props
  imports Dataplane
begin

text \<open>
  Facts on the loader: the tick conversion, the reconciliation of the control maps as an
  instance of \<open>bounded_map\<close>, adoption of pinned maps, attachment, \<open>Load\<close> as a whole,
  live reload, and the allowlist from its configuration to the data path's lookup.
\<close>

section \<open>Lemmas on ticks\<close>

lemma unat_ucast_u64: "unat (ucast x :: u64) = unat x" for x :: u32
  by (simp add: unsigned_ucast_eq take_bit_nat_eq_self unat_u32_less less_trans [OF unat_u32_less])

lemma unat_narrow_u32: "unat x < 2 ^ 32 \<Longrightarrow> unat (ucast x :: u32) = unat x" for x :: u64
  by (simp add: unsigned_ucast_eq take_bit_nat_eq_self)

lemma unat_secToTicks: "unat (secToTicks s) = (unat s * 1000000000 + (2 ^ 30 - 1)) div 2 ^ 30"
proof (cases "s = 0")
  case False
  let ?ns = "ucast s * 1000000000 :: u64"
  have s: "unat s < 2 ^ 32" by (rule unat_u32_less)
  have ns: "unat ?ns = unat s * 1000000000"
    using s by (simp add: unat_word_ariths unat_ucast_u64)
  have "unat (?ns + 1073741823) = unat ?ns + 1073741823"
    using s ns by (subst unat_add_no_wrap) simp_all
  moreover have "?ns + push_bit 30 1 - 1 = ?ns + 1073741823" by simp
  ultimately have d: "unat (drop_bit 30 (?ns + push_bit 30 1 - 1)) = (unat s * 1000000000 + (2 ^ 30 - 1)) div 2 ^ 30"
    by (simp only: unat_drop_bit_eq drop_bit_eq_div ns) (simp add: unat_div)
  then have "unat (drop_bit 30 (?ns + push_bit 30 1 - 1)) < 2 ^ 32" using s by simp
  from unat_narrow_u32 [OF this] d False show ?thesis by (simp add: secToTicks_def nowShift_def Let_def)
qed (simp add: secToTicks_def)

lemma secToTicks_cover:
  "unat s * 1000000000 \<le> unat (secToTicks s) * 2 ^ 30 \<and> unat (secToTicks s) * 2 ^ 30 < unat s * 1000000000 + 2 ^ 30"
proof -
  define n where "n = unat s * 1000000000 + (2 ^ 30 - 1)"
  have "n div 2 ^ 30 * 2 ^ 30 + n mod 2 ^ 30 = n" by (rule div_mult_mod_eq)
  moreover have "n mod 2 ^ 30 < 2 ^ 30" by simp
  ultimately have "n < n div 2 ^ 30 * 2 ^ 30 + 2 ^ 30" "n div 2 ^ 30 * 2 ^ 30 \<le> n" by linarith+
  then show ?thesis unfolding unat_secToTicks n_def [symmetric] by (simp only: n_def) linarith
qed

lemma ticksToSec_secToTicks:
  assumes "unat s < 2 ^ 32 - 1"
  shows "ticksToSec (secToTicks s) = s \<or> ticksToSec (secToTicks s) = s + 1"
proof -
  let ?t = "secToTicks s"
  have "unat (push_bit 30 (ucast ?t :: u64)) = unat ?t * 2 ^ 30"
    using unat_u32_less [of ?t] by (simp add: push_bit_eq_mult unat_word_ariths unat_ucast_u64 mult.commute)
  then have q: "unat (push_bit 30 (ucast ?t :: u64) div 1000000000) = unat ?t * 2 ^ 30 div 1000000000"
    by (simp add: unat_div)
  have c: "unat s \<le> unat ?t * 2 ^ 30 div 1000000000" "unat ?t * 2 ^ 30 div 1000000000 \<le> unat s + 1"
    using secToTicks_cover [of s] by auto
  have "unat (ticksToSec ?t) = unat ?t * 2 ^ 30 div 1000000000"
    unfolding ticksToSec_def nowShift_def using q c assms by (subst unat_narrow_u32) simp_all
  with c have "unat (ticksToSec ?t) = unat s \<or> unat (ticksToSec ?t) = unat s + 1" by auto
  moreover have "unat (s + 1) = unat s + 1" using assms by (subst unat_add_no_wrap) simp_all
  ultimately show ?thesis by (metis word_unat_eq_iff)
qed

section \<open>Lemmas on the policy\<close>

lemma boolU8_iff [simp]: "boolU8 v \<noteq> 0 \<longleftrightarrow> v" "boolU8 v = 0 \<longleftrightarrow> \<not> v"
  by (simp_all add: boolU8_def)

section \<open>Lemmas on map keys\<close>

lemma swap16_bytes: "mem16 (swap16 x) = [ucast (drop_bit 8 x), ucast x]"
proof -
  have "ucast (push_bit 8 x OR drop_bit 8 x :: u16) = (ucast (drop_bit 8 x) :: u8)"
    by (rule bit_word_eqI) (auto simp: bit_simps)
  moreover have "ucast (drop_bit 8 (push_bit 8 x OR drop_bit 8 x :: u16)) = (ucast x :: u8)"
    by (rule bit_word_eqI) (auto simp: bit_simps)
  ultimately show ?thesis by (simp add: mem16_def swap16_def)
qed

lemma swap16_swap16 [simp]: "swap16 (swap16 x) = x"
  unfolding swap16_def by (rule bit_word_eqI) (auto simp: bit_simps)

lemma length_mem32 [simp]: "length (mem32 x) = 4"
  by (simp add: mem32_def)

lemma srv_key_srvKeyBytes: "srv_key k = srvKeyBytes (mem32 (host_ip k)) (swap16 (host_port k))"
proof -
  have "to4 (mem32 (host_ip k)) = Some (mem32 (host_ip k))" by (simp add: to4_def)
  moreover have "mem16 (host_port k) = [ucast (drop_bit 8 (swap16 (host_port k))), ucast (swap16 (host_port k))]"
    using swap16_bytes [of "swap16 (host_port k)"] by simp
  ultimately show ?thesis by (simp add: srv_key_def srvKeyBytes_def)
qed


section \<open>Lemmas on reconciliation\<close>

text \<open>The order in which Go ranges over a map: some order of the same keys.\<close>

definition fair_order :: "sync_env \<Rightarrow> bool" where
  "fair_order env \<longleftrightarrow> (\<forall>ks. set (sy_order env ks) = set ks)"

lemma syncKeys_exact:
  assumes "kmap_inv m" "fair_order env" "syncKeys env cap ks m = (None, ms)"
  shows "kmap_inv (last ms) \<and> dom (kget (last ms)) = set ks"
proof -
  let ?ks = "sy_order env (remdups ks)"
  obtain e ms' where r: "reconcile (hash_put cap) kdel kkeys 1 (sy_ok env) ?ks m = (e, ms')" by fastforce
  with assms(3) have "e = None" "ms' = ms" by (auto simp: syncKeys_def split: if_splits)
  with hash_map.reconcile_exact [OF assms(1), of cap 1 "sy_ok env" ?ks ms] r assms(2) show ?thesis
    by (simp add: fair_order_def)
qed

lemma syncKeys_between:
  assumes "kmap_inv m" "fair_order env" "syncKeys env cap ks m = (e, ms)" "m' \<in> set ms"
  shows "dom (kget m) \<inter> set ks \<subseteq> dom (kget m') \<and> dom (kget m') \<subseteq> dom (kget m) \<union> set ks"
proof (cases "sy_iter_ok env")
  case True
  let ?ks = "sy_order env (remdups ks)"
  obtain e' where r: "reconcile (hash_put cap) kdel kkeys 1 (sy_ok env) ?ks m = (e', ms)"
    using assms(3) True by (auto simp: syncKeys_def split: prod.splits)
  from hash_map.reconcile_between [OF assms(1) r assms(4)] assms(2) show ?thesis by (simp add: fair_order_def)
next
  case False
  then show ?thesis using assms by (auto simp: syncKeys_def)
qed

lemma syncKeys_succeeds:
  assumes "kmap_inv m" "fair_order env" "sy_iter_ok env" "\<And>x. sy_ok env x" "card (set ks) \<le> cap"
  shows "fst (syncKeys env cap ks m) = None"
  using hash_map.reconcile_succeeds [OF assms(1), of "sy_ok env" "sy_order env (remdups ks)" cap 1] assms
  by (auto simp: syncKeys_def fair_order_def split: prod.split)

section \<open>Lemmas on loading\<close>

lemma andThen_None: "andThen r f = (None, s') \<longleftrightarrow> (\<exists>s. r = (None, s) \<and> f s = (None, s'))"
  by (auto simp: andThen_def split: prod.splits option.splits)

lemma fresh_map_sel [simp]:
  "h_pins (fresh_map name ms h) = h_pins h" "h_links (fresh_map name ms h) = h_links h"
  by (simp_all add: fresh_map_def Let_def)

lemma fresh_map_other:
  "name \<noteq> ''flows'' \<Longrightarrow> flows (h_dp (fresh_map name ms h)) = flows (h_dp h)"
  "name \<noteq> ''udp_flows'' \<Longrightarrow> udp_flows (h_dp (fresh_map name ms h)) = udp_flows (h_dp h)"
  "name \<noteq> ''l1cache'' \<Longrightarrow> l1_entries (h_dp (fresh_map name ms h)) = l1_entries (h_dp h)"
  by (simp_all add: fresh_map_def Let_def)

definition maps_inv :: "dp \<Rightarrow> bool" where
  "maps_inv d \<longleftrightarrow> kmap_inv (server_allow d) \<and> kmap_inv (flow_monitor_cidrs d)"

lemma fresh_map_inv: "maps_inv (h_dp h) \<Longrightarrow> maps_inv (h_dp (fresh_map name ms h))"
  by (simp add: fresh_map_def maps_inv_def Let_def kmap_inv_def)

lemma adopt_frame:
  assumes "adoptOrCreateMap env name ms h = (e, h')"
  shows "h_links h' = h_links h \<and> (maps_inv (h_dp h) \<longrightarrow> maps_inv (h_dp h')) \<and>
    (\<forall>n. n \<noteq> name \<longrightarrow> h_pins h' n = h_pins h n) \<and>
    (name \<noteq> ''flows'' \<longrightarrow> flows (h_dp h') = flows (h_dp h)) \<and>
    (name \<noteq> ''udp_flows'' \<longrightarrow> udp_flows (h_dp h') = udp_flows (h_dp h)) \<and>
    (e = None \<longrightarrow> (\<exists>m. h_pins h' name = Some m \<and> mapCompatible m ms))"
  using assms
  by (auto simp: adoptOrCreateMap_def Let_def fresh_map_inv fresh_map_other mapCompatible_def split: if_splits option.splits)


lemma adopt_compatible:
  "h_pins h name = Some m \<Longrightarrow> mapCompatible m ms \<Longrightarrow> adoptOrCreateMap env name ms h = (None, h)"
  by (simp add: adoptOrCreateMap_def)

lemma adopt_l1:
  assumes "adoptOrCreateMap env name ms h = (None, h')" "\<And>m. h_pins h ''l1cache'' = Some m \<Longrightarrow> l1_entries (h_dp h) = ms_max_entries m"
  shows "(name = ''l1cache'' \<longrightarrow> l1_entries (h_dp h') = ms_max_entries ms) \<and>
     (\<forall>m. h_pins h' ''l1cache'' = Some m \<longrightarrow> l1_entries (h_dp h') = ms_max_entries m)"
proof (cases "name = ''l1cache''")
  case True
  with assms show ?thesis
    by (auto simp: adoptOrCreateMap_def mapCompatible_def Let_def fresh_map_def split: if_splits option.splits)
next
  case False
  with assms show ?thesis
    by (auto simp: adoptOrCreateMap_def Let_def fresh_map_other split: if_splits option.splits)
qed

lemma adoptAll_frame:
  assumes "adoptAll env specs names h = (e, h')" "distinct names"
  shows "h_links h' = h_links h \<and> (maps_inv (h_dp h) \<longrightarrow> maps_inv (h_dp h')) \<and>
    (\<forall>n. n \<notin> set names \<longrightarrow> h_pins h' n = h_pins h n) \<and>
    (e = None \<longrightarrow> (\<forall>n \<in> set names. \<exists>m ms. specs n = Some ms \<and> h_pins h' n = Some m \<and> mapCompatible m ms))"
  using assms
proof (induction names arbitrary: h)
  case (Cons n ns)
  show ?case
  proof (cases "specs n")
    case None
    with Cons.prems show ?thesis by auto
  next
    case (Some ms)
    obtain e1 h1 where a: "adoptOrCreateMap env n ms h = (e1, h1)" by fastforce
    note f = adopt_frame [OF a]
    show ?thesis
    proof (cases e1)
      case None
      then have "adoptAll env specs ns h1 = (e, h')" using Cons.prems(1) Some a by (simp add: andThen_def)
      from Cons.IH [OF this] Cons.prems(2) f None Some show ?thesis by auto
    next
      case (Some x)
      then show ?thesis using Cons.prems(1) \<open>specs n = Some ms\<close> a f by (auto simp: andThen_def)
    qed
  qed
qed simp

text \<open>A table whose pinned map matches the new specification keeps its contents.\<close>

lemma adoptAll_keeps:
  assumes "adoptAll env specs names h = (e, h')" "distinct names"
  shows "(\<forall>m ms. h_pins h ''flows'' = Some m \<and> specs ''flows'' = Some ms \<and> mapCompatible m ms \<longrightarrow>
       flows (h_dp h') = flows (h_dp h)) \<and>
    (\<forall>m ms. h_pins h ''udp_flows'' = Some m \<and> specs ''udp_flows'' = Some ms \<and> mapCompatible m ms \<longrightarrow>
       udp_flows (h_dp h') = udp_flows (h_dp h))"
  using assms
proof (induction names arbitrary: h)
  case (Cons n ns)
  show ?case
  proof (cases "specs n")
    case None
    with Cons.prems show ?thesis by auto
  next
    case (Some ms)
    obtain e1 h1 where a: "adoptOrCreateMap env n ms h = (e1, h1)" by fastforce
    note f = adopt_frame [OF a]
    have k: "h_pins h n = Some m \<Longrightarrow> mapCompatible m ms \<Longrightarrow> h1 = h" for m
      using adopt_compatible [of h n m ms env] a by simp
    show ?thesis
    proof (cases e1)
      case None
      then have "adoptAll env specs ns h1 = (e, h')" using Cons.prems(1) Some a by (simp add: andThen_def)
      from Cons.IH [OF this] Cons.prems(2) f k Some show ?thesis
        by (cases "n = ''flows''"; cases "n = ''udp_flows''") auto
    next
      case (Some x)
      then have "h' = h1" using Cons.prems(1) \<open>specs n = Some ms\<close> a by (simp add: andThen_def)
      then show ?thesis using f k \<open>specs n = Some ms\<close> by (cases "n = ''flows''"; cases "n = ''udp_flows''") auto
    qed
  qed
qed simp

lemma adoptAll_l1:
  assumes "adoptAll env specs names h = (None, h')"
    "\<And>m. h_pins h ''l1cache'' = Some m \<Longrightarrow> l1_entries (h_dp h) = ms_max_entries m"
  shows "\<forall>m. h_pins h' ''l1cache'' = Some m \<longrightarrow> l1_entries (h_dp h') = ms_max_entries m"
  using assms
proof (induction names arbitrary: h)
  case (Cons n ns)
  from Cons.prems(1) obtain ms h1 where "specs n = Some ms" and a: "adoptOrCreateMap env n ms h = (None, h1)"
    and r: "adoptAll env specs ns h1 = (None, h')"
    by (auto simp: andThen_None split: option.splits)
  from adopt_l1 [OF a] Cons.prems(2) show ?case by (intro Cons.IH [OF r]) auto
qed simp

section \<open>Lemmas on live policy\<close>

definition ctl_ok :: "Config \<Rightarrow> dp \<Rightarrow> bool" where
  "ctl_ok cfg d \<longleftrightarrow> features d = Some (featuresFrom cfg) \<and>
     (\<exists>ks. desiredServers (elems (ServerAllow cfg)) = Inr ks \<and> dom (kget (server_allow d)) = set ks) \<and>
     (\<exists>ks. desiredCIDRs (elems (CIDRs (Flow_Monitoring cfg))) = Inr ks \<and> dom (kget (flow_monitor_cidrs d)) = set ks)"

definition ctl_only :: "dp \<Rightarrow> dp \<Rightarrow> bool" where
  "ctl_only d d' \<longleftrightarrow> d' = d\<lparr>features := features d', server_allow := server_allow d', flow_monitor_cidrs := flow_monitor_cidrs d'\<rparr>"

lemma applyAllow_frame:
  assumes "applyAllow env cfg d = (e, d')" "maps_inv d" "fair_order (allow_env env)"
  shows "d' = d\<lparr>server_allow := server_allow d'\<rparr> \<and>
    (e = None \<longrightarrow> maps_inv d' \<and> (\<exists>ks. desiredServers (elems (ServerAllow cfg)) = Inr ks \<and> dom (kget (server_allow d')) = set ks))"
proof -
  obtain e1 ms where s: "SyncServerAllow (allow_env env) cfg (server_allow d) = (e1, ms)" by fastforce
  with assms(1) have d': "e = map_option ErrSyncAllow e1" "d' = d\<lparr>server_allow := last ms\<rparr>" by (auto simp: applyAllow_def)
  have "maps_inv d' \<and> (\<exists>ks. desiredServers (elems (ServerAllow cfg)) = Inr ks \<and> dom (kget (server_allow d')) = set ks)" if "e = None"
  proof -
    from that d' s obtain ks where k: "desiredServers (elems (ServerAllow cfg)) = Inr ks"
      "syncKeys (allow_env env) allow_cap ks (server_allow d) = (None, ms)"
      by (auto simp: SyncServerAllow_def split: sum.splits)
    with syncKeys_exact [OF _ assms(3) k(2)] assms(2) show ?thesis by (simp add: d' maps_inv_def)
  qed
  then show ?thesis by (simp add: d')
qed

lemma applyCIDRs_frame:
  assumes "applyCIDRs env cfg d = (e, d')" "maps_inv d" "fair_order (cidr_env env)"
  shows "d' = d\<lparr>flow_monitor_cidrs := flow_monitor_cidrs d'\<rparr> \<and>
    (e = None \<longrightarrow> maps_inv d' \<and>
       (\<exists>ks. desiredCIDRs (elems (CIDRs (Flow_Monitoring cfg))) = Inr ks \<and> dom (kget (flow_monitor_cidrs d')) = set ks))"
proof -
  obtain e1 ms where s: "SyncFlowMonitorCIDRs (cidr_env env) cfg (flow_monitor_cidrs d) = (e1, ms)" by fastforce
  with assms(1) have d': "e = map_option ErrSyncCIDRs e1" "d' = d\<lparr>flow_monitor_cidrs := last ms\<rparr>" by (auto simp: applyCIDRs_def)
  have "maps_inv d' \<and> (\<exists>ks. desiredCIDRs (elems (CIDRs (Flow_Monitoring cfg))) = Inr ks \<and>
      dom (kget (flow_monitor_cidrs d')) = set ks)" if "e = None"
  proof -
    from that d' s obtain ks where k: "desiredCIDRs (elems (CIDRs (Flow_Monitoring cfg))) = Inr ks"
      "syncKeys (cidr_env env) cidr_cap ks (flow_monitor_cidrs d) = (None, ms)"
      by (auto simp: SyncFlowMonitorCIDRs_def split: sum.splits)
    with syncKeys_exact [OF _ assms(3) k(2)] assms(2) show ?thesis by (simp add: d' maps_inv_def)
  qed
  then show ?thesis by (simp add: d')
qed

lemma ReloadPolicy_frame:
  assumes "ReloadPolicy env cfg d = (e, d')" "maps_inv d" "fair_order (allow_env env)" "fair_order (cidr_env env)"
  shows "ctl_only d d' \<and> (e = None \<longrightarrow> ctl_ok cfg d' \<and> maps_inv d')"
proof (cases "features_ok env")
  case False
  then show ?thesis using assms(1) by (auto simp: ReloadPolicy_def ApplyFeatures_def andThen_def ctl_only_def)
next
  case True
  define d1 where "d1 = d\<lparr>features := Some (featuresFrom cfg)\<rparr>"
  have i1: "maps_inv d1" using assms(2) by (simp add: d1_def maps_inv_def)
  obtain e2 d2 where a: "applyAllow env cfg d1 = (e2, d2)" by fastforce
  note fa = applyAllow_frame [OF a i1 assms(3)]
  show ?thesis
  proof (cases e2)
    case (Some x)
    with assms(1) True a have "d' = d2" "e = Some x" by (simp_all add: ReloadPolicy_def ApplyFeatures_def andThen_def d1_def)
    moreover from fa have d2: "d2 = d1\<lparr>server_allow := server_allow d2\<rparr>" ..
    have "features d2 = Some (featuresFrom cfg)" "flow_monitor_cidrs d2 = flow_monitor_cidrs d"
      by (subst d2, simp add: d1_def)+
    then have "ctl_only d d2" unfolding ctl_only_def by (subst d2) (simp add: d1_def)
    ultimately show ?thesis by simp
  next
    case None
    with assms(1) True a have c: "applyCIDRs env cfg d2 = (e, d')"
      by (simp add: ReloadPolicy_def ApplyFeatures_def andThen_def d1_def)
    from fa None have i2: "maps_inv d2" by simp
    note fc = applyCIDRs_frame [OF c i2 assms(4)]
    from fa have d2: "d2 = d1\<lparr>server_allow := server_allow d2\<rparr>" ..
    from fc have d3: "d' = d2\<lparr>flow_monitor_cidrs := flow_monitor_cidrs d'\<rparr>" ..
    have s: "server_allow d' = server_allow d2" "features d' = Some (featuresFrom cfg)"
      by (subst d3, simp)+ (subst d2, simp add: d1_def)
    have "ctl_only d d'" unfolding ctl_only_def by (subst d3, subst d2) (simp add: s d1_def)
    then show ?thesis using fa fc None s by (simp add: ctl_ok_def)
  qed
qed


section \<open>Lemmas on attachment\<close>

lemma attach_frame:
  assumes "attach env prog ifi pin flag h = (e, h')"
  shows "h_dp h' = h_dp h \<and> h_pins h' = h_pins h \<and> h_tx h' = h_tx h \<and> (\<forall>p. p \<noteq> pin \<longrightarrow> h_links h' p = h_links h p) \<and>
    (case e of Some _ \<Rightarrow> h_links h' = h_links h
     | None \<Rightarrow> \<exists>l. h_links h' pin = Some l \<and> l_prog l = prog \<and>
         (case h_links h pin of Some l0 \<Rightarrow> l_ifindex l = l_ifindex l0 \<and> l_flags l = l_flags l0
          | None \<Rightarrow> l_ifindex l = ifi \<and> l_flags l = flag))"
  using assms by (auto simp: attach_def split: option.splits if_splits)

lemma attachMode_frame:
  assumes "attachMode env prog ifi pin xm h = (e, h')"
  shows "h_dp h' = h_dp h \<and> h_pins h' = h_pins h \<and> h_tx h' = h_tx h \<and> (\<forall>p. p \<noteq> pin \<longrightarrow> h_links h' p = h_links h p) \<and>
    (case e of Some _ \<Rightarrow> h_links h' = h_links h
     | None \<Rightarrow> \<exists>l. h_links h' pin = Some l \<and> l_prog l = prog \<and>
         l_ifindex l = (case h_links h pin of Some l0 \<Rightarrow> l_ifindex l0 | None \<Rightarrow> ifi))"
proof -
  obtain e1 h1 where a1: "attach env prog ifi pin XDPDriverMode h = (e1, h1)" by fastforce
  obtain e2 h2 where a2: "attach env prog ifi pin XDPGenericMode h = (e2, h2)" by fastforce
  obtain e3 h3 where a3: "attach env prog ifi pin XDPGenericMode h1 = (e3, h3)" by fastforce
  show ?thesis
    using assms attach_frame [OF a1] attach_frame [OF a2] attach_frame [OF a3] a1 a2 a3
    by (cases e1; cases e2; cases e3) (auto simp: attachMode_def split: if_splits option.splits)
qed

lemma loadProg_Inr:
  "loadProg env tr peer m mb = Inr prog \<Longrightarrow> prog = \<lparr>ROLE_TRUSTED = tr, PEER_IDX = peer, L1_MASK = m, MULTIBUF = mb\<rparr>"
  by (auto simp: loadProg_def split: option.splits if_splits)

definition bridge_links :: "Config \<Rightarrow> host \<Rightarrow> bool" where
  "bridge_links cfg h \<longleftrightarrow> (\<exists>lT lU mb. h_links h link_trusted = Some lT \<and> h_links h link_untrusted = Some lU \<and>
     l_prog lT = \<lparr>ROLE_TRUSTED = True, PEER_IDX = 1, L1_MASK = snd (l1Params cfg), MULTIBUF = mb\<rparr> \<and>
     l_prog lU = \<lparr>ROLE_TRUSTED = False, PEER_IDX = 0, L1_MASK = snd (l1Params cfg), MULTIBUF = mb\<rparr>)"

lemma attachBoth_ok:
  assumes "attachBoth env cfg iT iU mb h = (None, h')"
  shows "bridge_links cfg h' \<and> h_tx h' = h_tx h \<and>
    h_dp h' = (h_dp h)\<lparr>FLOW_MONITOR_ENABLED := boolU32 (Enabled (Flow_Monitoring cfg)),
               FLOW_MONITOR_SAMPLE_MASK := SampleEvery (Flow_Monitoring cfg) - 1\<rparr>"
proof -
  from assms obtain pT pU h1 h2 where p: "loadProg env True 1 (snd (l1Params cfg)) mb = Inr pT"
      "loadProg env False 0 (snd (l1Params cfg)) mb = Inr pU"
    and a: "attachMode env pT iT link_trusted (XDPMode cfg) h = (None, h1)"
      "attachMode env pU iU link_untrusted (XDPMode cfg) h1 = (None, h2)"
    and h': "h' = h2\<lparr>h_dp := (h_dp h2)\<lparr>FLOW_MONITOR_ENABLED := boolU32 (Enabled (Flow_Monitoring cfg)),
               FLOW_MONITOR_SAMPLE_MASK := SampleEvery (Flow_Monitoring cfg) - 1\<rparr>\<rparr>"
    unfolding attachBoth_def by (auto simp: andThen_None split: sum.splits)
  have "link_trusted \<noteq> link_untrusted" by (simp add: link_trusted_def link_untrusted_def)
  then show ?thesis
    using attachMode_frame [OF a(1)] attachMode_frame [OF a(2)] loadProg_Inr [OF p(1)] loadProg_Inr [OF p(2)]
    unfolding bridge_links_def h' by auto
qed

lemma attachBoth_error:
  assumes "attachBoth env cfg iT iU mb h = (Some e, h')"
  shows "h_dp h' = h_dp h"
proof (cases "loadProg env True 1 (snd (l1Params cfg)) mb"; cases "loadProg env False 0 (snd (l1Params cfg)) mb")
  fix pT pU
  assume p: "loadProg env True 1 (snd (l1Params cfg)) mb = Inr pT" "loadProg env False 0 (snd (l1Params cfg)) mb = Inr pU"
  obtain e1 h1 where a: "attachMode env pT iT link_trusted (XDPMode cfg) h = (e1, h1)" by fastforce
  obtain e2 h2 where b: "attachMode env pU iU link_untrusted (XDPMode cfg) h1 = (e2, h2)" by fastforce
  show ?thesis
    using assms p a b attachMode_frame [OF a] attachMode_frame [OF b]
    by (cases e1; cases e2) (auto simp: attachBoth_def andThen_def)
qed (use assms in \<open>auto simp: attachBoth_def\<close>)

section \<open>Lemmas on \<open>Load\<close>\<close>

lemma onDp_None: "onDp f h = (None, h') \<longleftrightarrow> (\<exists>d. f (h_dp h) = (None, d) \<and> h' = h\<lparr>h_dp := d\<rparr>)"
  by (auto simp: onDp_def split: prod.splits)

lemma populate_ok:
  assumes "populate env cfg iT iU h = (None, h')"
  shows "ReloadPolicy env cfg (h_dp h) = (None, h_dp h') \<and> h_tx h' = (h_tx h)(0 \<mapsto> iT, 1 \<mapsto> iU) \<and>
     h_links h' = h_links h \<and> h_pins h' = h_pins h"
  using assms
  by (auto simp: populate_def Let_def andThen_None onDp_None putTx_def PublishRuntimeState_def ReloadPolicy_def
      split: if_splits)

lemma onDp_links [simp]: "h_links (snd (onDp f h)) = h_links h"
  by (simp add: onDp_def split: prod.split)

lemma andThen_links:
  "h_links (snd r) = L \<Longrightarrow> (\<And>s. h_links s = L \<Longrightarrow> h_links (snd (f s)) = L) \<Longrightarrow> h_links (snd (andThen r f)) = L"
  by (auto simp: andThen_def split: prod.splits option.splits)

lemma populate_links: "h_links (snd (populate env cfg iT iU h)) = h_links h"
  unfolding populate_def Let_def
  by (intro andThen_links) (simp_all add: putTx_def PublishRuntimeState_def)

lemma distinct_sharedMapNames: "distinct sharedMapNames"
  by (simp add: sharedMapNames_def)

lemma createOrAdoptShared_frame:
  assumes "createOrAdoptShared env specs h = (e, h')"
  shows "h_links h' = h_links h \<and> (maps_inv (h_dp h) \<longrightarrow> maps_inv (h_dp h'))"
proof -
  obtain e1 h1 where a: "adoptAll env specs sharedMapNames h = (e1, h1)" by fastforce
  obtain e2 h2 where b: "adoptOrCreateMap env runtimeMapName runtimeSpec h1 = (e2, h2)" by fastforce
  show ?thesis
    using assms a b adoptAll_frame [OF a distinct_sharedMapNames] adopt_frame [OF b]
    by (cases e1) (auto simp: createOrAdoptShared_def andThen_def)
qed

lemma LoadDatapath_None:
  assumes "LoadDatapath env cfg h = (None, h')"
  obtains iT mT iU mU sp specs h1 h2 where "ifaces env (TrustedIface cfg) = Some (iT, mT)"
    "ifaces env (UntrustedIface cfg) = Some (iU, mU)" "bpf_object env = Some sp" "overrideSpec cfg sp = Some specs"
    "createOrAdoptShared env specs h = (None, h1)" "populate env cfg iT iU h1 = (None, h2)"
    "attachBoth env cfg iT iU (mT > 1500 \<or> mU > 1500) h2 = (None, h')"
  using assms
  by (auto simp: LoadDatapath_def overrideSpec_def andThen_None split: if_splits option.splits prod.splits)

lemma sized_Some: "sized n name sp = Some sp' \<Longrightarrow> \<exists>ms. sp' name = Some ms \<and> ms_max_entries ms = n \<and> (\<forall>x. x \<noteq> name \<longrightarrow> sp' x = sp x)"
  by (auto simp: sized_def)

lemma noCommonLRU_other: "x \<noteq> name \<Longrightarrow> noCommonLRU name sp x = sp x"
  by (simp add: noCommonLRU_def split: option.split)

lemma overrideSpec_l1:
  assumes "overrideSpec cfg sp = Some specs"
  shows "\<exists>ms. specs ''l1cache'' = Some ms \<and> ms_max_entries ms = fst (l1Params cfg)"
proof -
  from assms obtain sp1 sp2 where l: "sized (fst (l1Params cfg)) ''l1cache'' sp1 = Some sp2"
    and s: "specs = (if LRUPerCPU cfg then noCommonLRU ''udp_flows'' (noCommonLRU ''flows'' sp2) else sp2)"
    by (auto simp: overrideSpec_def sizeL1_def Option.bind_eq_Some_conv)
  from sized_Some [OF l] s show ?thesis by (auto simp: noCommonLRU_other)
qed

definition host_inv :: "host \<Rightarrow> bool" where
  "host_inv h \<longleftrightarrow> maps_inv (h_dp h) \<and>
     (case h_pins h ''l1cache'' of None \<Rightarrow> True | Some m \<Rightarrow> l1_entries (h_dp h) = ms_max_entries m)"

lemma createOrAdoptShared_l1:
  assumes "createOrAdoptShared env specs h = (None, h')" "host_inv h" "specs ''l1cache'' = Some ms"
  shows "l1_entries (h_dp h') = ms_max_entries ms \<and> (\<exists>m. h_pins h' ''l1cache'' = Some m \<and> ms_max_entries m = ms_max_entries ms)"
proof -
  from assms(1) obtain h1 where a: "adoptAll env specs sharedMapNames h = (None, h1)"
    and b: "adoptOrCreateMap env runtimeMapName runtimeSpec h1 = (None, h')"
    by (auto simp: createOrAdoptShared_def andThen_None)
  have l1: "\<forall>m. h_pins h1 ''l1cache'' = Some m \<longrightarrow> l1_entries (h_dp h1) = ms_max_entries m"
    using assms(2) by (intro adoptAll_l1 [OF a]) (auto simp: host_inv_def)
  have "''l1cache'' \<in> set sharedMapNames" by (simp add: sharedMapNames_def)
  then obtain m where m: "h_pins h1 ''l1cache'' = Some m" "mapCompatible m ms"
    using adoptAll_frame [OF a distinct_sharedMapNames] assms(3) by fastforce
  have "l1_entries (h_dp h') = l1_entries (h_dp h1)" "h_pins h' ''l1cache'' = h_pins h1 ''l1cache''"
    using b adopt_frame [OF b]
    by (auto simp: adoptOrCreateMap_def runtimeMapName_def fresh_map_def Let_def split: if_splits)
  then show ?thesis using l1 m by (auto simp: mapCompatible_def)
qed

lemma l1_index_less: "m < n \<Longrightarrow> l1_index k m < n"
  unfolding l1_index_def by (rule le_less_trans [OF word_and_le1])

lemma l1Params_less: "snd (l1Params cfg) < fst (l1Params cfg)"
  by (auto simp: l1Params_def word_less_nat_alt unat_minus_one_word unat_gt_0)

text \<open>Links only change in the last stage, after the control maps were written.\<close>

lemma attachBoth_tx: "h_tx (snd (attachBoth env cfg iT iU mb h)) = h_tx h"
proof (cases "loadProg env True 1 (snd (l1Params cfg)) mb"; cases "loadProg env False 0 (snd (l1Params cfg)) mb")
  fix pT pU
  assume p: "loadProg env True 1 (snd (l1Params cfg)) mb = Inr pT" "loadProg env False 0 (snd (l1Params cfg)) mb = Inr pU"
  obtain e1 h1 where a: "attachMode env pT iT link_trusted (XDPMode cfg) h = (e1, h1)" by fastforce
  obtain e2 h2 where b: "attachMode env pU iU link_untrusted (XDPMode cfg) h1 = (e2, h2)" by fastforce
  show ?thesis
    using p a b attachMode_frame [OF a] attachMode_frame [OF b]
    by (cases e1; cases e2) (auto simp: attachBoth_def andThen_def)
qed (auto simp: attachBoth_def)

lemma LoadDatapath_links:
  assumes "LoadDatapath env cfg h = (e, h')" "h_links h' \<noteq> h_links h"
  obtains iT mT iU mU sp specs h1 h2 where "ifaces env (TrustedIface cfg) = Some (iT, mT)"
    "ifaces env (UntrustedIface cfg) = Some (iU, mU)" "bpf_object env = Some sp" "overrideSpec cfg sp = Some specs"
    "createOrAdoptShared env specs h = (None, h1)" "populate env cfg iT iU h1 = (None, h2)"
    "attachBoth env cfg iT iU (mT > 1500 \<or> mU > 1500) h2 = (e, h')"
proof -
  from assms obtain iT mT iU mU sp specs where i: "ifaces env (TrustedIface cfg) = Some (iT, mT)"
    "ifaces env (UntrustedIface cfg) = Some (iU, mU)" "bpf_object env = Some sp" "overrideSpec cfg sp = Some specs"
    and r: "andThen (createOrAdoptShared env specs h) (\<lambda>h. andThen (populate env cfg iT iU h)
            (attachBoth env cfg iT iU (mT > 1500 \<or> mU > 1500))) = (e, h')"
    by (auto simp: LoadDatapath_def overrideSpec_def split: if_splits option.splits prod.splits)
  obtain e1 h1 where c: "createOrAdoptShared env specs h = (e1, h1)" by fastforce
  have l1: "h_links h1 = h_links h" using createOrAdoptShared_frame [OF c] by simp
  obtain e2 h2 where p: "populate env cfg iT iU h1 = (e2, h2)" by fastforce
  have l2: "h_links h2 = h_links h" using populate_links [of env cfg iT iU h1] p l1 by simp
  have "e1 = None" using r c l1 assms(2) by (cases e1) (auto simp: andThen_def)
  moreover have "e2 = None" using r c p l2 assms(2) \<open>e1 = None\<close> by (cases e2) (auto simp: andThen_def)
  ultimately show thesis using that [OF i] c p r by (simp add: andThen_def)
qed

lemma ctl_only_sel:
  assumes "ctl_only d d'"
  shows "flows d' = flows d" "udp_flows d' = udp_flows d" "l1_entries d' = l1_entries d"
  using arg_cong [OF assms [unfolded ctl_only_def], of flows] arg_cong [OF assms [unfolded ctl_only_def], of udp_flows]
    arg_cong [OF assms [unfolded ctl_only_def], of l1_entries] by simp_all

definition same_flows :: "host \<Rightarrow> host \<Rightarrow> bool" where
  "same_flows h h' \<longleftrightarrow> flows (h_dp h') = flows (h_dp h) \<and> udp_flows (h_dp h') = udp_flows (h_dp h)"

lemma same_flows_andThen:
  "same_flows h (snd r) \<Longrightarrow> (\<And>s. same_flows h s \<Longrightarrow> same_flows h (snd (f s))) \<Longrightarrow> same_flows h (snd (andThen r f))"
  by (auto simp: andThen_def split: prod.splits option.splits)

lemma same_flows_steps:
  "same_flows h s \<Longrightarrow> same_flows h (snd (putTx env i x s))"
  "same_flows h s \<Longrightarrow> same_flows h (snd (PublishRuntimeState ok st s))"
  "same_flows h s \<Longrightarrow> same_flows h (snd (onDp (ApplyFeatures ok cfg) s))"
  "same_flows h s \<Longrightarrow> same_flows h (snd (onDp (applyAllow env cfg) s))"
  "same_flows h s \<Longrightarrow> same_flows h (snd (onDp (applyCIDRs env cfg) s))"
  by (simp_all add: same_flows_def putTx_def PublishRuntimeState_def onDp_def ApplyFeatures_def applyAllow_def
      applyCIDRs_def split: prod.split)

lemma populate_same_flows: "same_flows h s \<Longrightarrow> same_flows h (snd (populate env cfg iT iU s))"
  unfolding populate_def Let_def by (intro same_flows_andThen same_flows_steps)

lemma attachBoth_same_flows: "same_flows h s \<Longrightarrow> same_flows h (snd (attachBoth env cfg iT iU mb s))"
proof -
  assume s: "same_flows h s"
  obtain e s' where a: "attachBoth env cfg iT iU mb s = (e, s')" by fastforce
  show ?thesis
  proof (cases e)
    case None
    with a attachBoth_ok [of env cfg iT iU mb s s'] s show ?thesis by (simp add: same_flows_def)
  next
    case (Some x)
    with a attachBoth_error [of env cfg iT iU mb s x s'] s show ?thesis by (simp add: same_flows_def)
  qed
qed

section \<open>A concrete host\<close>

text \<open>An empty pin directory, an object with every map, two interfaces, calls that succeed.\<close>

definition ok_sync :: sync_env where
  "ok_sync = \<lparr>sy_iter_ok = True, sy_ok = (\<lambda>x. True), sy_order = (\<lambda>ks. ks)\<rparr>"

definition sample_sys :: sysenv where
  "sample_sys = \<lparr>memlock_ok = True, pin_mkdir_ok = True,
     ifaces = [''ens1'' \<mapsto> (3, 1500), ''ens2'' \<mapsto> (4, 1500)],
     bpf_object = Some (\<lambda>n. if n \<in> set sharedMapNames
       then Some \<lparr>ms_type = 9, ms_key_size = 16, ms_value_size = 12, ms_max_entries = 4, ms_flags = 0\<rparr> else None),
     has_var = (\<lambda>v. True), stale_removed = (\<lambda>n. True), create_ok = (\<lambda>n. True), publish_ok = True,
     tx_put_ok = (\<lambda>i. True), features_ok = True, allow_env = ok_sync, cidr_env = ok_sync,
     prog_ok = (\<lambda>r. True), link_update_ok = (\<lambda>p f. True), link_attach_ok = (\<lambda>p f. True),
     link_pin_ok = (\<lambda>p f. True), now_nano = 0\<rparr>"

definition bare_dp :: dp where
  "bare_dp = \<lparr>flows = [], udp_flows = [], flow_monitor_cidrs = [], flow_monitor_counters = [],
     l1cache = (\<lambda>c i. \<lparr>l1_key = zero_key, l1_last_seen = 0, l1_state = 0\<rparr>), l1_entries = 1, features = None,
     server_allow = [], synbkt = [], drop_reasons = (\<lambda>c r. 0), stats_cpu = (\<lambda>c. zero_stats),
     stats_vlan = (\<lambda>c v. \<lparr>vs_pkts = 0, vs_bytes = 0, vs_drops = 0\<rparr>),
     FLOW_MONITOR_ENABLED = 0, FLOW_MONITOR_SAMPLE_MASK = 63\<rparr>"

definition bare_host :: host where
  "bare_host = \<lparr>h_dp = bare_dp, h_tx = Map.empty,
     h_runtime = \<lparr>TCPLive = 0, UDPLive = 0, LastGCUnixNano = 0, DaemonStartUnixNano = 0\<rparr>,
     h_pins = Map.empty, h_links = Map.empty\<rparr>"

definition load_config :: Config where
  "load_config = Default\<lparr>TrustedIface := ''ens1'', UntrustedIface := ''ens2'', Mode := ''enforce'',
     ServerAllow := Some [''9.9.9.9:53'']\<rparr>"

lemma bare_host_inv: "host_inv bare_host"
  by (simp add: host_inv_def bare_host_def bare_dp_def maps_inv_def kmap_inv_def)

lemma ok_sync_fair: "fair_order ok_sync"
  by (simp add: fair_order_def ok_sync_def)

lemma sample_load_ok: "fst (LoadDatapath sample_sys load_config bare_host) = None"
  by code_simp

section \<open>Properties of the loader\<close>

text \<open>C3: what a successful \<open>Load\<close> leaves behind: the live policy is the configured one, the
  allowlist and the monitored networks are exactly the configured ones whatever a pinned
  map held before, the two links run the trusted and the untrusted instance, each
  redirecting to the other port, the device map names the two interfaces, and no flow
  key can index beyond the L1 cache.\<close>

theorem Load_correct:
  assumes "LoadDatapath env cfg h = (None, h')" "host_inv h"
    and "fair_order (allow_env env)" "fair_order (cidr_env env)"
  shows "ctl_ok cfg (h_dp h') \<and> bridge_links cfg h' \<and>
    (\<exists>iT iU mT mU. ifaces env (TrustedIface cfg) = Some (iT, mT) \<and> ifaces env (UntrustedIface cfg) = Some (iU, mU) \<and>
       h_tx h' 0 = Some iT \<and> h_tx h' 1 = Some iU) \<and>
    (\<forall>k. l1_index k (snd (l1Params cfg)) < l1_entries (h_dp h'))"
proof -
  from assms(1) obtain iT mT iU mU sp specs h1 h2 where i: "ifaces env (TrustedIface cfg) = Some (iT, mT)"
    "ifaces env (UntrustedIface cfg) = Some (iU, mU)" and o: "bpf_object env = Some sp" "overrideSpec cfg sp = Some specs"
    and c: "createOrAdoptShared env specs h = (None, h1)" and p: "populate env cfg iT iU h1 = (None, h2)"
    and a: "attachBoth env cfg iT iU (mT > 1500 \<or> mU > 1500) h2 = (None, h')"
    by (rule LoadDatapath_None)
  have i1: "maps_inv (h_dp h1)" using createOrAdoptShared_frame [OF c] assms(2) by (simp add: host_inv_def)
  obtain ms where ms: "specs ''l1cache'' = Some ms" "ms_max_entries ms = fst (l1Params cfg)"
    using overrideSpec_l1 [OF o(2)] by blast
  have e1: "l1_entries (h_dp h1) = fst (l1Params cfg)" using createOrAdoptShared_l1 [OF c assms(2) ms(1)] ms(2) by simp
  note p1 = populate_ok [OF p]
  have r: "ctl_only (h_dp h1) (h_dp h2)" "ctl_ok cfg (h_dp h2)"
    using ReloadPolicy_frame [OF p1 [THEN conjunct1] i1 assms(3,4)] by auto
  from r(1) have e2: "l1_entries (h_dp h2) = l1_entries (h_dp h1)" by (rule ctl_only_sel)
  note a1 = attachBoth_ok [OF a]
  have "ctl_ok cfg (h_dp h')" using a1 r(2) by (simp add: ctl_ok_def)
  moreover have "l1_entries (h_dp h') = fst (l1Params cfg)" using a1 e1 e2 by simp
  ultimately show ?thesis using a1 p1 i l1_index_less [OF l1Params_less] by auto
qed

theorem Load_correct_witness:
  "ctl_ok load_config (h_dp (snd (LoadDatapath sample_sys load_config bare_host))) \<and>
   bridge_links load_config (snd (LoadDatapath sample_sys load_config bare_host))"
proof -
  have l: "LoadDatapath sample_sys load_config bare_host = (None, snd (LoadDatapath sample_sys load_config bare_host))"
    using sample_load_ok by (metis prod.collapse)
  have "fair_order (allow_env sample_sys)" "fair_order (cidr_env sample_sys)" by (simp_all add: sample_sys_def ok_sync_fair)
  from Load_correct [OF l bare_host_inv this] show ?thesis by blast
qed

text \<open>C11: the first packet sees real policy: if \<open>Load\<close> changes what runs on a port at all,
  even when it then fails, the policy, the allowlist and the redirect targets were
  completely written before.\<close>

theorem Load_policy_before_attach:
  assumes "LoadDatapath env cfg h = (e, h')" "h_links h' \<noteq> h_links h" "host_inv h"
    and "fair_order (allow_env env)" "fair_order (cidr_env env)"
  shows "ctl_ok cfg (h_dp h') \<and> h_tx h' 0 \<noteq> None \<and> h_tx h' 1 \<noteq> None"
proof -
  from assms(1,2) obtain iT iU specs mb h1 h2 where c: "createOrAdoptShared env specs h = (None, h1)"
    and p: "populate env cfg iT iU h1 = (None, h2)" and a: "attachBoth env cfg iT iU mb h2 = (e, h')"
    by (rule LoadDatapath_links)
  have i1: "maps_inv (h_dp h1)" using createOrAdoptShared_frame [OF c] assms(3) by (simp add: host_inv_def)
  note p1 = populate_ok [OF p]
  have r: "ctl_ok cfg (h_dp h2)" using ReloadPolicy_frame [OF p1 [THEN conjunct1] i1 assms(4,5)] by auto
  have "ctl_ok cfg (h_dp h')"
    using r a attachBoth_ok [of env cfg iT iU] attachBoth_error [of env cfg iT iU] by (cases e) (auto simp: ctl_ok_def)
  moreover have "h_tx h' = h_tx h2" using attachBoth_tx [of env cfg iT iU mb h2] a by simp
  ultimately show ?thesis using p1 by simp
qed

text \<open>A load whose second attachment fails: the trusted port stays attached and pinned.\<close>

definition half_sys :: sysenv where
  "half_sys = sample_sys\<lparr>link_attach_ok := (\<lambda>p f. p = link_trusted)\<rparr>"

lemma half_load:
  "(case LoadDatapath half_sys load_config bare_host of (e, h) \<Rightarrow>
      (e, h_links h link_trusted \<noteq> None, h_links h link_untrusted \<noteq> None)) =
   (Some (ErrAttach link_untrusted), True, False)"
  by code_simp

theorem Load_policy_before_attach_witness:
  "ctl_ok load_config (h_dp (snd (LoadDatapath half_sys load_config bare_host)))"
proof -
  obtain e h where l: "LoadDatapath half_sys load_config bare_host = (e, h)" by fastforce
  with half_load have "h_links h link_trusted \<noteq> None" by auto
  then have n: "h_links h \<noteq> h_links bare_host" by (auto simp: bare_host_def)
  have "fair_order (allow_env half_sys)" "fair_order (cidr_env half_sys)"
    by (simp_all add: half_sys_def sample_sys_def ok_sync_fair)
  from Load_policy_before_attach [OF l n bare_host_inv this] l show ?thesis by simp
qed

text \<open>a restart keeps the connections: when the pinned flow tables match the sizes and
  flags the configuration asks for, \<open>Load\<close> leaves every TCP and UDP flow in place,
  whether it succeeds or fails later on.\<close>

theorem Load_keeps_flows:
  assumes "LoadDatapath env cfg h = (e, h')" "bpf_object env = Some sp" "overrideSpec cfg sp = Some specs"
    and "h_pins h ''flows'' = Some m" "specs ''flows'' = Some ms" "mapCompatible m ms"
    and "h_pins h ''udp_flows'' = Some um" "specs ''udp_flows'' = Some ums" "mapCompatible um ums"
  shows "flows (h_dp h') = flows (h_dp h) \<and> udp_flows (h_dp h') = udp_flows (h_dp h)"
proof -
  have c: "same_flows h (snd (createOrAdoptShared env specs h))"
  proof -
    obtain e1 h1 where a: "adoptAll env specs sharedMapNames h = (e1, h1)" by fastforce
    have "same_flows h h1" using adoptAll_keeps [OF a distinct_sharedMapNames] assms by (auto simp: same_flows_def)
    moreover obtain e2 h2 where b: "adoptOrCreateMap env runtimeMapName runtimeSpec h1 = (e2, h2)" by fastforce
    then have "same_flows h1 h2" using adopt_frame [OF b] by (simp add: same_flows_def runtimeMapName_def)
    ultimately show ?thesis using a b by (cases e1) (auto simp: createOrAdoptShared_def andThen_def same_flows_def)
  qed
  have r: "same_flows h h" by (simp add: same_flows_def)
  from assms(3) obtain sp1 where sp1: "sizeTables cfg sp = Some sp1" "sizeL1 cfg sp1 = Some specs"
    by (auto simp: overrideSpec_def Option.bind_eq_Some_conv)
  have "same_flows h (snd (LoadDatapath env cfg h))"
    unfolding LoadDatapath_def assms(2) option.case sp1
    using c r by (auto intro!: same_flows_andThen populate_same_flows attachBoth_same_flows split: option.splits prod.splits)
  then show ?thesis using assms(1) by (simp add: same_flows_def)
qed

definition adopted_host :: host where
  "adopted_host = (snd (LoadDatapath sample_sys load_config bare_host))
     \<lparr>h_dp := bare_dp\<lparr>flows := [(zero_key, \<lparr>client_isn = 5, last_seen = 1, fstate = 3, fflags = 1\<rparr>)]\<rparr>\<rparr>"

text \<open>C12: the allowlist of the data path after a successful reconciliation is exactly the
  configured one, entries a previous run left in the pinned map included; at every moment
  on the way, also when a call fails, entries that are wanted before and after stay in
  place and nothing that is in neither list appears.\<close>

theorem SyncServerAllow_correct:
  assumes "SyncServerAllow env cfg m = (e, ms)" "desiredServers (elems (ServerAllow cfg)) = Inr ks"
    and "kmap_inv m" "fair_order env"
  shows "(e = None \<longrightarrow> dom (kget (last ms)) = set ks) \<and>
    (\<forall>m' \<in> set ms. dom (kget m) \<inter> set ks \<subseteq> dom (kget m') \<and> dom (kget m') \<subseteq> dom (kget m) \<union> set ks)"
proof -
  have s: "syncKeys env allow_cap ks m = (e, ms)" using assms(1,2) by (simp add: SyncServerAllow_def)
  show ?thesis using syncKeys_exact [OF assms(3,4)] syncKeys_between [OF assms(3,4) s] s by blast
qed

definition old_allow :: "(bytes, u8) kmap" where
  "old_allow = [([1, 1, 1, 1, 0, 80, 0, 0], 1)]"

theorem SyncServerAllow_correct_witness:
  "\<exists>ms. SyncServerAllow ok_sync load_config old_allow = (None, ms) \<and>
     dom (kget (last ms)) = {[9, 9, 9, 9, 0, 53, 0, 0]}"
proof -
  have d: "desiredServers (elems (ServerAllow load_config)) = Inr [[9, 9, 9, 9, 0, 53, 0, 0]]" by code_simp
  have s: "fst (SyncServerAllow ok_sync load_config old_allow) = None" by code_simp
  obtain ms where r: "SyncServerAllow ok_sync load_config old_allow = (None, ms)" using s by (metis prod.collapse)
  have "kmap_inv old_allow" by (simp add: kmap_inv_def old_allow_def)
  from SyncServerAllow_correct [OF r d this ok_sync_fair] r show ?thesis by auto
qed

text \<open>
  The window: replacing a list by one without a common entry passes through the empty
  allowlist, since the stale entries are deleted before the new ones are added.
\<close>

lemma allowlist_empty_window:
  "map kkeys (snd (SyncServerAllow ok_sync load_config old_allow)) =
     [[[1, 1, 1, 1, 0, 80, 0, 0]], [], [[9, 9, 9, 9, 0, 53, 0, 0]]]"
  by code_simp

section \<open>Live reload and the running instance\<close>

text \<open>a live reload touches nothing but the policy, the allowlist and the monitored
  networks, on every outcome: flow tables, L1 cache, counters and statistics stay as they
  are; and when it succeeds the control maps are exactly the configured ones.\<close>

theorem ReloadPolicy_correct:
  assumes "ReloadPolicy env cfg d = (e, d')" "maps_inv d" "fair_order (allow_env env)" "fair_order (cidr_env env)"
  shows "d' = d\<lparr>features := features d', server_allow := server_allow d', flow_monitor_cidrs := flow_monitor_cidrs d'\<rparr> \<and>
    (e = None \<longrightarrow> ctl_ok cfg d')"
  using ReloadPolicy_frame [OF assms] by (simp add: ctl_only_def)

theorem ReloadPolicy_correct_witness:
  "ctl_ok load_config (snd (ReloadPolicy sample_sys load_config (bare_dp\<lparr>server_allow := old_allow\<rparr>)))"
proof -
  let ?d = "bare_dp\<lparr>server_allow := old_allow\<rparr>"
  have "fst (ReloadPolicy sample_sys load_config ?d) = None" by code_simp
  then have r: "ReloadPolicy sample_sys load_config ?d = (None, snd (ReloadPolicy sample_sys load_config ?d))"
    by (metis prod.collapse)
  have i: "maps_inv ?d" by (simp add: maps_inv_def kmap_inv_def bare_dp_def old_allow_def)
  have "fair_order (allow_env sample_sys)" "fair_order (cidr_env sample_sys)" by (simp_all add: sample_sys_def ok_sync_fair)
  from ReloadPolicy_correct [OF r i this] show ?thesis by simp
qed

lemma desiredServers_wf:
  "\<forall>s \<in> set ss. \<exists>a p. ParseHostPort s = Inr (a, p) \<Longrightarrow> \<exists>ks. desiredServers ss = Inr ks \<and> length ks = length ss"
  by (induction ss) auto

lemma desiredCIDRs_wf:
  "\<forall>r \<in> set rs. wf_rule r \<and> trimSpace (CIDR r) = CIDR r \<Longrightarrow> \<exists>ks. desiredCIDRs rs = Inr ks \<and> length ks = length rs"
proof (induction rs)
  case (Cons r rs)
  then obtain ks where "desiredCIDRs rs = Inr ks" "length ks = length rs" by auto
  moreover have "case parseCIDR (CIDR r) of None \<Rightarrow> False | Some (a, n) \<Rightarrow> to4 a \<noteq> None"
    using Cons.prems by (auto simp: wf_rule_def split: option.splits)
  ultimately show ?case by (auto split: option.splits)
qed simp

lemma card_set_le: "length ks \<le> n \<Longrightarrow> card (set ks) \<le> n"
  using card_length [of ks] by simp

lemma ReloadPolicy_passes:
  assumes "wf_config cfg" "maps_inv d" "features_ok env"
    and "fair_order (allow_env env)" "sy_iter_ok (allow_env env)" "\<And>x. sy_ok (allow_env env) x"
    and "fair_order (cidr_env env)" "sy_iter_ok (cidr_env env)" "\<And>x. sy_ok (cidr_env env) x"
    and "length (elems (ServerAllow cfg)) \<le> 1024"
    and "\<forall>r \<in> set (elems (CIDRs (Flow_Monitoring cfg))). trimSpace (CIDR r) = CIDR r"
  shows "fst (ReloadPolicy env cfg d) = None"
proof -
  define d1 where "d1 = d\<lparr>features := Some (featuresFrom cfg)\<rparr>"
  have i1: "maps_inv d1" using assms(2) by (simp add: d1_def maps_inv_def)
  obtain ks where ks: "desiredServers (elems (ServerAllow cfg)) = Inr ks" "length ks \<le> 1024"
    using desiredServers_wf [of "elems (ServerAllow cfg)"] assms(1,10) by (auto simp: wf_config_def)
  have "fst (syncKeys (allow_env env) allow_cap ks (server_allow d1)) = None"
    using assms i1 ks(2) by (intro syncKeys_succeeds) (auto simp: maps_inv_def allow_cap_def intro: card_set_le)
  then obtain d2 where a: "applyAllow env cfg d1 = (None, d2)"
    by (cases "syncKeys (allow_env env) allow_cap ks (server_allow d1)") (simp add: applyAllow_def SyncServerAllow_def ks)
  have i2: "maps_inv d2" using applyAllow_frame [OF a i1 assms(4)] by simp
  have wr: "\<forall>r \<in> set (elems (CIDRs (Flow_Monitoring cfg))). wf_rule r" "length (elems (CIDRs (Flow_Monitoring cfg))) \<le> 4096"
    using assms(1) by (simp_all add: wf_config_def wf_monitoring_def)
  obtain cs where cs: "desiredCIDRs (elems (CIDRs (Flow_Monitoring cfg))) = Inr cs" "length cs \<le> 4096"
    using desiredCIDRs_wf [of "elems (CIDRs (Flow_Monitoring cfg))"] wr assms(11) by auto
  have "fst (syncKeys (cidr_env env) cidr_cap cs (flow_monitor_cidrs d2)) = None"
    using assms i2 cs(2) by (intro syncKeys_succeeds) (auto simp: maps_inv_def cidr_cap_def intro: card_set_le)
  then have "fst (applyCIDRs env cfg d2) = None"
    by (cases "syncKeys (cidr_env env) cidr_cap cs (flow_monitor_cidrs d2)") (simp add: applyCIDRs_def SyncFlowMonitorCIDRs_def cs)
  then show ?thesis using a assms(3) by (simp add: ReloadPolicy_def ApplyFeatures_def andThen_def d1_def)
qed

text \<open>a valid configuration can be applied: if every map call succeeds, the allowlist fits
  the kernel map and the CIDR strings carry no surrounding white space, a live reload of
  a configuration that \<open>Validate\<close> accepts does not fail.\<close>

theorem ReloadPolicy_succeeds:
  assumes "wf_config cfg" "maps_inv d" "features_ok env"
    and "fair_order (allow_env env)" "sy_iter_ok (allow_env env)" "\<And>x. sy_ok (allow_env env) x"
    and "fair_order (cidr_env env)" "sy_iter_ok (cidr_env env)" "\<And>x. sy_ok (cidr_env env) x"
    and "length (elems (ServerAllow cfg)) \<le> 1024"
    and "\<forall>r \<in> set (elems (CIDRs (Flow_Monitoring cfg))). trimSpace (CIDR r) = CIDR r"
  shows "fst (ReloadPolicy env cfg d) = None"
  by (rule ReloadPolicy_passes [OF assms])

text \<open>TTLs survive the conversion to coarse ticks: a TTL is never shortened, and it is
  lengthened by less than one tick.\<close>

theorem secToTicks_rounds_up:
  "unat s * 1000000000 \<le> unat (secToTicks s) * 2 ^ 30 \<and>
   unat (secToTicks s) * 2 ^ 30 < unat s * 1000000000 + 2 ^ 30"
  by (rule secToTicks_cover)

text \<open>the displayed TTL is the configured one or one second more, for every TTL but the
  largest 32-bit value.\<close>

theorem ticks_round_trip:
  assumes "s \<noteq> 0xFFFFFFFF"
  shows "ticksToSec (secToTicks s) = s \<or> ticksToSec (secToTicks s) = s + 1"
proof (rule ticksToSec_secToTicks)
  have "unat s \<noteq> unat (0xFFFFFFFF :: u32)" using assms by (metis word_unat_eq_iff)
  then have "unat s \<noteq> 2 ^ 32 - 1" by simp
  then show "unat s < 2 ^ 32 - 1" using unat_u32_less [of s] by simp
qed

lemma ticks_round_trip_wraps: "ticksToSec (secToTicks 0xFFFFFFFF) = 0"
  by code_simp

lemma to4_length: "to4 a = Some b \<Longrightarrow> length b = 4"
  by (auto simp: to4_def split: if_splits)

lemma ParseHostPort_length: "ParseHostPort s = Inr (a, p) \<Longrightarrow> length a = 4"
  by (auto simp: ParseHostPort_def to4_length split: option.splits prod.splits)

lemma u16_bytes_eq:
  fixes p q :: u16
  assumes lo: "ucast p = (ucast q :: u8)" and hi: "ucast (drop_bit 8 p) = (ucast (drop_bit 8 q) :: u8)"
  shows "p = q"
proof (rule bit_word_eqI)
  fix n
  assume "n < LENGTH(16)"
  then have n: "n < 16" by simp
  show "bit p n = bit q n"
  proof (cases "n < 8")
    case True
    then show ?thesis using arg_cong [OF lo, of "\<lambda>w. bit w n"] by (simp add: bit_simps)
  next
    case False
    then have "n - 8 < 8" using n by simp
    then show ?thesis using False arg_cong [OF hi, of "\<lambda>w. bit w (n - 8)"] by (simp add: bit_simps)
  qed
qed

lemma srvKeyBytes_inj:
  assumes "length a = 4" "length b = 4" "srvKeyBytes a p = srvKeyBytes b q"
  shows "a = b \<and> p = q"
proof -
  from assms have e: "a @ [ucast (drop_bit 8 p), ucast p, 0, 0] = b @ [ucast (drop_bit 8 q), ucast q, 0, 0]"
    by (simp add: srvKeyBytes_def to4_def)
  with assms(1,2) have "a = b" "mem16 (swap16 p) = mem16 (swap16 q)" by (auto simp: swap16_bytes)
  moreover have "ucast p = (ucast q :: u8)" "ucast (drop_bit 8 p) = (ucast (drop_bit 8 q) :: u8)" using e assms(1,2) by auto
  ultimately show ?thesis using u16_bytes_eq by blast
qed

lemma desiredServers_set:
  "desiredServers ss = Inr ks \<Longrightarrow> set ks = {srvKeyBytes a p | a p s. s \<in> set ss \<and> ParseHostPort s = Inr (a, p)}"
proof (induction ss arbitrary: ks)
  case (Cons s ss)
  from Cons.prems obtain a p ks' where "ParseHostPort s = Inr (a, p)" "desiredServers ss = Inr ks'" "ks = srvKeyBytes a p # ks'"
    by (auto split: sum.splits prod.splits)
  with Cons.IH [of ks'] show ?case by auto
qed simp

text \<open>C9: the allowlist means what it says, end to end: once the control maps hold a
  configuration, the data path finds the destination of an inbound SYN (or datagram) in
  \<open>server_allow\<close> exactly when the configuration lists its address and port.\<close>

theorem allowlist_end_to_end:
  assumes "ctl_ok cfg d"
  shows "kget (server_allow d) (srv_key k) \<noteq> None \<longleftrightarrow>
    (\<exists>s \<in> set (elems (ServerAllow cfg)). ParseHostPort s = Inr (mem32 (host_ip k), swap16 (host_port k)))"
proof -
  from assms obtain ks where ks: "desiredServers (elems (ServerAllow cfg)) = Inr ks" "dom (kget (server_allow d)) = set ks"
    by (auto simp: ctl_ok_def)
  have "kget (server_allow d) (srv_key k) \<noteq> None \<longleftrightarrow> srv_key k \<in> set ks" using ks(2) by blast
  also have "\<dots> \<longleftrightarrow> (\<exists>s \<in> set (elems (ServerAllow cfg)). ParseHostPort s = Inr (mem32 (host_ip k), swap16 (host_port k)))"
  proof
    assume "srv_key k \<in> set ks"
    then obtain a p s where s: "s \<in> set (elems (ServerAllow cfg))" "ParseHostPort s = Inr (a, p)" "srv_key k = srvKeyBytes a p"
      unfolding desiredServers_set [OF ks(1)] by blast
    have "mem32 (host_ip k) = a \<and> swap16 (host_port k) = p"
      using s(3) by (intro srvKeyBytes_inj) (simp_all add: srv_key_srvKeyBytes ParseHostPort_length [OF s(2)])
    with s show "\<exists>s \<in> set (elems (ServerAllow cfg)). ParseHostPort s = Inr (mem32 (host_ip k), swap16 (host_port k))" by auto
  next
    assume "\<exists>s \<in> set (elems (ServerAllow cfg)). ParseHostPort s = Inr (mem32 (host_ip k), swap16 (host_port k))"
    then show "srv_key k \<in> set ks" unfolding desiredServers_set [OF ks(1)] srv_key_srvKeyBytes by blast
  qed
  finally show ?thesis .
qed

text \<open>\<open>ReadLivePolicy\<close> reports what was configured: after \<open>ApplyFeatures\<close> every switch
  reads back as in the configuration, and the mode does for every valid mode.\<close>

theorem ReadLivePolicy_ApplyFeatures:
  assumes "Mode cfg \<in> {''monitor'', ''enforce''}" "ApplyFeatures True cfg d = (None, d')"
  shows "\<exists>p. ReadLivePolicy True d' = Some p \<and> LpMode p = Mode cfg \<and> LpOosStrict p = OosStrict cfg \<and>
    LpAllowInboundServers p = AllowInboundServers cfg \<and> LpAllowInboundSYN p = AllowInboundSYN cfg \<and>
    LpDropFrags p = DropFrags cfg \<and> LpDropBadFlags p = DropBadFlags cfg \<and> LpFilterUDP p = FilterUDP cfg \<and>
    LpDropVlanDeep p = DropVlanDeep cfg \<and> LpDropUDPFrags p = DropUDPFrags cfg \<and> LpRejectWithRST p = RejectWithRST cfg \<and>
    LpTTLEst p = ticksToSec (secToTicks (TTLEst cfg)) \<and> ModeName True d' = Mode cfg"
proof -
  have r: "ReadLivePolicy True d' = Some (livePolicy (featuresFrom cfg))"
    using assms(2) by (auto simp: ApplyFeatures_def ReadLivePolicy_def)
  have m: "LpMode (livePolicy (featuresFrom cfg)) = Mode cfg" using assms(1) by (auto simp: livePolicy_def featuresFrom_def)
  show ?thesis
    by (rule exI [of _ "livePolicy (featuresFrom cfg)"])
       (simp add: r m ModeName_def, simp add: livePolicy_def featuresFrom_def)
qed

text \<open>flipping the mode of a running instance changes the mode and nothing else, and only
  on success.\<close>

theorem SetModePinned_frame:
  assumes "SetModePinned l p enforce h = (e, h')" "features (h_dp h) = Some fv"
  shows "if e = None
    then features (h_dp h') = Some (fv\<lparr>mode := if enforce then MODE_ENFORCE else MODE_MONITOR\<rparr>) \<and>
         h' = h\<lparr>h_dp := (h_dp h)\<lparr>features := features (h_dp h')\<rparr>\<rparr>
    else h' = h"
  using assms
  by (auto simp: SetModePinned_def MODE_ENFORCE_def MODE_MONITOR_def split: option.splits if_splits)

text \<open>C15: the monitor switch is race free: of the pairs (enabled, mask) that the running
  program can observe while \<open>ApplyFlowMonitorControl\<close> writes the two variables, every
  enabled one is the old setting or already has the new sampling mask; and on success
  the last one is the configured setting.\<close>

theorem ApplyFlowMonitorControl_race_free:
  assumes "ApplyFlowMonitorControl ok cfg cur = (e, ps)"
  shows "(\<forall>p \<in> set ps. fst p \<noteq> 0 \<longrightarrow> p = cur \<or> snd p = SampleEvery (Flow_Monitoring cfg) - 1) \<and>
    (e = None \<longrightarrow> last ps = (boolU32 (Enabled (Flow_Monitoring cfg)), SampleEvery (Flow_Monitoring cfg) - 1))"
  using assms
  by (auto simp: ApplyFlowMonitorControl_def setVarStep_def Let_def boolU32_def split: if_splits)

theorem ticks_round_trip_witness: "ticksToSec (secToTicks 300) = 300 \<or> ticksToSec (secToTicks 300) = 301"
  using ticks_round_trip [of 300] by simp

lemma sample_reload:
  "\<exists>d. ReloadPolicy sample_sys load_config bare_dp = (None, d) \<and> ctl_ok load_config d"
proof -
  obtain e d where r: "ReloadPolicy sample_sys load_config bare_dp = (e, d)" by fastforce
  have "fst (ReloadPolicy sample_sys load_config bare_dp) = None" by code_simp
  with r have "e = None" by simp
  moreover have "maps_inv bare_dp" by (simp add: maps_inv_def kmap_inv_def bare_dp_def)
  moreover have "fair_order (allow_env sample_sys)" "fair_order (cidr_env sample_sys)" by (simp_all add: sample_sys_def ok_sync_fair)
  ultimately show ?thesis using ReloadPolicy_frame [OF r] r by blast
qed

theorem allowlist_end_to_end_witness:
  "kget (server_allow (snd (ReloadPolicy sample_sys load_config bare_dp)))
     (srv_key \<lparr>inet_ip = 0, host_ip = 0x09090909, inet_port = 0, host_port = 0x3500, vlans = 0\<rparr>) \<noteq> None"
proof -
  let ?k = "\<lparr>inet_ip = 0, host_ip = 0x09090909, inet_port = 0, host_port = 0x3500, vlans = 0\<rparr>"
  obtain d where r: "ReloadPolicy sample_sys load_config bare_dp = (None, d)" and c: "ctl_ok load_config d"
    using sample_reload by blast
  have "\<exists>s \<in> set (elems (ServerAllow load_config)). ParseHostPort s = Inr (mem32 (host_ip ?k), swap16 (host_port ?k))"
    by code_simp
  with allowlist_end_to_end [OF c, of ?k] r show ?thesis by simp
qed

theorem ApplyFlowMonitorControl_race_free_witness:
  "last (snd (ApplyFlowMonitorControl (\<lambda>v. True) load_config (1, 0))) = (0, 63)"
proof -
  have r: "ApplyFlowMonitorControl (\<lambda>v. True) load_config (1, 0) = (None, [(1, 0), (0, 0), (0, 63)])" by code_simp
  from ApplyFlowMonitorControl_race_free [OF r] show ?thesis by (simp add: r)
qed

end
