(* ===== verification/Gc_Flows.thy ===== *)
theory Gc_Flows
  imports Dataplane Bpf_Safety
begin

text \<open>
  The garbage collector of \<open>internal/dataplane/gc.go\<close> and the flow browser of
  \<open>internal/dataplane/flows.go\<close>. An iteration over a kernel map delivers a list of entries
  and may end with an error; between the sweep and the deferred deletions the data path
  goes on, so the swept entries and the map the deletions work on are separate arguments.
\<close>

section \<open>The collector\<close>

text \<open>\<open>MonotonicTick\<close>: the clock reading as seconds and nanoseconds, \<open>None\<close> on failure.\<close>

definition MonotonicTick :: "(u64 \<times> u64) option \<Rightarrow> u32" where
  "MonotonicTick clk = (case clk of
     None \<Rightarrow> 0
   | Some (sec, nsec) \<Rightarrow> ucast (drop_bit nowShift (sec * 1000000000 + nsec)))"

definition ttlForState :: "Config \<Rightarrow> u8 \<Rightarrow> u32" where
  "ttlForState cfg st =
     (if st = ST_EST then secToTicks (TTLEst cfg)
      else if st = ST_CLOSING then secToTicks (TTLClosing cfg)
      else if st = ST_UDP then secToTicks (TTLUdp cfg)
      else secToTicks (TTLSyn cfg))"

text \<open>The sweep: how many entries were visited, and the keys to delete.\<close>

fun gcScan :: "Config \<Rightarrow> u32 \<Rightarrow> (flow_key \<times> flow_val) list \<Rightarrow> nat \<times> flow_key list" where
  "gcScan cfg now [] = (0, [])"
| "gcScan cfg now ((key, val) # es) =
     (case gcScan cfg now es of (tot, ex) \<Rightarrow>
        (Suc tot,
         if last_seen val > now then ex
         else if now - last_seen val > ttlForState cfg (fstate val) then key # ex
         else ex))"

text \<open>
  The deferred deletions: a deletion counts when the key is still there and the call
  passes (\<open>ok\<close>); every other one is ignored.
\<close>

fun gcDelete :: "(flow_key \<Rightarrow> bool) \<Rightarrow> flow_key list \<Rightarrow> (flow_key, flow_val) kmap \<Rightarrow> nat \<times> (flow_key, flow_val) kmap" where
  "gcDelete ok [] m = (0, m)"
| "gcDelete ok (k # ks) m =
     (if kget m k \<noteq> None \<and> ok k
      then (case gcDelete ok ks (kdel k m) of (n, m') \<Rightarrow> (Suc n, m'))
      else gcDelete ok ks m)"

definition GCOnce :: "(u64 \<times> u64) option \<Rightarrow> (flow_key \<Rightarrow> bool) \<Rightarrow> Config \<Rightarrow> (flow_key \<times> flow_val) list
    \<Rightarrow> (flow_key, flow_val) kmap \<Rightarrow> int \<times> int \<times> (flow_key, flow_val) kmap" where
  "GCOnce clk ok cfg swept m =
     (let now = MonotonicTick clk in
      if now = 0 then (0, 0, m)
      else (case gcScan cfg now swept of (tot, ex) \<Rightarrow>
              (case gcDelete ok ex m of (deleted, m') \<Rightarrow> (int tot - int deleted, int deleted, m'))))"

section \<open>The flow browser\<close>

record FlowInfo =
  Proto :: string
  InetIP :: ip
  HostIP :: ip
  InetPort :: u16
  HostPort :: u16
  OuterVID :: u16
  StateText :: string
  AgeSec :: u32

record FlowQuery =
  Protocol :: string
  VLAN :: int
  QueryText :: string
  Limit :: int
  ScanLimit :: int

record FlowScan =
  Rows :: "FlowInfo list"
  Scanned :: int
  Truncated :: bool

text \<open>The memory of a \<open>struct flow_key\<close>, which user space reads as 16 bytes.\<close>

definition key_mem :: "flow_key \<Rightarrow> bytes" where
  "key_mem k = mem32 (inet_ip k) @ mem32 (host_ip k) @ mem16 (inet_port k) @ mem16 (host_port k) @ mem32 (vlans k)"

definition stateName :: "u8 \<Rightarrow> string" where
  "stateName s = (if s = ST_SYN_SENT then ''SYN_SENT'' else if s = ST_SYN_RCVD then ''SYN_RCVD''
     else if s = ST_EST then ''EST'' else if s = ST_CLOSING then ''CLOSING''
     else if s = ST_UDP then ''UDP'' else ''NONE'')"

definition decodeFlow :: "bytes \<Rightarrow> flow_val \<Rightarrow> string \<Rightarrow> u32 \<Rightarrow> FlowInfo" where
  "decodeFlow key val proto now =
     (let vl = ld32 key 12;
          age = (if now \<ge> last_seen val then ticksToSec (now - last_seen val) else 0)
      in \<lparr>Proto = proto, InetIP = take 4 key, HostIP = take 4 (drop 4 key),
          InetPort = swap16 (ld16 key 8), HostPort = swap16 (ld16 key 10),
          OuterVID = ucast (drop_bit 12 vl AND 0x0FFF), StateText = stateName (fstate val), AgeSec = age\<rparr>)"

text \<open>
  \<open>DumpFlows\<close>: with a positive limit the loop stops once that many entries are there.
\<close>

fun dumpLoop :: "string \<Rightarrow> int \<Rightarrow> u32 \<Rightarrow> (flow_key \<times> flow_val) list \<Rightarrow> FlowInfo list \<Rightarrow> FlowInfo list" where
  "dumpLoop proto limit now [] out = out"
| "dumpLoop proto limit now ((key, val) # es) out =
     (let out1 = out @ [decodeFlow (key_mem key) val proto now] in
      if limit > 0 \<and> int (length out1) \<ge> limit then out1 else dumpLoop proto limit now es out1)"

definition DumpFlows :: "(u64 \<times> u64) option \<Rightarrow> (flow_key \<times> flow_val) list \<Rightarrow> string \<Rightarrow> int \<Rightarrow> FlowInfo list" where
  "DumpFlows clk entries proto limit = dumpLoop proto limit (MonotonicTick clk) entries []"

text \<open>
  \<open>ScanFlows\<close>. The row filter is the VLAN and the lower-cased search text; the result of
  the inner loop carries whether it was left by a break, in which case the iterator has
  no error.
\<close>

definition hayOf :: "FlowInfo \<Rightarrow> string" where
  "hayOf fi = toLower (joinWith '' '' [Proto fi, ipString (HostIP fi), ipString (InetIP fi),
     decimal (uint (HostPort fi)), decimal (uint (InetPort fi)), StateText fi])"

definition rowWanted :: "FlowQuery \<Rightarrow> string \<Rightarrow> FlowInfo \<Rightarrow> bool" where
  "rowWanted q needle fi =
     (if VLAN q \<ge> 0 \<and> uint (OuterVID fi) \<noteq> VLAN q then False
      else if needle \<noteq> [] \<and> \<not> strContains (hayOf fi) needle then False
      else True)"

fun scanLoop :: "FlowQuery \<Rightarrow> string \<Rightarrow> string \<Rightarrow> u32 \<Rightarrow> (flow_key \<times> flow_val) list \<Rightarrow> FlowScan \<Rightarrow> FlowScan \<times> bool" where
  "scanLoop q needle name now [] out = (out, False)"
| "scanLoop q needle name now ((key, val) # es) out =
     (let out1 = out\<lparr>Scanned := Scanned out + 1\<rparr> in
      if Scanned out1 > ScanLimit q then (out1\<lparr>Truncated := True\<rparr>, True)
      else
        (let fi = decodeFlow (key_mem key) val name now in
         if \<not> rowWanted q needle fi then scanLoop q needle name now es out1
         else
           (let out2 = out1\<lparr>Rows := Rows out1 @ [fi]\<rparr> in
            if int (length (Rows out2)) \<ge> Limit q then (out2\<lparr>Truncated := True\<rparr>, True)
            else scanLoop q needle name now es out2)))"

text \<open>A source is the name, the clock reading, the delivered entries and the iterator error.\<close>

type_synonym flow_source = "string \<times> (u64 \<times> u64) option \<times> (flow_key \<times> flow_val) list \<times> bool"

fun scanSources :: "FlowQuery \<Rightarrow> string \<Rightarrow> flow_source list \<Rightarrow> FlowScan \<Rightarrow> FlowScan \<times> string option" where
  "scanSources q needle [] out = (out, None)"
| "scanSources q needle ((name, clk, entries, bad) # srcs) out =
     (if Protocol q \<noteq> [] \<and> Protocol q \<noteq> ''ALL'' \<and> Protocol q \<noteq> name then scanSources q needle srcs out
      else (case scanLoop q needle name (MonotonicTick clk) entries out of
              (out1, broke) \<Rightarrow>
                (if \<not> broke \<and> bad then (out1, Some name)
                 else if Truncated out1 then (out1, None)
                 else scanSources q needle srcs out1)))"

definition normQuery :: "FlowQuery \<Rightarrow> FlowQuery" where
  "normQuery q = q\<lparr>Limit := (if Limit q \<le> 0 then 200 else Limit q),
     ScanLimit := (if ScanLimit q \<le> 0 then 10000 else ScanLimit q),
     Protocol := toUpper (trimSpace (Protocol q))\<rparr>"

definition ScanFlows :: "(u64 \<times> u64) option \<Rightarrow> (flow_key \<times> flow_val) list \<Rightarrow> bool
    \<Rightarrow> (u64 \<times> u64) option \<Rightarrow> (flow_key \<times> flow_val) list \<Rightarrow> bool \<Rightarrow> FlowQuery \<Rightarrow> FlowScan \<times> string option" where
  "ScanFlows clkT tcp badT clkU udp badU q =
     scanSources (normQuery q) (toLower (trimSpace (QueryText q)))
       [(''TCP'', clkT, tcp, badT), (''UDP'', clkU, udp, badU)]
       \<lparr>Rows = [], Scanned = 0, Truncated = False\<rparr>"

section \<open>The collector and the data path\<close>

lemma ttlForState_ttl_for: "ttlForState cfg st = ttl_for (featuresFrom cfg) st"
  by (simp add: ttlForState_def ttl_for_def featuresFrom_def)

lemma gcScan_eq:
  "gcScan cfg now es = (length es, map fst (filter (\<lambda>e. expired (featuresFrom cfg) (snd e) now) es))"
  by (induction cfg now es rule: gcScan.induct)
    (auto simp: expired_def ttlForState_ttl_for Let_def not_less)

lemma kdel_filter: "kdel k m = filter (\<lambda>e. fst e \<noteq> k) m"
  by (auto simp: kdel_def AList.delete_eq intro!: filter_cong)

lemma kdel_absent: "kget m k = None \<Longrightarrow> kdel k m = m"
  by (simp add: kdel_filter filter_id_conv map_of_eq_None_iff image_iff) metis

lemma gcDelete_map: "snd (gcDelete ok ks m) = kevict (filter ok ks) m"
proof (induction ks arbitrary: m)
  case (Cons k ks)
  have "kevict (k # ks') m = kevict ks' (kdel k m)" for ks'
    by (auto simp: kevict_def kdel_filter intro!: filter_cong)
  then show ?case using Cons kdel_absent [of m k] by (auto split: prod.splits) (metis sndI)
qed (simp add: kevict_def)

lemma length_kdel: "kmap_inv m \<Longrightarrow> kget m k \<noteq> None \<Longrightarrow> Suc (length (kdel k m)) = length m"
proof (induction m)
  case (Cons e m)
  have "kget m (fst e) = None" using Cons.prems by (simp add: kmap_inv_def map_of_eq_None_iff)
  then have "kdel (fst e) m = m" by (rule kdel_absent)
  moreover have "kmap_inv m" using Cons.prems by (simp add: kmap_inv_def)
  ultimately show ?case using Cons by (cases "k = fst e") (auto simp: kdel_filter split: if_splits)
qed simp

lemma gcDelete_count:
  "kmap_inv m \<Longrightarrow> fst (gcDelete ok ks m) + length (snd (gcDelete ok ks m)) = length m"
proof (induction ks arbitrary: m)
  case (Cons k ks)
  then show ?case
    using Cons.IH [of "kdel k m"] length_kdel [of m k]
    by (cases "gcDelete ok ks (kdel k m)") auto
qed simp

lemma expired_mono:
  assumes "expired f v now" and "now \<le> now'"
  shows "expired f v now'"
proof -
  have a: "last_seen v \<le> now" "ttl_for f (fstate v) < now - last_seen v"
    using assms(1) by (auto simp: expired_def Let_def split: if_splits)
  have b: "now - last_seen v \<le> now' - last_seen v"
    using a(1) assms(2) by (simp add: word_le_nat_alt unat_sub)
  show ?thesis
    using a b assms(2) by (auto simp: expired_def Let_def not_less)
qed

lemma kevict_expired:
  assumes "kmap_inv m"
  shows "kevict (map fst (filter (\<lambda>e. P (snd e)) m)) m = filter (\<lambda>e. \<not> P (snd e)) m"
proof -
  have inj: "inj_on fst (set m)" using assms by (simp add: kmap_inv_def distinct_map)
  have "fst x \<in> fst ` {e \<in> set m. P (snd e)} \<longleftrightarrow> P (snd x)" if "x \<in> set m" for x
    using that inj_on_image_mem_iff [OF inj that, of "{e \<in> set m. P (snd e)}"] by simp
  then show ?thesis
    unfolding kevict_def by (intro filter_cong refl) simp
qed

lemma kget_filter:
  "kmap_inv m \<Longrightarrow> kget (filter (\<lambda>e. P (snd e)) m) k = (case kget m k of None \<Rightarrow> None | Some v \<Rightarrow> if P v then Some v else None)"
  by (induction m) (auto simp: kmap_inv_def map_of_eq_None_iff image_iff split: option.splits)

lemma live_flow_unexpired:
  assumes "kmap_inv m" and "now \<le> now'"
  shows "live_flow f k now' (filter (\<lambda>e. \<not> expired f (snd e) now) m) = live_flow f k now' m"
  using assms expired_mono
  by (cases "kget m k") (auto simp: live_flow_def kget_filter [where P = "\<lambda>v. \<not> expired f v now"])

text \<open>Removing some of the expired entries, whichever, changes no live entry.\<close>

lemma live_flow_GCOnce:
  assumes "kmap_inv m" and "MonotonicTick clk \<le> now" and "expired f = expired (featuresFrom cfg)"
  shows "live_flow f k now (snd (snd (GCOnce clk ok cfg m m))) = live_flow f k now m"
proof (cases "MonotonicTick clk = 0")
  case False
  let ?ex = "map fst (filter (\<lambda>e. expired f (snd e) (MonotonicTick clk)) m)"
  have "snd (snd (GCOnce clk ok cfg m m)) = kevict (filter ok ?ex) m"
    using False by (simp add: GCOnce_def gcScan_eq gcDelete_map [symmetric] assms(3) Let_def split: prod.splits)
  moreover have "expired f v now" if "kget m k = Some v" "k \<in> set ?ex" for v
    using that assms(1,2) expired_mono by (auto simp: kmap_inv_def map_of_eq_Some_iff) (metis eq_key_imp_eq_value)
  ultimately show ?thesis by (cases "kget m k") (auto simp: live_flow_def)
qed (simp add: GCOnce_def)

text \<open>C8: a sweep that nothing interferes with removes exactly the entries the data path treats as
  absent. With the clock readable and the deletions passing, what remains are the entries
  that are not \<open>expired\<close> under the policy \<open>featuresFrom cfg\<close> writes, the reported live
  occupancy is their number, and the reported deletions are the rest.\<close>

theorem GCOnce_exact:
  assumes "kmap_inv m" and "MonotonicTick clk \<noteq> 0" and "\<And>k. ok k"
  shows "GCOnce clk ok cfg m m =
    (let m' = filter (\<lambda>e. \<not> expired (featuresFrom cfg) (snd e) (MonotonicTick clk)) m
     in (int (length m'), int (length m) - int (length m'), m'))"
proof -
  define ex where "ex = map fst (filter (\<lambda>e. expired (featuresFrom cfg) (snd e) (MonotonicTick clk)) m)"
  have scan: "gcScan cfg (MonotonicTick clk) m = (length m, ex)" by (simp add: gcScan_eq ex_def)
  have okx: "filter ok ex = ex" using assms(3) by (simp add: filter_id_conv)
  have map: "snd (gcDelete ok ex m) = filter (\<lambda>e. \<not> expired (featuresFrom cfg) (snd e) (MonotonicTick clk)) m"
    unfolding gcDelete_map okx unfolding ex_def by (rule kevict_expired [OF assms(1)])
  have "fst (gcDelete ok ex m) + length (snd (gcDelete ok ex m)) = length m"
    by (rule gcDelete_count [OF assms(1)])
  then show ?thesis
    using assms(2) map by (simp add: GCOnce_def scan Let_def case_prod_beta)
qed

text \<open>the collector deletes nothing but keys it saw expired. Whatever the data path did to
  the map after the sweep, and whichever deletions fail, no entry is added or changed, and
  an entry that disappears was swept with a value that had outlived the TTL of its state;
  a failed clock reading changes nothing at all.\<close>

theorem GCOnce_deletes_only_expired:
  assumes "GCOnce clk ok cfg swept m = (live, deleted, m')"
  shows "kget m' k = kget m k \<or>
    kget m' k = None \<and> MonotonicTick clk \<noteq> 0 \<and>
    (\<exists>v. (k, v) \<in> set swept \<and> expired (featuresFrom cfg) v (MonotonicTick clk))"
proof (cases "MonotonicTick clk = 0")
  case True
  then show ?thesis using assms by (simp add: GCOnce_def)
next
  case False
  then have "m' = kevict (filter ok (map fst (filter (\<lambda>e. expired (featuresFrom cfg) (snd e) (MonotonicTick clk)) swept))) m"
    using assms by (auto simp: GCOnce_def gcScan_eq gcDelete_map [symmetric] Let_def split: prod.splits)
  then show ?thesis using False by (auto simp: image_iff)
qed

text \<open>The verdicts depend on a flow table only through the live entry of the key.\<close>

lemma tbkt_charge_flows:
  "tbkt_charge key rate tnow upd (s\<lparr>flows := x, udp_flows := y\<rparr>) =
     (fst (tbkt_charge key rate tnow upd s), (snd (tbkt_charge key rate tnow upd s))\<lparr>flows := x, udp_flows := y\<rparr>)"
  by (auto simp: tbkt_charge_def split: option.splits prod.splits)

lemma inbound_syn_verdict:
  "fst (inbound_syn env f k now live s) =
     (if syn_permitted f k s \<and> fst (syn_token_ok env (inet_ip k) s) \<and>
         fst (syn_global_ok env (snd (syn_token_ok env (inet_ip k) s)))
      then ACT_FORWARD else Reject RSN_INBOUND_SYN)"
  by (cases "syn_token_ok env (inet_ip k) s"; cases "syn_global_ok env (snd (syn_token_ok env (inet_ip k) s))")
    (auto simp: inbound_syn_def split: bool.splits)

lemma inbound_syn_sweep:
  "fst (inbound_syn env f k now live (s\<lparr>flows := x, udp_flows := y\<rparr>)) = fst (inbound_syn env f k now live s)"
  by (simp add: inbound_syn_verdict syn_permitted_def syn_token_ok_def syn_global_ok_def tbkt_charge_flows)

lemma handle_inbound_cong:
  assumes "live_flow f k now x = live_flow f k now (flows s)"
  shows "fst (handle_inbound env f k fl ack now (s\<lparr>flows := x, udp_flows := y\<rparr>)) = fst (handle_inbound env f k fl ack now s)"
  using assms unfolding handle_inbound_def Let_def
  by (simp add: inbound_syn_sweep inbound_synack_def inbound_rst_def inbound_data_def Let_def split: option.splits)

lemma handle_outbound_verdict:
  "fst (handle_outbound env f k fl sq now s) =
     (if fl AND (TCP_SYN OR TCP_ACK) = TCP_SYN \<or> fl AND TCP_RST \<noteq> 0 \<or>
         live_flow f k now (flows s) \<noteq> None \<or> oos_out_strict f = 0
      then ACT_FORWARD else Reject RSN_OOS_OUT)"
  by (simp add: handle_outbound_def live_flow_def Let_def split: option.splits prod.splits)

lemma handle_outbound_cong:
  "live_flow f k now x = live_flow f k now (flows s) \<Longrightarrow>
     fst (handle_outbound env f k fl sq now (s\<lparr>flows := x, udp_flows := y\<rparr>)) = fst (handle_outbound env f k fl sq now s)"
  by (simp add: handle_outbound_verdict)

lemma handle_inbound_udp_cong:
  "live_flow f k now y = live_flow f k now (udp_flows s) \<Longrightarrow>
     fst (handle_inbound_udp f k now (s\<lparr>flows := x, udp_flows := y\<rparr>)) = fst (handle_inbound_udp f k now s)"
  by (simp add: handle_inbound_udp_def split: option.splits)

lemma handle_outbound_udp_cong:
  "fst (handle_outbound_udp env k now' t) = fst (handle_outbound_udp env k now' s)"
  by (simp add: handle_outbound_udp_def split: option.splits)


text \<open>Concrete inputs: two flows at tick 900, one idle for too long, one fresh.\<close>

definition gc_clock :: "(u64 \<times> u64) option" where
  "gc_clock = Some (966, 367641600)"

definition gc_flow :: "u32 \<Rightarrow> u8 \<Rightarrow> flow_val" where
  "gc_flow seen st = \<lparr>client_isn = 7, last_seen = seen, fstate = st, fflags = FL_ISN_VALID\<rparr>"

definition gc_table :: "(flow_key, flow_val) kmap" where
  "gc_table = [(sample_key, gc_flow 100 ST_SYN_SENT), (sample_key\<lparr>host_port := 9\<rparr>, gc_flow 899 ST_SYN_SENT)]"

lemma gc_samples: "MonotonicTick gc_clock = 900" "kmap_inv gc_table"
  by code_simp+

theorem GCOnce_exact_witness:
  "GCOnce gc_clock (\<lambda>_. True) Default gc_table gc_table =
     (1, 1, [(sample_key\<lparr>host_port := 9\<rparr>, gc_flow 899 ST_SYN_SENT)])"
proof -
  have f: "filter (\<lambda>e. \<not> expired (featuresFrom Default) (snd e) 900) gc_table =
      [(sample_key\<lparr>host_port := 9\<rparr>, gc_flow 899 ST_SYN_SENT)]"
    by code_simp
  show ?thesis
    using GCOnce_exact [of gc_table gc_clock "\<lambda>_. True" Default]
    by (simp add: gc_samples f Let_def) (simp add: gc_table_def)
qed

theorem GCOnce_deletes_only_expired_witness:
  "\<exists>v. (sample_key, v) \<in> set gc_table \<and> expired (featuresFrom Default) v 900"
proof -
  have r: "GCOnce gc_clock (\<lambda>_. True) Default gc_table gc_table =
      (1, 1, [(sample_key\<lparr>host_port := 9\<rparr>, gc_flow 899 ST_SYN_SENT)])" by code_simp
  have "kget [(sample_key\<lparr>host_port := 9\<rparr>, gc_flow 899 ST_SYN_SENT)] sample_key \<noteq> kget gc_table sample_key"
    by code_simp
  then show ?thesis
    using GCOnce_deletes_only_expired [OF r, of sample_key] by (simp add: gc_samples)
qed


text \<open>
  The deferred deletion does not look again: a flow that a packet refreshed after the sweep
  visited it is deleted all the same, although it is not expired.
\<close>

lemma gc_deletes_refreshed:
  "kget (snd (snd (GCOnce gc_clock (\<lambda>_. True) Default gc_table
      (kset sample_key (gc_flow 900 ST_EST) gc_table)))) sample_key = None"
  by code_simp

section \<open>What the browser shows\<close>

text \<open>The memory layout: storing a word and loading it again.\<close>

lemma byteAt_append: "byteAt (xs @ ys) i = (if i < length xs then xs ! i else byteAt ys (i - length xs))"
  by (auto simp: byteAt_def nth_append)

lemma join16: "ucast (ucast x :: u8) OR push_bit 8 (ucast (ucast (drop_bit 8 x) :: u8)) = x" for x :: u16
  by (rule bit_word_eqI) (auto simp: bit_simps)

lemma join32:
  "ucast (ucast x :: u8) OR push_bit 8 (ucast (ucast (drop_bit 8 x) :: u8)) OR
     push_bit 16 (ucast (ucast (drop_bit 16 x) :: u8)) OR push_bit 24 (ucast (ucast (drop_bit 24 x) :: u8)) = x" for x :: u32
proof (rule bit_word_eqI)
  fix n
  assume "n < LENGTH(32)"
  then consider "n < 8" | "8 \<le> n" "n < 16" | "16 \<le> n" "n < 24" | "24 \<le> n" "n < 32" by force
  then show "bit ((ucast (ucast x :: u8) :: u32) OR push_bit 8 (ucast (ucast (drop_bit 8 x) :: u8)) OR
      push_bit 16 (ucast (ucast (drop_bit 16 x) :: u8)) OR push_bit 24 (ucast (ucast (drop_bit 24 x) :: u8))) n = bit x n"
    by cases (auto simp: bit_simps)
qed

lemma mem32_ld32: "i + 4 \<le> length fr \<Longrightarrow> mem32 (ld32 fr i) = take 4 (drop i fr)"
proof -
  assume a: "i + 4 \<le> length fr"
  have "take 4 (drop i fr) = [fr ! i, fr ! (i + 1), fr ! (i + 2), fr ! (i + 3)]"
    using a by (intro nth_equalityI) (auto simp: less_Suc_eq numeral_eq_Suc)
  moreover have "mem32 (ld32 fr i) = [byteAt fr i, byteAt fr (i + 1), byteAt fr (i + 2), byteAt fr (i + 3)]"
    unfolding mem32_def ld32_def by (intro list.inject [THEN iffD2] conjI refl; rule bit_word_eqI; auto simp: bit_simps dest: bit_imp_le_length)
  ultimately show ?thesis using a by (simp add: byteAt_def)
qed

lemma key_mem_words:
  "take 4 (key_mem k) = mem32 (inet_ip k)" "take 4 (drop 4 (key_mem k)) = mem32 (host_ip k)"
  "ld16 (key_mem k) 8 = inet_port k" "ld16 (key_mem k) 10 = host_port k" "ld32 (key_mem k) 12 = vlans k"
  by (simp_all add: key_mem_def mem32_def mem16_def ld16_def ld32_def byteAt_def join16 join32)

lemma swap16_ld16: "swap16 (ld16 fr i) = push_bit 8 (ucast (byteAt fr i)) OR ucast (byteAt fr (i + 1))"
  unfolding swap16_def ld16_def by (rule bit_word_eqI) (auto simp: bit_simps dest: bit_imp_le_length)

lemma bit_small: "x < 4096 \<Longrightarrow> bit x n \<Longrightarrow> n < 12" for x :: u32
proof -
  assume x: "x < 4096" and b: "bit x n"
  have "unat x < 2 ^ 12" using x by (simp add: word_less_nat_alt)
  then have "take_bit 12 (unat x) = unat x" by (simp add: take_bit_nat_eq_self_iff)
  then have "take_bit 12 x = x" by (metis unsigned_take_bit_eq word_unat_eq_iff)
  then show "n < 12" using b by (metis bit_take_bit_iff)
qed

lemma outer_vid_bits:
  fixes vid inner :: u32
  assumes "vid < 4096" and "inner < 4096"
  shows "drop_bit 12 (push_bit 12 vid OR inner) AND 0x0FFF = vid"
proof -
  have m: "(0x0FFF :: u32) = mask 12" by (simp add: mask_eq_exp_minus_1)
  show ?thesis
    unfolding m using bit_small [OF assms(1)] bit_small [OF assms(2)]
    by (intro bit_word_eqI) (auto simp: bit_simps dest: bit_imp_le_length, fastforce)
qed

text \<open>the browser shows the connection of the packet. For an entry under the key that the
  data path computed from a frame, the decoded row shows the addresses and ports of that
  frame in host notation, on the protected and the internet side according to the port it
  came in on, its outer VLAN, and the whole seconds since the last activity (0 for a stamp
  from the future).\<close>

theorem decodeFlow_shows_packet:
  assumes "ipo + 20 \<le> length fr" and "vid < 4096" and "inner < 4096"
    and "fi = decodeFlow (key_mem (make_key trusted (push_bit 12 vid OR inner) fr ipo l4)) v proto now"
  shows "HostIP fi = take 4 (drop (ipo + (if trusted then 12 else 16)) fr) \<and>
    InetIP fi = take 4 (drop (ipo + (if trusted then 16 else 12)) fr) \<and>
    HostPort fi = (let i = l4 + (if trusted then 0 else 2) in push_bit 8 (ucast (byteAt fr i)) OR ucast (byteAt fr (i + 1))) \<and>
    InetPort fi = (let i = l4 + (if trusted then 2 else 0) in push_bit 8 (ucast (byteAt fr i)) OR ucast (byteAt fr (i + 1))) \<and>
    OuterVID fi = ucast vid \<and> Proto fi = proto \<and> StateText fi = stateName (fstate v) \<and>
    AgeSec fi = (if last_seen v \<le> now then ticksToSec (now - last_seen v) else 0)"
  using assms(1) outer_vid_bits [OF assms(2,3)] unfolding assms(4)
  by (cases trusted) (simp_all add: decodeFlow_def key_mem_words make_key_def Let_def mem32_ld32 swap16_ld16)

theorem decodeFlow_shows_packet_witness:
  "HostIP (decodeFlow (key_mem (make_key True (push_bit 12 0 OR 0) syn_frame 14 34)) (gc_flow 0 ST_EST) ''TCP'' 0) =
     take 4 (drop 26 syn_frame) \<and> length syn_frame \<ge> 34"
  using decodeFlow_shows_packet [OF _ _ _ refl, of 14 syn_frame 0 0 True 34 "gc_flow 0 ST_EST" "''TCP''" 0]
  by (simp add: syn_frame_def sample_frame_def)

section \<open>What a scan returns\<close>

text \<open>
  The reference: decode everything the selected sources deliver, look at the first
  \<open>ScanLimit\<close> entries, keep the wanted ones, and return the first \<open>Limit\<close> of them.
\<close>

definition decodeAll :: "string \<Rightarrow> u32 \<Rightarrow> (flow_key \<times> flow_val) list \<Rightarrow> FlowInfo list" where
  "decodeAll name now es = map (\<lambda>(k, v). decodeFlow (key_mem k) v name now) es"

definition scan_ok :: "FlowQuery \<Rightarrow> string \<Rightarrow> FlowInfo list \<Rightarrow> FlowScan \<Rightarrow> FlowScan \<Rightarrow> bool" where
  "scan_ok q needle ds out r \<longleftrightarrow>
     (let hits = filter (rowWanted q needle) (take (nat (ScanLimit q - Scanned out)) ds);
          room = nat (Limit q) - length (Rows out)
      in Rows r = Rows out @ take room hits \<and>
         (Truncated r \<longleftrightarrow> room \<le> length hits \<or> nat (ScanLimit q - Scanned out) < length ds) \<and>
         Scanned out \<le> Scanned r \<and> Scanned r \<le> ScanLimit q + 1 \<and>
         (\<not> Truncated r \<longrightarrow> Scanned r = Scanned out + int (length ds)))"

definition scan_pre :: "FlowQuery \<Rightarrow> FlowScan \<Rightarrow> bool" where
  "scan_pre q out \<longleftrightarrow> Scanned out \<le> ScanLimit q \<and> int (length (Rows out)) < Limit q \<and> \<not> Truncated out"

lemma scan_ok_skip:
  assumes "scan_pre q out" and "Scanned out + 1 \<le> ScanLimit q" and "\<not> rowWanted q needle d"
    and "scan_ok q needle ds (out\<lparr>Scanned := Scanned out + 1\<rparr>) r"
  shows "scan_ok q needle (d # ds) out r"
proof -
  have "nat (ScanLimit q - Scanned out) = Suc (nat (ScanLimit q - (Scanned out + 1)))" using assms(2) by simp
  then show ?thesis using assms(3,4) by (auto simp: scan_ok_def Let_def)
qed

lemma scan_ok_row:
  assumes "scan_pre q out" and "Scanned out + 1 \<le> ScanLimit q" and "rowWanted q needle d"
    and "int (length (Rows out)) + 1 < Limit q"
    and "scan_ok q needle ds (out\<lparr>Scanned := Scanned out + 1, Rows := Rows out @ [d]\<rparr>) r"
  shows "scan_ok q needle (d # ds) out r"
proof -
  have "nat (ScanLimit q - Scanned out) = Suc (nat (ScanLimit q - (Scanned out + 1)))" using assms(2) by simp
  moreover have "nat (Limit q) - length (Rows out) = Suc (nat (Limit q) - Suc (length (Rows out)))"
    using assms(4) by linarith
  ultimately show ?thesis using assms(3,5) by (auto simp: scan_ok_def Let_def)
qed

lemma scan_ok_full:
  assumes "scan_pre q out" and "Scanned out + 1 \<le> ScanLimit q" and "rowWanted q needle d"
    and "\<not> int (length (Rows out)) + 1 < Limit q"
  shows "scan_ok q needle (d # ds) out (out\<lparr>Scanned := Scanned out + 1, Rows := Rows out @ [d], Truncated := True\<rparr>)"
proof -
  have "nat (ScanLimit q - Scanned out) = Suc (nat (ScanLimit q - (Scanned out + 1)))" using assms(2) by simp
  moreover have "nat (Limit q) - length (Rows out) = Suc 0"
    using assms(1,4) unfolding scan_pre_def by linarith
  ultimately show ?thesis using assms(2,3) by (simp add: scan_ok_def Let_def)
qed

lemma scanLoop_spec:
  "scan_pre q out \<Longrightarrow> scanLoop q needle name now es out = (r, broke) \<Longrightarrow>
     scan_ok q needle (decodeAll name now es) out r \<and> broke = Truncated r"
proof (induction es arbitrary: out)
  case Nil
  then show ?case by (auto simp: decodeAll_def scan_ok_def scan_pre_def Let_def)
next
  case (Cons e es)
  obtain k v where e: "e = (k, v)" by force
  let ?d = "decodeFlow (key_mem k) v name now"
  have ds: "decodeAll name now (e # es) = ?d # decodeAll name now es" by (simp add: e decodeAll_def)
  consider (lim) "\<not> Scanned out + 1 \<le> ScanLimit q"
    | (skip) "Scanned out + 1 \<le> ScanLimit q" "\<not> rowWanted q needle ?d"
    | (row) "Scanned out + 1 \<le> ScanLimit q" "rowWanted q needle ?d" "int (length (Rows out)) + 1 < Limit q"
    | (full) "Scanned out + 1 \<le> ScanLimit q" "rowWanted q needle ?d" "\<not> int (length (Rows out)) + 1 < Limit q"
    by blast
  then show ?case
  proof cases
    case lim
    then show ?thesis using Cons.prems by (auto simp: e decodeAll_def scan_ok_def scan_pre_def Let_def)
  next
    case skip
    have "scan_pre q (out\<lparr>Scanned := Scanned out + 1\<rparr>)" using Cons.prems(1) skip by (simp add: scan_pre_def)
    from Cons.IH [OF this] Cons.prems(2) skip show ?thesis
      unfolding ds by (auto simp: e Let_def intro: scan_ok_skip [OF Cons.prems(1) skip])
  next
    case row
    have "scan_pre q (out\<lparr>Scanned := Scanned out + 1, Rows := Rows out @ [?d]\<rparr>)"
      using Cons.prems(1) row by (simp add: scan_pre_def)
    from Cons.IH [OF this] Cons.prems(2) row show ?thesis
      unfolding ds by (auto simp: e Let_def intro: scan_ok_row [OF Cons.prems(1) row])
  next
    case full
    then have "r = out\<lparr>Scanned := Scanned out + 1, Rows := Rows out @ [?d], Truncated := True\<rparr> \<and> broke"
      using Cons.prems(2) by (auto simp: e Let_def)
    then show ?thesis using scan_ok_full [OF Cons.prems(1) full, of "decodeAll name now es"] by (simp add: ds)
  qed
qed

text \<open>A scan that was not truncated saw everything.\<close>

lemma scan_ok_complete:
  assumes "scan_ok q needle ds out r" and "\<not> Truncated r"
  shows "length ds \<le> nat (ScanLimit q - Scanned out)"
    and "length (filter (rowWanted q needle) ds) < nat (Limit q) - length (Rows out)"
    and "Scanned r = Scanned out + int (length ds)"
    and "Rows r = Rows out @ filter (rowWanted q needle) ds"
proof -
  show len: "length ds \<le> nat (ScanLimit q - Scanned out)"
    using assms by (simp add: scan_ok_def Let_def not_less)
  then have "take (nat (ScanLimit q - Scanned out)) ds = ds" by simp
  then show "length (filter (rowWanted q needle) ds) < nat (Limit q) - length (Rows out)"
    and "Scanned r = Scanned out + int (length ds)"
    and "Rows r = Rows out @ filter (rowWanted q needle) ds"
    using assms by (simp_all add: scan_ok_def Let_def not_le)
qed

lemma scan_ok_append:
  assumes "scan_ok q needle ds out r1" and "\<not> Truncated r1" and "scan_ok q needle ds' r1 r"
  shows "scan_ok q needle (ds @ ds') out r"
proof -
  let ?S = "nat (ScanLimit q - Scanned out)" and ?room = "nat (Limit q) - length (Rows out)"
  let ?P = "rowWanted q needle"
  note len = scan_ok_complete(1) [OF assms(1,2)] and few = scan_ok_complete(2) [OF assms(1,2)]
    and sc = scan_ok_complete(3) [OF assms(1,2)] and rows = scan_ok_complete(4) [OF assms(1,2)]
  have S: "nat (ScanLimit q - Scanned r1) = ?S - length ds" using len sc by linarith
  have room: "nat (Limit q) - length (Rows r1) = ?room - length (filter ?P ds)" by (simp add: rows)
  have take: "take ?S (ds @ ds') = ds @ take (?S - length ds) ds'" using len by simp
  have R: "Rows r = Rows r1 @ take (?room - length (filter ?P ds)) (filter ?P (take (?S - length ds) ds'))"
    and T: "Truncated r \<longleftrightarrow> ?room - length (filter ?P ds) \<le> length (filter ?P (take (?S - length ds) ds'))
        \<or> ?S - length ds < length ds'"
    and B: "Scanned r1 \<le> Scanned r" "Scanned r \<le> ScanLimit q + 1"
      "\<not> Truncated r \<Longrightarrow> Scanned r = Scanned r1 + int (length ds')"
    using assms(3) unfolding scan_ok_def Let_def S room by blast+
  have T': "Truncated r \<longleftrightarrow> ?room \<le> length (filter ?P ds) + length (filter ?P (take (?S - length ds) ds'))
      \<or> ?S < length ds + length ds'"
    unfolding T using len few by linarith
  show ?thesis
    unfolding scan_ok_def Let_def take
    using R T' B sc few by (simp add: rows)
qed

lemma scan_ok_truncated:
  assumes "scan_pre q out" and "scan_ok q needle ds out r" and "Truncated r"
  shows "scan_ok q needle (ds @ ds') out r"
proof -
  let ?S = "nat (ScanLimit q - Scanned out)" and ?room = "nat (Limit q) - length (Rows out)"
  let ?hits = "filter (rowWanted q needle) (take ?S ds)"
  let ?more = "filter (rowWanted q needle) (take (?S - length ds) ds')"
  have R: "Rows r = Rows out @ take ?room ?hits" and T: "?room \<le> length ?hits \<or> ?S < length ds"
    and B: "Scanned out \<le> Scanned r" "Scanned r \<le> ScanLimit q + 1"
    using assms(2,3) unfolding scan_ok_def Let_def by blast+
  have hits: "filter (rowWanted q needle) (take ?S (ds @ ds')) = ?hits @ ?more" by simp
  have "take ?room (?hits @ ?more) = take ?room ?hits" using T by auto
  moreover have "?room \<le> length (?hits @ ?more) \<or> ?S < length (ds @ ds')" using T by auto
  ultimately show ?thesis
    unfolding scan_ok_def Let_def hits using R B assms(3) by simp
qed

lemma scan_ok_pre:
  "scan_pre q out \<Longrightarrow> scan_ok q needle ds out r \<Longrightarrow> \<not> Truncated r \<Longrightarrow> scan_pre q r"
  using scan_ok_complete [of q needle ds out r] unfolding scan_pre_def by (simp; linarith)

text \<open>The entries of the sources a query selects, in the order the scan visits them.\<close>

definition selected :: "FlowQuery \<Rightarrow> flow_source \<Rightarrow> bool" where
  "selected q src \<longleftrightarrow> Protocol q = [] \<or> Protocol q = ''ALL'' \<or> Protocol q = fst src"

definition delivered :: "FlowQuery \<Rightarrow> flow_source list \<Rightarrow> FlowInfo list" where
  "delivered q srcs = concat (map (\<lambda>(name, clk, es, _). decodeAll name (MonotonicTick clk) es) (filter (selected q) srcs))"

lemma scanSources_spec:
  assumes "scan_pre q out" and "\<And>s. s \<in> set srcs \<Longrightarrow> \<not> snd (snd (snd s))"
  shows "scan_ok q needle (delivered q srcs) out (fst (scanSources q needle srcs out)) \<and>
    snd (scanSources q needle srcs out) = None"
  using assms
proof (induction srcs arbitrary: out)
  case Nil
  then show ?case by (auto simp: delivered_def scan_ok_def scan_pre_def Let_def not_le)
next
  case (Cons src srcs)
  obtain name clk es bad where src: "src = (name, clk, es, bad)" by (metis prod_cases4)
  have bad: "\<not> bad" using Cons.prems(2) [of src] by (simp add: src)
  show ?case
  proof (cases "selected q src")
    case False
    then show ?thesis using Cons.IH [OF Cons.prems(1)] Cons.prems(2)
      by (simp add: src selected_def delivered_def)
  next
    case True
    obtain r1 broke where r1: "scanLoop q needle name (MonotonicTick clk) es out = (r1, broke)" by force
    let ?ds = "decodeAll name (MonotonicTick clk) es"
    have ok1: "scan_ok q needle ?ds out r1" using scanLoop_spec [OF Cons.prems(1) r1] by blast
    have ds: "delivered q (src # srcs) = ?ds @ delivered q srcs"
      using True by (simp add: src delivered_def)
    have step: "scanSources q needle (src # srcs) out = (if Truncated r1 then (r1, None) else scanSources q needle srcs r1)"
      using True r1 bad by (auto simp: src selected_def)
    show ?thesis
    proof (cases "Truncated r1")
      case True
      then show ?thesis unfolding ds step using scan_ok_truncated [OF Cons.prems(1) ok1 True] by simp
    next
      case False
      have "scan_pre q r1" by (rule scan_ok_pre [OF Cons.prems(1) ok1 False])
      from Cons.IH [OF this] Cons.prems(2) False show ?thesis
        unfolding ds step by (auto intro: scan_ok_append [OF ok1 False])
    qed
  qed
qed

text \<open>C31: an interactive scan does what its bounds say. Unless an iterator fails, the scan
  visits the entries of the selected protocols in order, looks at no more than the scan
  limit, and returns the first \<open>Limit\<close> rows that match the VLAN and the text; it reports a
  truncation exactly when a limit cut it off (limits that are not positive mean 200 rows
  and 10000 visits).\<close>

theorem ScanFlows_correct:
  assumes "\<not> badT" and "\<not> badU"
    and "L = (if Limit q \<le> 0 then 200 else nat (Limit q))"
    and "S = (if ScanLimit q \<le> 0 then 10000 else nat (ScanLimit q))"
    and "all = delivered (normQuery q) [(''TCP'', clkT, tcp, badT), (''UDP'', clkU, udp, badU)]"
    and "hits = filter (rowWanted (normQuery q) (toLower (trimSpace (QueryText q)))) (take S all)"
  shows "\<exists>r. ScanFlows clkT tcp badT clkU udp badU q = (r, None) \<and> Rows r = take L hits \<and>
    (Truncated r \<longleftrightarrow> L \<le> length hits \<or> S < length all) \<and> Scanned r \<le> int S + 1"
proof -
  let ?q = "normQuery q" and ?needle = "toLower (trimSpace (QueryText q))"
  let ?srcs = "[(''TCP'', clkT, tcp, badT), (''UDP'', clkU, udp, badU)]"
  let ?out = "\<lparr>Rows = [], Scanned = 0, Truncated = False\<rparr>"
  have L: "nat (Limit ?q) = L" and S: "nat (ScanLimit ?q) = S" "ScanLimit ?q = int S"
    by (simp_all add: normQuery_def assms(3,4))
  have pre: "scan_pre ?q ?out" by (simp add: scan_pre_def normQuery_def)
  have "\<not> snd (snd (snd s))" if "s \<in> set ?srcs" for s using that assms(1,2) by auto
  from scanSources_spec [OF pre this]
  have ok: "scan_ok ?q ?needle all ?out (fst (ScanFlows clkT tcp badT clkU udp badU q))"
    and e: "snd (ScanFlows clkT tcp badT clkU udp badU q) = None"
    unfolding ScanFlows_def assms(5) by blast+
  have "Rows (fst (ScanFlows clkT tcp badT clkU udp badU q)) = take L hits"
    "Truncated (fst (ScanFlows clkT tcp badT clkU udp badU q)) \<longleftrightarrow> L \<le> length hits \<or> S < length all"
    "Scanned (fst (ScanFlows clkT tcp badT clkU udp badU q)) \<le> int S + 1"
    using ok by (simp_all add: scan_ok_def Let_def L S assms(6))
  with e show ?thesis by (metis prod.collapse)
qed

definition sample_query :: FlowQuery where
  "sample_query = \<lparr>Protocol = ''tcp'', VLAN = -1, QueryText = ''SYN'', Limit = 1, ScanLimit = 0\<rparr>"

theorem ScanFlows_correct_witness:
  "\<exists>r. ScanFlows gc_clock gc_table False gc_clock [] False sample_query = (r, None) \<and>
     length (Rows r) = 1 \<and> Truncated r"
proof -
  have "length (filter (rowWanted (normQuery sample_query) (toLower (trimSpace (QueryText sample_query))))
      (take 10000 (delivered (normQuery sample_query) [(''TCP'', gc_clock, gc_table, False), (''UDP'', gc_clock, [], False)]))) = 2"
    by code_simp
  then show ?thesis
    using ScanFlows_correct [of False False _ sample_query _ _ gc_clock gc_table gc_clock "[]", OF _ _ refl refl refl refl]
    by (auto simp: sample_query_def)
qed

end
