(* ===== verification/Go_Float.thy ===== *)
theory Go_Float
  imports Config "HOL-Library.Log_Nat"
begin

text \<open>
  Go's float64 arithmetic as far as the rate estimates use it: finite doubles are their
  rational values, and every operation is the exact one followed by rounding to the
  nearest value with 53 significant bits, ties to even. All values the program forms lie
  between 2^-60 and 2^150, so overflow and subnormal numbers do not occur and the exponent
  range is left unbounded. The facts bound the error of a chain of operations.
\<close>

section \<open>Rounding\<close>

text \<open>The exponent of the leading binary digit of a positive number.\<close>

definition lead2 :: "rat \<Rightarrow> int" where
  "lead2 x = (case quotient_of x of (p, q) \<Rightarrow>
     (let e = int (floorlog 2 (nat p)) - int (floorlog 2 (nat q)) in if x < 2 powi e then e - 1 else e))"

definition roundHalfEven :: "rat \<Rightarrow> int" where
  "roundHalfEven y = (let f = \<lfloor>y\<rfloor>; r = y - of_int f in
     if r < 1 / 2 then f else if 1 / 2 < r then f + 1 else if even f then f else f + 1)"

definition roundPos :: "rat \<Rightarrow> rat" where
  "roundPos x = (let u = 2 powi (lead2 x - 52) in of_int (roundHalfEven (x / u)) * u)"

definition f64_round :: "rat \<Rightarrow> rat" where
  "f64_round x = (if x = 0 then 0 else if x < 0 then - roundPos (- x) else roundPos x)"

text \<open>The value of the bits of a finite double.\<close>

definition f64_value :: "f64 \<Rightarrow> rat" where
  "f64_value x =
     (let e = uint (f64_exp x); m = uint (f64_frac x);
          mag = (if e = 0 then of_int m * 2 powi (-1074) else of_int (m + 4503599627370496) * 2 powi (e - 1075))
      in if drop_bit 63 x = 1 then - mag else mag)"

text \<open>\<open>float64(v)\<close> of an unsigned integer.\<close>

definition f64_of_u64 :: "u64 \<Rightarrow> rat" where
  "f64_of_u64 v = f64_round (of_int (uint v))"

text \<open>
  \<open>Duration.Seconds\<close> of a signed number of nanoseconds; Go's division truncates towards
  zero and the remainder has the sign of the dividend.
\<close>

definition durSeconds :: "int \<Rightarrow> rat" where
  "durSeconds d =
     (let sec = sgn d * (\<bar>d\<bar> div 1000000000); nsec = sgn d * (\<bar>d\<bar> mod 1000000000)
      in f64_round (f64_round (of_int sec) + f64_round (f64_round (of_int nsec) / 1000000000)))"

section \<open>Error of one rounding\<close>

lemma roundHalfEven_error: "\<bar>of_int (roundHalfEven y) - y\<bar> \<le> 1 / 2"
proof -
  have "of_int \<lfloor>y\<rfloor> \<le> y" "y < of_int \<lfloor>y\<rfloor> + 1" by linarith+
  then show ?thesis unfolding roundHalfEven_def Let_def abs_le_iff by (simp split: if_split; linarith)
qed

lemma floorlog2_bounds:
  assumes "0 < n"
  shows "2 ^ (floorlog 2 n - 1) \<le> n" and "n < 2 ^ floorlog 2 n" and "0 < floorlog 2 n"
proof -
  show "2 ^ (floorlog 2 n - 1) \<le> n" "n < 2 ^ floorlog 2 n" using floorlog_bounds [of n 2] assms by auto
  then show "0 < floorlog 2 n" using assms by (cases "floorlog 2 n") auto
qed

lemma powi_diff_nat: "(2::rat) powi (int m - int n) = 2 ^ m / 2 ^ n"
  by (simp add: power_int_diff)

lemma lead2_le:
  assumes "0 < x"
  shows "2 powi (lead2 x) \<le> x"
proof -
  obtain p q where pq: "quotient_of x = (p, q)" by force
  have q: "0 < q" using quotient_of_denom_pos [OF pq] .
  have x: "x = of_int p / of_int q" using quotient_of_div [OF pq] .
  have p: "0 < p" using assms x q by (simp add: zero_less_divide_iff)
  let ?a = "floorlog 2 (nat p)" and ?b = "floorlog 2 (nat q)"
  have a: "2 ^ (?a - 1) \<le> nat p" "0 < ?a" using floorlog2_bounds [of "nat p"] p by auto
  have b: "nat q < 2 ^ ?b" using floorlog2_bounds [of "nat q"] q by auto
  have pa: "(2::rat) ^ (?a - 1) \<le> of_int p" using a(1) p by (simp add: le_nat_iff)
  have qb: "of_int q \<le> (2::rat) ^ ?b" using b q by (simp add: nat_less_iff)
  have "int ?a - int ?b - 1 = int (?a - 1) - int ?b" using a(2) by simp
  then have "2 powi (int ?a - int ?b - 1) = (2::rat) ^ (?a - 1) / 2 ^ ?b"
    by (simp only: powi_diff_nat)
  also have "\<dots> \<le> of_int p / of_int q"
    using pa qb q p by (intro frac_le) auto
  finally have "2 powi (int ?a - int ?b - 1) \<le> x" unfolding x .
  then show ?thesis by (simp add: lead2_def pq Let_def)
qed

text \<open>The relative error of rounding to nearest is at most 2^-53.\<close>

definition ulp2 :: rat where "ulp2 = 1 / 9007199254740992"

lemma roundPos_error:
  assumes "0 < x"
  shows "\<bar>roundPos x - x\<bar> \<le> ulp2 * x"
proof -
  define u :: rat where "u = 2 powi (lead2 x - 52)"
  have u: "0 < u" by (simp add: u_def)
  have "u = 2 powi lead2 x / 2 ^ 52" unfolding u_def by (simp add: power_int_diff)
  then have ux: "u \<le> x / 2 ^ 52" using lead2_le [OF assms] by (simp add: divide_right_mono)
  have "\<bar>roundPos x - x\<bar> = \<bar>of_int (roundHalfEven (x / u)) - x / u\<bar> * u"
  proof -
    have "roundPos x - x = (of_int (roundHalfEven (x / u)) - x / u) * u"
      using u by (simp add: roundPos_def u_def [symmetric] Let_def left_diff_distrib)
    then show ?thesis using u by (simp add: abs_mult)
  qed
  also have "\<dots> \<le> 1 / 2 * u" using roundHalfEven_error u by (intro mult_right_mono) auto
  finally show ?thesis using ux by (simp add: ulp2_def)
qed

section \<open>Chains of operations\<close>

text \<open>
  \<open>near k a b\<close>: the two numbers differ by no more than \<open>k\<close> roundings. The relation is
  symmetric and adds up over products and quotients.
\<close>

definition near :: "nat \<Rightarrow> rat \<Rightarrow> rat \<Rightarrow> bool" where
  "near k a b \<longleftrightarrow> 0 \<le> a \<and> 0 \<le> b \<and> (1 - ulp2) ^ k * b \<le> a \<and> (1 - ulp2) ^ k * a \<le> b"

lemma shrink_bounds: "0 < 1 - ulp2" "1 - ulp2 \<le> 1" "0 < (1 - ulp2) ^ k" "(1 - ulp2) ^ k \<le> 1"
  by (simp_all add: ulp2_def power_le_one)

lemma near_sym: "near k a b \<longleftrightarrow> near k b a"
  by (auto simp: near_def)

lemma near_refl: "0 \<le> a \<Longrightarrow> near 0 a a"
  by (simp add: near_def)

lemma near_mono:
  assumes "near j a b" and "j \<le> k"
  shows "near k a b"
proof -
  have "(1 - ulp2) ^ k \<le> (1 - ulp2) ^ j" using assms(2) shrink_bounds by (intro power_decreasing) auto
  then have "(1 - ulp2) ^ k * c \<le> (1 - ulp2) ^ j * c" if "0 \<le> c" for c using that by (rule mult_right_mono)
  then show ?thesis using assms(1) unfolding near_def by (meson order_trans)
qed

lemma near_trans:
  assumes "near j a b" and "near k b c"
  shows "near (j + k) a c"
proof -
  have "(1 - ulp2) ^ j * ((1 - ulp2) ^ k * c) \<le> (1 - ulp2) ^ j * b" "(1 - ulp2) ^ k * ((1 - ulp2) ^ j * a) \<le> (1 - ulp2) ^ k * b"
    using assms shrink_bounds(3) by (auto simp: near_def intro!: mult_left_mono less_imp_le)
  then show ?thesis using assms unfolding near_def power_add by (auto simp: mult_ac intro: order_trans)
qed

lemma near_round: "0 \<le> x \<Longrightarrow> near 1 (f64_round x) x"
proof (cases "x = 0")
  case False
  assume "0 \<le> x"
  with False have x: "0 < x" by simp
  have e: "\<bar>roundPos x - x\<bar> \<le> ulp2 * x" by (rule roundPos_error [OF x])
  have u: "0 \<le> ulp2" "ulp2 \<le> 1" by (simp_all add: ulp2_def)
  have lo: "(1 - ulp2) * x \<le> roundPos x" and hi: "roundPos x \<le> (1 + ulp2) * x"
    using e by (auto simp: algebra_simps abs_le_iff)
  have pos: "0 \<le> roundPos x" using lo x shrink_bounds(1) by (meson less_imp_le mult_pos_pos order_trans)
  have "(1 - ulp2) * roundPos x \<le> (1 - ulp2) * ((1 + ulp2) * x)" using hi u by (intro mult_left_mono) auto
  also have "\<dots> = x - ulp2 * ulp2 * x" by (simp add: algebra_simps)
  also have "\<dots> \<le> x" using x u by simp
  finally show ?thesis using lo pos x by (simp add: near_def f64_round_def)
qed (simp add: near_def f64_round_def)

lemma near_rounded: "near k a b \<Longrightarrow> near (Suc k) (f64_round a) b"
  using near_trans [OF near_round] by (fastforce simp: near_def)

lemma near_u64: "near 1 (f64_of_u64 d) (of_int (uint d))"
proof -
  have "0 \<le> (of_int (uint d) :: rat)" by (simp only: of_int_0_le_iff uint_ge_0)
  then show ?thesis unfolding f64_of_u64_def by (rule near_round)
qed

lemma near_mult:
  assumes "near j a b" and "near k c d"
  shows "near (j + k) (a * c) (b * d)"
proof -
  have "((1 - ulp2) ^ j * b) * ((1 - ulp2) ^ k * d) \<le> a * c" "((1 - ulp2) ^ j * a) * ((1 - ulp2) ^ k * c) \<le> b * d"
    using assms less_imp_le [OF shrink_bounds(3)] by (auto simp: near_def intro!: mult_mono mult_nonneg_nonneg)
  then show ?thesis using assms by (simp add: near_def power_add mult_ac)
qed

lemma near_div:
  assumes "near j a b" and "near k c d" and "0 < c" and "0 < d"
  shows "near (j + k) (a / c) (b / d)"
proof -
  have "near k (inverse c) (inverse d)"
    using assms(2-4) by (simp add: near_def field_simps)
  from near_mult [OF assms(1) this] show ?thesis by (simp add: divide_inverse)
qed

lemma near_add: "near k a b \<Longrightarrow> near k c d \<Longrightarrow> near k (a + c) (b + d)"
  by (simp add: near_def distrib_left)

lemma near_pos: "near k a b \<Longrightarrow> 0 < a \<longleftrightarrow> 0 < b"
  using shrink_bounds(3) [of k] by (auto simp: near_def) (metis mult_pos_pos order_less_le_trans)+

text \<open>The seconds of a duration: at most three roundings off, and positive exactly for a positive one.\<close>

lemma near_durSeconds:
  assumes "0 \<le> d"
  shows "near 3 (durSeconds d) (of_int d / 1000000000)"
proof -
  let ?s = "\<bar>d\<bar> div 1000000000" and ?n = "\<bar>d\<bar> mod 1000000000"
  have sg: "sgn d * ?s = ?s" "sgn d * ?n = ?n" using assms by (auto simp: sgn_if)
  have "near 2 (f64_round (of_int ?s)) (of_int ?s)" by (rule near_mono [OF near_round]) auto
  moreover have "near (Suc (1 + 0)) (f64_round (f64_round (of_int ?n) / 1000000000)) (of_int ?n / 1000000000)"
    by (intro near_rounded near_div near_round near_refl) auto
  ultimately have "near 2 (f64_round (of_int ?s) + f64_round (f64_round (of_int ?n) / 1000000000))
      (of_int ?s + of_int ?n / 1000000000)" by (intro near_add) (simp_all add: numeral_2_eq_2)
  moreover have "of_int ?s + of_int ?n / 1000000000 = (of_int d / 1000000000 :: rat)"
  proof -
    have "?s * 1000000000 + ?n = d" using assms by simp
    then have "of_int ?s * 1000000000 + of_int ?n = (of_int d :: rat)" by (metis of_int_add of_int_mult of_int_numeral)
    then show ?thesis by (simp add: field_simps)
  qed
  ultimately show ?thesis
    unfolding durSeconds_def Let_def sg by (metis near_rounded numeral_2_eq_2 numeral_3_eq_3)
qed

lemma f64_round_minus: "f64_round (- x) = - f64_round x"
  by (simp add: f64_round_def)

lemma durSeconds_minus: "durSeconds (- d) = - durSeconds d"
proof -
  have "f64_round (f64_round (- a) + f64_round (f64_round (- b) / 1000000000)) =
      - f64_round (f64_round a + f64_round (f64_round b / 1000000000))" for a b
    using f64_round_minus [of "f64_round a + f64_round (f64_round b / 1000000000)"]
    by (simp add: f64_round_minus)
  then show ?thesis by (simp add: durSeconds_def Let_def)
qed

lemma durSeconds_pos_iff: "0 < durSeconds d \<longleftrightarrow> 0 < d"
proof (cases "0 \<le> d")
  case True
  then show ?thesis using near_pos [OF near_durSeconds [OF True]] by (simp add: zero_less_divide_iff)
next
  case False
  then have "0 \<le> durSeconds (- d)" using near_durSeconds [of "- d"] by (simp add: near_def)
  then show ?thesis using False by (simp add: durSeconds_minus)
qed

end
