(* ===== verification/Flow_Monitor.thy ===== *)
theory Flow_Monitor
  imports Go_Float Gc_Flows "HOL-Library.List_Lexorder"
begin

text \<open>
  The flow alerts of \<open>internal/flowmonitor/flowmonitor.go\<close>: one tick per second reads the
  sampled counters, compares them with the previous reading, reports the flows whose
  estimated rate exceeds the threshold of the longest matching network, and replaces the
  NDJSON file. Times are nanoseconds on the clock of \<open>time.Now\<close>. The JSON encoder and
  decoder are parameters. The spare map and the slices that the reporter keeps are buffers
  that \<open>collectInto\<close> clears before it fills them; they carry no state from tick to tick.
\<close>

section \<open>Types\<close>

record counter =
  Packets :: u64
  Bytes :: u64

record Snapshot =
  Counters :: "(bytes, counter) kmap"
  When :: int

record FlowID =
  FlowProtocol :: string
  ProtectedIP :: string
  ProtectedPort :: u16
  InternetIP :: string
  InternetPort :: u16
  OuterVLAN :: u16
  InnerVLAN :: u16

record Alert =
  Schema :: int
  ObservedAt :: int
  WindowSeconds :: rat
  AlertFlow :: FlowID
  MatchedCIDR :: string
  EstimatedPPS :: rat
  EstimatedMbps :: rat
  ThresholdPPS :: u64
  ThresholdMbps :: f64
  Exceeded :: "string list"
  AlertSampleEvery :: u32

record Reporter =
  ReporterDir :: string
  prev :: "Snapshot option"
  settings :: "FlowMonitoring option"

definition NewReporter :: "string \<Rightarrow> Reporter" where
  "NewReporter statsDir = \<lparr>ReporterDir = statsDir, prev = None, settings = None\<rparr>"

section \<open>Reading the counters\<close>

text \<open>
  The answers of the kernel to the batch lookups of one collection: the entries of the
  batch and whether the call succeeded, reported the end of the map, or failed.
\<close>

datatype batch_status = BatchOk | BatchEnd | BatchFailed

type_synonym entries = "(bytes \<times> counter) list"

definition store :: "entries \<Rightarrow> (bytes, counter) kmap \<Rightarrow> (bytes, counter) kmap" where
  "store es m = fold (\<lambda>(k, v). kset k v) es m"

text \<open>
  The batch loop. \<open>Some (Some m)\<close> is a complete reading, \<open>Some None\<close> the break to the
  iterator fallback, and \<open>None\<close> says that the loop goes on beyond the given answers.
\<close>

fun batchLoop :: "(entries \<times> batch_status) list \<Rightarrow> (bytes, counter) kmap \<Rightarrow> (bytes, counter) kmap option option" where
  "batchLoop [] m = None"
| "batchLoop ((es, st) # bs) m =
     (let m' = store es m in
      case st of
        BatchEnd \<Rightarrow> Some (Some m')
      | BatchFailed \<Rightarrow> Some None
      | BatchOk \<Rightarrow> (if es = [] then Some (Some m') else batchLoop bs m'))"

record collect_env =
  map_present :: bool
  batches :: "(entries \<times> batch_status) list"
  iter_entries :: entries
  iter_failed :: bool
  collect_now :: int

text \<open>\<open>collectInto\<close> into a cleared map; \<open>Inl\<close> is the error return.\<close>

definition collectInto :: "collect_env \<Rightarrow> (unit + Snapshot) option" where
  "collectInto env =
     (if \<not> map_present env then Some (Inl ())
      else case batchLoop (batches env) [] of
        None \<Rightarrow> None
      | Some (Some m) \<Rightarrow> Some (Inr \<lparr>Counters = m, When = collect_now env\<rparr>)
      | Some None \<Rightarrow>
          (if iter_failed env then Some (Inl ())
           else Some (Inr \<lparr>Counters = store (iter_entries env) [], When = collect_now env\<rparr>)))"

section \<open>Alerts\<close>

definition decodeFlowID :: "bytes \<Rightarrow> FlowID" where
  "decodeFlowID key =
     (let vl = ld32 key 12; p = byteAt key 16 in
      \<lparr>FlowProtocol = (if p = 6 then ''tcp'' else if p = 17 then ''udp'' else ''unknown''),
       ProtectedIP = ipString (take 4 (drop 4 key)), ProtectedPort = swap16 (ld16 key 10),
       InternetIP = ipString (take 4 key), InternetPort = swap16 (ld16 key 8),
       OuterVLAN = ucast (drop_bit 12 vl AND 0x0FFF), InnerVLAN = ucast (vl AND 0x0FFF)\<rparr>)"

fun matchLoop :: "ip \<Rightarrow> FlowMonitorCIDR list \<Rightarrow> int \<Rightarrow> FlowMonitorCIDR option \<Rightarrow> FlowMonitorCIDR option" where
  "matchLoop a [] bestBits best = best"
| "matchLoop a (rule # rs) bestBits best =
     (case parseCIDR (CIDR rule) of
        None \<Rightarrow> matchLoop a rs bestBits best
      | Some (_, network) \<Rightarrow>
          (if \<not> ipnetContains network a then matchLoop a rs bestBits best
           else if int (maskOnes (net_mask network)) > bestBits
             then matchLoop a rs (int (maskOnes (net_mask network))) (Some rule)
           else matchLoop a rs bestBits best))"

definition longestMatch :: "ip \<Rightarrow> FlowMonitorCIDR list \<Rightarrow> FlowMonitorCIDR option" where
  "longestMatch a rules = matchLoop a rules (-1) None"

text \<open>A counter that went down was evicted and started again.\<close>

definition counterDelta :: "u64 \<Rightarrow> u64 \<Rightarrow> u64" where
  "counterDelta cur old = (if cur \<ge> old then cur - old else cur)"

definition ppsEstimate :: "u32 \<Rightarrow> u64 \<Rightarrow> rat \<Rightarrow> rat" where
  "ppsEstimate sample d secs = f64_round (f64_round (of_int (uint sample) * f64_of_u64 d) / secs)"

definition mbpsEstimate :: "u32 \<Rightarrow> u64 \<Rightarrow> rat \<Rightarrow> rat" where
  "mbpsEstimate sample d secs =
     f64_round (f64_round (f64_round (f64_round (of_int (uint sample) * f64_of_u64 d) * 8) / secs) / 1000000)"

definition exceededOf :: "FlowMonitorCIDR \<Rightarrow> rat \<Rightarrow> rat \<Rightarrow> string list" where
  "exceededOf rule pps mbps =
     (if PPSThreshold rule > 0 \<and> pps > f64_of_u64 (PPSThreshold rule) then [''pps''] else []) @
     (if \<not> f64_isNaN (MbpsThreshold rule) \<and> f64_value (MbpsThreshold rule) > 0 \<and> mbps > f64_value (MbpsThreshold rule)
      then [''mbps''] else [])"

definition alertFor :: "Snapshot \<Rightarrow> Snapshot \<Rightarrow> FlowMonitoring \<Rightarrow> rat \<Rightarrow> bytes \<Rightarrow> Alert option" where
  "alertFor old cur fm secs key =
     (let flow = decodeFlowID key;
          a = (case parseIP (ProtectedIP flow) of Some a \<Rightarrow> a | None \<Rightarrow> []) in
      case longestMatch a (elems (CIDRs fm)) of
        None \<Rightarrow> None
      | Some rule \<Rightarrow>
          (let zero = \<lparr>Packets = 0, Bytes = 0\<rparr>;
               curCount = (case kget (Counters cur) key of Some c \<Rightarrow> c | None \<Rightarrow> zero);
               oldCount = (case kget (Counters old) key of Some c \<Rightarrow> c | None \<Rightarrow> zero);
               pps = ppsEstimate (SampleEvery fm) (counterDelta (Packets curCount) (Packets oldCount)) secs;
               mbps = mbpsEstimate (SampleEvery fm) (counterDelta (Bytes curCount) (Bytes oldCount)) secs;
               exceeded = exceededOf rule pps mbps
           in if exceeded = [] then None
              else Some \<lparr>Schema = 1, ObservedAt = When cur, WindowSeconds = secs, AlertFlow = flow,
                MatchedCIDR = CIDR rule, EstimatedPPS = pps, EstimatedMbps = mbps,
                ThresholdPPS = PPSThreshold rule, ThresholdMbps = MbpsThreshold rule,
                Exceeded = exceeded, AlertSampleEvery = SampleEvery fm\<rparr>))"

definition alertsFrom :: "Snapshot \<Rightarrow> Snapshot \<Rightarrow> FlowMonitoring \<Rightarrow> Alert list" where
  "alertsFrom old cur fm =
     (let secs = durSeconds (When cur - When old) in
      if secs \<le> 0 then []
      else List.map_filter (alertFor old cur fm secs) (sort (kkeys (Counters cur))))"

section \<open>Publishing\<close>

definition alertsFile :: string where "alertsFile = ''flow_alerts.jsonl''"

text \<open>\<open>Encode\<close> of the JSON encoder writes the value and a newline.\<close>

fun encodeAll :: "(Alert \<Rightarrow> string option) \<Rightarrow> Alert list \<Rightarrow> string option" where
  "encodeAll enc [] = Some []"
| "encodeAll enc (a # as) =
     (case enc a of
        None \<Rightarrow> None
      | Some s \<Rightarrow> map_option (\<lambda>r. s @ newline # r) (encodeAll enc as))"

text \<open>\<open>write\<close>; the boolean says whether it returned an error.\<close>

definition writeAlerts :: "(Alert \<Rightarrow> string option) \<Rightarrow> save_calls \<Rightarrow> string \<Rightarrow> Alert list \<Rightarrow> fsys \<Rightarrow> bool \<times> fsys" where
  "writeAlerts enc os dir as fs =
     (if \<not> mkdir_ok os then (True, fs)
      else case encodeAll enc as of
        None \<Rightarrow> (True, fs)
      | Some body \<Rightarrow>
          (let dst = pathJoin [dir, alertsFile]; tmp = dst @ ''.tmp'' in
           if \<not> write_ok os then (True, fs(tmp := write_left os))
           else if \<not> rename_ok os then (True, fs(tmp \<mapsto> body))
           else (False, (fs(tmp := None))(dst \<mapsto> body))))"

text \<open>
  \<open>reflect.DeepEqual\<close> of two settings, and \<open>Tick\<close>. The result is the alerts, whether an
  error is returned, the reporter and the file system; \<open>None\<close> is a collection that does
  not end.
\<close>

definition sameSettings :: "FlowMonitoring \<Rightarrow> FlowMonitoring \<Rightarrow> bool" where
  "sameSettings a b \<longleftrightarrow> Enabled a = Enabled b \<and> SampleEvery a = SampleEvery b \<and> MaxFlows a = MaxFlows b \<and>
     rulesDeepEqual (CIDRs a) (CIDRs b)"

definition Tick :: "(Alert \<Rightarrow> string option) \<Rightarrow> save_calls \<Rightarrow> collect_env \<Rightarrow> FlowMonitoring \<Rightarrow> Reporter \<times> fsys
    \<Rightarrow> (Alert list \<times> bool \<times> Reporter \<times> fsys) option" where
  "Tick enc os env fm st =
     (case st of (r0, fs) \<Rightarrow>
       (let changed = (case settings r0 of None \<Rightarrow> True | Some s \<Rightarrow> \<not> sameSettings s fm);
            r = r0\<lparr>settings := Some (fm\<lparr>CIDRs := copySlice (CIDRs fm)\<rparr>)\<rparr> in
        if \<not> Enabled fm \<or> elems (CIDRs fm) = [] then
          (case writeAlerts enc os (ReporterDir r) [] fs of (e, fs') \<Rightarrow> Some ([], e, r\<lparr>prev := None\<rparr>, fs'))
        else case collectInto env of
          None \<Rightarrow> None
        | Some (Inl _) \<Rightarrow> Some ([], True, r, fs)
        | Some (Inr cur) \<Rightarrow>
            (let r' = r\<lparr>prev := Some cur\<rparr> in
             if changed \<or> prev r = None then
               (case writeAlerts enc os (ReporterDir r) [] fs of (e, fs') \<Rightarrow> Some ([], e, r', fs'))
             else
               (let alerts = alertsFrom (the (prev r)) cur fm in
                case writeAlerts enc os (ReporterDir r) alerts fs of (e, fs') \<Rightarrow> Some (alerts, e, r', fs')))))"

text \<open>
  \<open>ReadAlerts\<close> on the content of the file. \<open>bufio.Scanner\<close> splits lines, drops one
  carriage return before the newline, yields no empty last line and gives up on a line
  that does not fit its buffer of 65536 bytes (\<open>None\<close>).
\<close>

datatype read_result = ReadOk "Alert list" | ReadOpen | ReadParse nat | ReadSchema int | ReadScan

text \<open>\<open>dec\<close> is \<open>json.Unmarshal\<close> of one line into an alert.\<close>

fun readLoop :: "(string \<Rightarrow> Alert option) \<Rightarrow> string list \<Rightarrow> bool \<Rightarrow> Alert list \<Rightarrow> read_result" where
  "readLoop dec [] e alerts = (if e then ReadScan else ReadOk alerts)"
| "readLoop dec (l # ls) e alerts =
     (case dec l of
        None \<Rightarrow> ReadParse (Suc (length alerts))
      | Some a \<Rightarrow> (if Schema a \<noteq> 1 then ReadSchema (Schema a) else readLoop dec ls e (alerts @ [a])))"

definition ReadAlerts :: "(string \<Rightarrow> Alert option) \<Rightarrow> fsys \<Rightarrow> string \<Rightarrow> read_result" where
  "ReadAlerts dec fs path =
     (case fs path of
        None \<Rightarrow> ReadOpen
      | Some body \<Rightarrow> (case scanLines body of (ls, e) \<Rightarrow> readLoop dec ls e []))"

section \<open>Longest match\<close>

text \<open>The prefix length with which a rule matches an address, if it does.\<close>

definition matchBits :: "ip \<Rightarrow> FlowMonitorCIDR \<Rightarrow> nat option" where
  "matchBits a rule = (case parseCIDR (CIDR rule) of
     None \<Rightarrow> None
   | Some (_, network) \<Rightarrow> if ipnetContains network a then Some (maskOnes (net_mask network)) else None)"

lemma matchLoop_step:
  "matchLoop a (rule # rs) bits best =
     (case matchBits a rule of
        None \<Rightarrow> matchLoop a rs bits best
      | Some n \<Rightarrow> if int n > bits then matchLoop a rs (int n) (Some rule) else matchLoop a rs bits best)"
  by (simp add: matchBits_def split: option.splits)

lemma matchLoop_sound:
  assumes "best = None \<and> bits = -1 \<or> (\<exists>b n. best = Some b \<and> matchBits a b = Some n \<and> bits = int n)"
  shows "case matchLoop a rules bits best of
      None \<Rightarrow> best = None \<and> (\<forall>r \<in> set rules. matchBits a r = None)
    | Some r \<Rightarrow> (r \<in> set rules \<or> best = Some r) \<and>
        (\<exists>n. matchBits a r = Some n \<and> bits \<le> int n \<and> (\<forall>r' \<in> set rules. \<forall>n'. matchBits a r' = Some n' \<longrightarrow> n' \<le> n))"
  using assms
proof (induction rules arbitrary: bits best)
  case (Cons rule rs)
  show ?case
  proof (cases "matchBits a rule")
    case None
    then show ?thesis using Cons.IH [OF Cons.prems] unfolding matchLoop_step by (auto split: option.splits)
  next
    case (Some n)
    show ?thesis
    proof (cases "int n > bits")
      case True
      then have "case matchLoop a rs (int n) (Some rule) of
          None \<Rightarrow> Some rule = None \<and> (\<forall>r \<in> set rs. matchBits a r = None)
        | Some r \<Rightarrow> (r \<in> set rs \<or> Some rule = Some r) \<and>
            (\<exists>m. matchBits a r = Some m \<and> int n \<le> int m \<and> (\<forall>r' \<in> set rs. \<forall>n'. matchBits a r' = Some n' \<longrightarrow> n' \<le> m))"
        using Some by (intro Cons.IH) auto
      then show ?thesis using Some True unfolding matchLoop_step by (fastforce split: option.splits)
    next
      case False
      then show ?thesis using Some Cons.IH [OF Cons.prems] Cons.prems unfolding matchLoop_step
        by (fastforce split: option.splits)
    qed
  qed
qed (auto split: option.splits)


definition sample_rules :: "FlowMonitorCIDR list" where
  "sample_rules = [\<lparr>CIDR = ''10.0.0.0/8'', PPSThreshold = 1000, MbpsThreshold = 0\<rparr>,
     \<lparr>CIDR = ''10.1.0.0/16'', PPSThreshold = 10, MbpsThreshold = 0\<rparr>]"


section \<open>Accuracy of the estimates\<close>

lemma near_scaled: "near 1 (of_int (uint n) * f64_of_u64 d) (of_int (uint n) * of_int (uint d))" for n :: u32
proof -
  have "0 \<le> (of_int (uint n) :: rat)" by (simp only: of_int_0_le_iff uint_ge_0)
  from near_mult [OF near_refl [OF this] near_u64] show ?thesis by simp
qed

lemma near_ppsEstimate:
  assumes "near 3 secs s" and "0 < s"
  shows "near 6 (ppsEstimate n d secs) (of_int (uint n) * of_int (uint d) / s)"
proof -
  have "near 1 (of_int (uint n) * f64_of_u64 d) (of_int (uint n) * of_int (uint d))" by (rule near_scaled)
  from near_div [OF near_rounded [OF this] assms(1)] near_pos [OF assms(1)] assms(2)
  have "near 5 (f64_round (of_int (uint n) * f64_of_u64 d) / secs) (of_int (uint n) * of_int (uint d) / s)" by simp
  from near_rounded [OF this] show ?thesis by (simp add: ppsEstimate_def)
qed

lemma near_mbpsEstimate:
  assumes "near 3 secs s" and "0 < s"
  shows "near 8 (mbpsEstimate n d secs) (of_int (uint n) * of_int (uint d) * 8 / s / 1000000)"
proof -
  have "near 1 (of_int (uint n) * f64_of_u64 d) (of_int (uint n) * of_int (uint d))" by (rule near_scaled)
  from near_mult [OF near_rounded [OF this] near_refl [of 8]]
  have "near 2 (f64_round (of_int (uint n) * f64_of_u64 d) * 8) (of_int (uint n) * of_int (uint d) * 8)"
    by (simp add: numeral_2_eq_2)
  from near_div [OF near_rounded [OF this] assms(1)] near_pos [OF assms(1)] assms(2)
  have "near 6 (f64_round (f64_round (of_int (uint n) * f64_of_u64 d) * 8) / secs) (of_int (uint n) * of_int (uint d) * 8 / s)" by simp
  from near_div [OF near_rounded [OF this] near_refl [of 1000000]]
  have "near 7 (f64_round (f64_round (f64_round (of_int (uint n) * f64_of_u64 d) * 8) / secs) / 1000000)
      (of_int (uint n) * of_int (uint d) * 8 / s / 1000000)" by simp
  from near_rounded [OF this] show ?thesis by (simp add: mbpsEstimate_def)
qed

text \<open>A comparison of two approximations decides the comparison of the exact values up to their errors.\<close>

lemma near_less:
  assumes "near j a b" and "near k c d" and "a < c"
  shows "(1 - ulp2) ^ (j + k) * b < d"
proof -
  have "(1 - ulp2) ^ k * ((1 - ulp2) ^ j * b) \<le> (1 - ulp2) ^ k * a"
    using assms(1) shrink_bounds(3) by (auto simp: near_def intro!: mult_left_mono less_imp_le)
  also have "\<dots> < (1 - ulp2) ^ k * c" using assms(3) shrink_bounds(3) by simp
  also have "\<dots> \<le> d" using assms(2) by (simp add: near_def)
  finally show ?thesis by (simp add: power_add mult_ac)
qed

lemma near_le:
  assumes "near j a b" and "near k c d" and "a \<le> c"
  shows "(1 - ulp2) ^ (j + k) * b \<le> d"
proof -
  have "(1 - ulp2) ^ k * ((1 - ulp2) ^ j * b) \<le> (1 - ulp2) ^ k * c"
    using assms(1,3) shrink_bounds(3) by (auto simp: near_def intro!: mult_left_mono less_imp_le)
  also have "\<dots> \<le> d" using assms(2) by (simp add: near_def)
  finally show ?thesis by (simp add: power_add mult_ac)
qed

lemma take_drop_key: "length key = 20 \<Longrightarrow> length (take 4 (drop 4 key)) = 4" for key :: bytes
  by simp

text \<open>The address the rules are matched with is the protected address of the key.\<close>

lemma protected_address:
  assumes "length key = 20"
  shows "(case parseIP (ProtectedIP (decodeFlowID key)) of Some a \<Rightarrow> a | None \<Rightarrow> []) = v4InV6Prefix @ take 4 (drop 4 key)"
  using assms by (simp add: decodeFlowID_def Let_def parseIP_ipString)

lemma alertsFrom_iff:
  assumes "0 < When cur - When old"
  shows "x \<in> set (alertsFrom old cur fm) \<longleftrightarrow>
    (\<exists>key \<in> set (kkeys (Counters cur)). alertFor old cur fm (durSeconds (When cur - When old)) key = Some x)"
proof -
  have "\<not> durSeconds (When cur - When old) \<le> 0" using durSeconds_pos_iff [of "When cur - When old"] assms by linarith
  then show ?thesis by (auto simp: alertsFrom_def Let_def map_filter_def image_iff)
qed

text \<open>The packets a flow gained between two readings, as the reporter counts them.\<close>

definition countIn :: "(counter \<Rightarrow> u64) \<Rightarrow> Snapshot \<Rightarrow> bytes \<Rightarrow> u64" where
  "countIn f s key = f (case kget (Counters s) key of Some c \<Rightarrow> c | None \<Rightarrow> \<lparr>Packets = 0, Bytes = 0\<rparr>)"

definition gained :: "(counter \<Rightarrow> u64) \<Rightarrow> Snapshot \<Rightarrow> Snapshot \<Rightarrow> bytes \<Rightarrow> int" where
  "gained f old cur key =
     (let c = uint (countIn f cur key); before = uint (countIn f old key)
      in if before \<le> c then c - before else c)"

lemma uint_counterDelta: "uint (counterDelta (countIn f cur key) (countIn f old key)) = gained f old cur key"
  by (auto simp: counterDelta_def gained_def word_le_def uint_sub_if' Let_def)

text \<open>The thresholds a flow exceeds under a rule.\<close>

definition exceededBy :: "FlowMonitorCIDR \<Rightarrow> Snapshot \<Rightarrow> Snapshot \<Rightarrow> u32 \<Rightarrow> rat \<Rightarrow> bytes \<Rightarrow> string list" where
  "exceededBy rule old cur sample secs key = exceededOf rule
      (ppsEstimate sample (counterDelta (countIn Packets cur key) (countIn Packets old key)) secs)
      (mbpsEstimate sample (counterDelta (countIn Bytes cur key) (countIn Bytes old key)) secs)"

lemma alertFor_rule:
  assumes "length key = 20" and "longestMatch (v4InV6Prefix @ take 4 (drop 4 key)) (elems (CIDRs fm)) = Some rule"
  shows "alertFor old cur fm secs key = None \<longleftrightarrow> exceededBy rule old cur (SampleEvery fm) secs key = []"
    and "alertFor old cur fm secs key = Some x \<Longrightarrow> AlertFlow x = decodeFlowID key \<and> MatchedCIDR x = CIDR rule \<and>
      Exceeded x = exceededBy rule old cur (SampleEvery fm) secs key"
  using assms(2) protected_address [OF assms(1)]
  by (auto simp: alertFor_def exceededBy_def countIn_def Let_def split: if_splits)

lemma pps_threshold:
  assumes "near 3 secs s" and "0 < s" and "0 < PPSThreshold rule"
    and "R = of_int (uint n) * of_int (uint d) / s"
  shows "of_int (uint (PPSThreshold rule)) < (1 - ulp2) ^ 7 * R \<Longrightarrow> ''pps'' \<in> set (exceededOf rule (ppsEstimate n d secs) mb)"
    and "R \<le> (1 - ulp2) ^ 7 * of_int (uint (PPSThreshold rule)) \<Longrightarrow> ''pps'' \<notin> set (exceededOf rule (ppsEstimate n d secs) mb)"
proof -
  have p: "near 6 (ppsEstimate n d secs) R" unfolding assms(4) by (rule near_ppsEstimate [OF assms(1,2)])
  note thr = near_u64 [of "PPSThreshold rule"]
  have "''pps'' \<in> set (exceededOf rule (ppsEstimate n d secs) mb) \<longleftrightarrow> ppsEstimate n d secs > f64_of_u64 (PPSThreshold rule)"
    using assms(3) by (simp add: exceededOf_def)
  then show "of_int (uint (PPSThreshold rule)) < (1 - ulp2) ^ 7 * R \<Longrightarrow> ''pps'' \<in> set (exceededOf rule (ppsEstimate n d secs) mb)"
    and "R \<le> (1 - ulp2) ^ 7 * of_int (uint (PPSThreshold rule)) \<Longrightarrow> ''pps'' \<notin> set (exceededOf rule (ppsEstimate n d secs) mb)"
    using near_le [OF p thr] near_less [OF thr p] by (auto simp: not_less [symmetric])
qed

lemma mbps_threshold:
  assumes "near 3 secs s" and "0 < s" and "0 < f64_value (MbpsThreshold rule)" and "\<not> f64_isNaN (MbpsThreshold rule)"
    and "R = of_int (uint n) * of_int (uint d) * 8 / s / 1000000"
  shows "f64_value (MbpsThreshold rule) < (1 - ulp2) ^ 8 * R \<Longrightarrow> ''mbps'' \<in> set (exceededOf rule pp (mbpsEstimate n d secs))"
    and "R \<le> (1 - ulp2) ^ 8 * f64_value (MbpsThreshold rule) \<Longrightarrow> ''mbps'' \<notin> set (exceededOf rule pp (mbpsEstimate n d secs))"
proof -
  have p: "near 8 (mbpsEstimate n d secs) R" unfolding assms(5) by (rule near_mbpsEstimate [OF assms(1,2)])
  have thr: "near 0 (f64_value (MbpsThreshold rule)) (f64_value (MbpsThreshold rule))"
    using assms(3) by (intro near_refl) simp
  have "''mbps'' \<in> set (exceededOf rule pp (mbpsEstimate n d secs)) \<longleftrightarrow> mbpsEstimate n d secs > f64_value (MbpsThreshold rule)"
    using assms(3,4) by (simp add: exceededOf_def)
  then show "f64_value (MbpsThreshold rule) < (1 - ulp2) ^ 8 * R \<Longrightarrow> ''mbps'' \<in> set (exceededOf rule pp (mbpsEstimate n d secs))"
    and "R \<le> (1 - ulp2) ^ 8 * f64_value (MbpsThreshold rule) \<Longrightarrow> ''mbps'' \<notin> set (exceededOf rule pp (mbpsEstimate n d secs))"
    using near_le [OF p thr] near_less [OF thr p] by (auto simp: not_less [symmetric])
qed


text \<open>Two readings one second apart: the flow gained 20 sampled packets, one in 64 is sampled.\<close>

definition alert_key :: bytes where
  "alert_key = [203, 0, 113, 9, 10, 1, 2, 3, 0, 80, 156, 64, 0, 0, 0, 0, 6, 0, 0, 0]"

definition alert_fm :: FlowMonitoring where
  "alert_fm = \<lparr>Enabled = True, SampleEvery = 64, MaxFlows = 1024, CIDRs = Some sample_rules\<rparr>"

definition snap :: "u64 \<Rightarrow> int \<Rightarrow> Snapshot" where
  "snap n t = \<lparr>Counters = [(alert_key, \<lparr>Packets = n, Bytes = 100 * n\<rparr>)], When = t\<rparr>"


section \<open>Windows\<close>

lemma Tick_cases:
  assumes "Tick enc os env fm (r0, fs) = Some (as, e, r, fs')"
  obtains (idle) "\<not> Enabled fm \<or> elems (CIDRs fm) = []" "as = []" "prev r = None"
    | (failed) "collectInto env = Some (Inl ())" "as = []" "e" "prev r = prev r0" "fs' = fs" "elems (CIDRs fm) \<noteq> []"
    | (baseline) cur where "collectInto env = Some (Inr cur)" "as = []" "prev r = Some cur" "Enabled fm" "elems (CIDRs fm) \<noteq> []"
    | (window) cur old s where "collectInto env = Some (Inr cur)" "prev r0 = Some old" "prev r = Some cur"
        "settings r0 = Some s" "sameSettings s fm" "as = alertsFrom old cur fm" "Enabled fm" "elems (CIDRs fm) \<noteq> []"
  using assms unfolding Tick_def
  by (auto simp: Let_def split: if_splits option.splits sum.splits prod.splits)

lemma Tick_settings:
  "Tick enc os env fm (r0, fs) = Some (as, e, r, fs') \<Longrightarrow> settings r = Some (fm\<lparr>CIDRs := copySlice (CIDRs fm)\<rparr>)"
  unfolding Tick_def by (auto simp: Let_def split: if_splits option.splits sum.splits prod.splits)

text \<open>no window combines counters of two settings. When a tick whose collection did not fail is
  followed by a tick that reports alerts, both ran under equal settings, monitoring enabled,
  and the alerts are computed from exactly the readings of these two ticks.\<close>

theorem Tick_windows:
  assumes "Tick enc os1 env1 fm1 (r0, fs0) = Some (as1, e1, r1, fs1)" and "collectInto env1 \<noteq> Some (Inl ())"
    and "Tick enc os2 env2 fm2 (r1, fs2) = Some (as2, e2, r2, fs3)" and "as2 \<noteq> []"
  shows "sameSettings (fm1\<lparr>CIDRs := copySlice (CIDRs fm1)\<rparr>) fm2 \<and> Enabled fm2 \<and>
    (\<exists>old cur. collectInto env1 = Some (Inr old) \<and> collectInto env2 = Some (Inr cur) \<and> as2 = alertsFrom old cur fm2)"
proof -
  from assms(3,4) obtain cur old s where 2: "collectInto env2 = Some (Inr cur)" "prev r1 = Some old"
      "settings r1 = Some s" "sameSettings s fm2" "as2 = alertsFrom old cur fm2" "Enabled fm2"
    by (cases rule: Tick_cases) auto
  have s: "s = fm1\<lparr>CIDRs := copySlice (CIDRs fm1)\<rparr>" using Tick_settings [OF assms(1)] 2(3) by simp
  from assms(1) have "collectInto env1 = Some (Inr old)"
    using assms(2) 2(2) by (cases rule: Tick_cases) auto
  with 2 s show ?thesis by blast
qed

definition good_calls :: save_calls where
  "good_calls = \<lparr>mkdir_ok = True, write_ok = True, write_left = None, rename_ok = True\<rparr>"

definition tick_env :: "u64 \<Rightarrow> int \<Rightarrow> collect_env" where
  "tick_env n t = \<lparr>map_present = True, batches = [(Counters (snap n t), BatchEnd)], iter_entries = [],
     iter_failed = False, collect_now = t\<rparr>"

definition enc0 :: "Alert \<Rightarrow> string option" where "enc0 a = Some (MatchedCIDR a)"

definition tick1 :: "(Alert list \<times> bool \<times> Reporter \<times> fsys) option" where
  "tick1 = Tick enc0 good_calls (tick_env 100 0) alert_fm (NewReporter ''/s'', Map.empty)"

definition tick2 :: "(Alert list \<times> bool \<times> Reporter \<times> fsys) option" where
  "tick2 = (case tick1 of None \<Rightarrow> None
     | Some (_, _, r, fs) \<Rightarrow> Tick enc0 good_calls (tick_env 120 1000000000) alert_fm (r, fs))"

lemma collect_tick_env: "collectInto (tick_env n t) = Some (Inr (snap n t))"
  by (simp add: collectInto_def tick_env_def store_def snap_def kset_def)

lemma collect_absent: "collectInto (tick_env n t\<lparr>map_present := False\<rparr>) = Some (Inl ())"
  by (simp add: collectInto_def tick_env_def)

lemma sample_alerts:
  assumes "elems (CIDRs fm) = sample_rules" and "SampleEvery fm = 64 \<or> SampleEvery fm = 1"
  shows "alertsFrom (snap 100 0) (snap 120 1000000000) fm \<noteq> []"
proof -
  let ?old = "snap 100 0" and ?cur = "snap 120 1000000000"
  have l: "longestMatch (v4InV6Prefix @ take 4 (drop 4 alert_key)) (elems (CIDRs fm)) = Some (sample_rules ! 1)"
    unfolding assms(1) by code_simp
  have k: "length alert_key = 20" by (simp add: alert_key_def)
  have s: "near 3 (durSeconds 1000000000) 1" using near_durSeconds [of 1000000000] by simp
  have u: "(1 - ulp2) ^ 7 * 20 > (10 :: rat)" "(1 - ulp2) ^ 7 * 1280 > (10 :: rat)" by code_simp+
  have d: "counterDelta (countIn Packets ?cur alert_key) (countIn Packets ?old alert_key) = 20"
    by (simp add: countIn_def snap_def counterDelta_def)
  have "''pps'' \<in> set (exceededBy (sample_rules ! 1) ?old ?cur (SampleEvery fm) (durSeconds 1000000000) alert_key)"
    unfolding exceededBy_def d
    using u assms(2) by (intro pps_threshold(1) [OF s _ _ refl]) (auto simp: sample_rules_def)
  then have "alertFor ?old ?cur fm (durSeconds 1000000000) alert_key \<noteq> None"
    using alertFor_rule(1) [OF k l, of ?old ?cur "durSeconds 1000000000"] by auto
  then obtain x where "alertFor ?old ?cur fm (durSeconds 1000000000) alert_key = Some x" by blast
  then have "x \<in> set (alertsFrom ?old ?cur fm)"
    by (subst alertsFrom_iff) (auto simp: snap_def kkeys_def)
  then show ?thesis by auto
qed

lemmas sample_ticks = Tick_def collect_tick_env collect_absent NewReporter_def sameSettings_def
  rulesDeepEqual_def ruleDeepEqual_def f64_eq_def f64_isNaN_def f64_exp_def f64_frac_def sample_rules_def copySlice_def Let_def

theorem Tick_windows_witness:
  "\<exists>old cur. collectInto (tick_env 100 0) = Some (Inr old) \<and> collectInto (tick_env 120 1000000000) = Some (Inr cur) \<and>
     map_option fst tick2 = Some (alertsFrom old cur alert_fm) \<and> alertsFrom old cur alert_fm \<noteq> []"
proof -
  have "\<not> Option.is_none tick1" by code_simp
  then obtain as1 e1 r1 fs1 where t1: "tick1 = Some (as1, e1, r1, fs1)" by (auto simp: Option.is_none_def)
  have "(case tick2 of None \<Rightarrow> False | Some (as2, _) \<Rightarrow> as2 \<noteq> [])"
    using sample_alerts [of alert_fm] by (simp add: tick2_def tick1_def sample_ticks alert_fm_def split: prod.splits)
  then obtain as2 e2 r2 fs2 where t2: "tick2 = Some (as2, e2, r2, fs2)" "as2 \<noteq> []"
    by (auto split: option.splits prod.splits)
  have c: "collectInto (tick_env 100 0) \<noteq> Some (Inl ())" by (simp add: collectInto_def tick_env_def)
  have "Tick enc0 good_calls (tick_env 120 1000000000) alert_fm (r1, fs1) = Some (as2, e2, r2, fs2)"
    using t2(1) unfolding tick2_def t1 by simp
  from Tick_windows [OF t1 [unfolded tick1_def] c this t2(2)] obtain old cur
    where "collectInto (tick_env 100 0) = Some (Inr old)" "collectInto (tick_env 120 1000000000) = Some (Inr cur)"
      "as2 = alertsFrom old cur alert_fm" by blast
  moreover have "map_option fst tick2 = Some as2" by (simp add: t2(1))
  ultimately show ?thesis using t2(2) by blast
qed

text \<open>
  A failed collection breaks this: the tick has already recorded the new settings and keeps
  the reading made under the old ones, so the next tick sees no change and compares counters
  that were sampled one in 64 with a reading sampled one in 1.
\<close>

definition new_fm :: FlowMonitoring where "new_fm = alert_fm\<lparr>SampleEvery := 1\<rparr>"

lemma mixed_window:
  "(case Tick enc0 good_calls (tick_env 100 0) alert_fm (NewReporter ''/s'', Map.empty) of
      Some (_, _, r1, fs1) \<Rightarrow>
        (case Tick enc0 good_calls (tick_env 0 0\<lparr>map_present := False\<rparr>) new_fm (r1, fs1) of
           Some (_, _, r2, fs2) \<Rightarrow>
             (case Tick enc0 good_calls (tick_env 120 1000000000) new_fm (r2, fs2) of
                Some (as, _) \<Rightarrow> as = alertsFrom (snap 100 0) (snap 120 1000000000) new_fm \<and> as \<noteq> []
              | None \<Rightarrow> False)
         | None \<Rightarrow> False)
    | None \<Rightarrow> False)"
  using sample_alerts [of new_fm] by (simp add: sample_ticks new_fm_def alert_fm_def split: prod.splits)

section \<open>The published file\<close>

lemma writeAlerts_atomic:
  assumes "writeAlerts enc os dir as fs = (e, fs')"
  shows "fs' (pathJoin [dir, alertsFile]) = fs (pathJoin [dir, alertsFile]) \<and> e \<or>
    fs' (pathJoin [dir, alertsFile]) = encodeAll enc as \<and> encodeAll enc as \<noteq> None \<and> \<not> e"
  using assms by (auto simp: writeAlerts_def Let_def split: if_splits option.splits)

text \<open>What the decoder relies on: it reads back an encoded alert, which is one line that fits the scanner.\<close>

definition codec_ok :: "(Alert \<Rightarrow> string option) \<Rightarrow> (string \<Rightarrow> Alert option) \<Rightarrow> Alert \<Rightarrow> bool" where
  "codec_ok enc dec a \<longleftrightarrow> (\<exists>s. enc a = Some s \<and> dec s = Some a \<and> newline \<notin> set s \<and> length s < 65536 \<and>
     (s \<noteq> [] \<longrightarrow> last s \<noteq> CHR 0x0D)) \<and> Schema a = 1"

lemma scanLines_cons:
  assumes "newline \<notin> set s" and "length s < 65536" and "s \<noteq> [] \<longrightarrow> last s \<noteq> CHR 0x0D"
  shows "scanLines (s @ newline # rest) = (s # fst (scanLines rest), snd (scanLines rest))"
  using assms by (subst scanLines.simps) (auto simp: cutOn_append dropCR_def split: prod.splits)

lemma encodeAll_scan:
  assumes "\<forall>a \<in> set as. codec_ok enc dec a"
  shows "\<exists>body ls. encodeAll enc as = Some body \<and> scanLines body = (ls, False) \<and>
    (\<forall>acc. readLoop dec ls False acc = ReadOk (acc @ as))"
  using assms
proof (induction as)
  case Nil
  then show ?case by (simp add: scanLines.simps)
next
  case (Cons a as)
  then obtain body ls where b: "encodeAll enc as = Some body" "scanLines body = (ls, False)"
    "\<And>acc. readLoop dec ls False acc = ReadOk (acc @ as)" by auto
  from Cons.prems obtain s where s: "enc a = Some s" "dec s = Some a" "newline \<notin> set s" "length s < 65536"
    "s \<noteq> [] \<longrightarrow> last s \<noteq> CHR 0x0D" "Schema a = 1" by (auto simp: codec_ok_def)
  show ?case
    using b s scanLines_cons [OF s(3,4,5), of body]
    by (intro exI [of _ "s @ newline # body"] exI [of _ "s # ls"]) simp
qed

text \<open>C19: what a tick publishes is what an interactive client reads. If the tick returns no error,
  and the JSON codec reads back the alerts of this tick line by line, \<open>ReadAlerts\<close> on the
  published path returns exactly these alerts; if it returns an error, the file is as it was.\<close>

theorem ReadAlerts_Tick:
  assumes "Tick enc os env fm (r0, fs) = Some (as, e, r, fs')" and "\<forall>a \<in> set as. codec_ok enc dec a"
    and "path = pathJoin [ReporterDir r0, alertsFile]"
  shows "(\<not> e \<longrightarrow> ReadAlerts dec fs' path = ReadOk as) \<and> (e \<longrightarrow> fs' path = fs path)"
proof -
  have w: "(\<exists>os'. writeAlerts enc os' (ReporterDir r0) as fs = (e, fs')) \<or> e \<and> fs' = fs"
    using assms(1) unfolding Tick_def
    by (auto simp: Let_def split: if_splits option.splits sum.splits prod.splits)
  obtain body ls where b: "encodeAll enc as = Some body" "scanLines body = (ls, False)"
    "readLoop dec ls False [] = ReadOk as"
    using encodeAll_scan [OF assms(2)] by force
  from w show ?thesis
  proof
    assume "\<exists>os'. writeAlerts enc os' (ReporterDir r0) as fs = (e, fs')"
    then obtain os' where "writeAlerts enc os' (ReporterDir r0) as fs = (e, fs')" by blast
    from writeAlerts_atomic [OF this] b show ?thesis by (auto simp: assms(3) ReadAlerts_def)
  qed simp
qed

definition tick_dec :: "string \<Rightarrow> Alert option" where
  "tick_dec s = Some (hd (alertsFrom (snap 100 0) (snap 120 1000000000) alert_fm))"

definition tick_reporter :: Reporter where
  "tick_reporter = \<lparr>ReporterDir = ''/s'', prev = Some (snap 100 0), settings = Some alert_fm\<rparr>"

theorem ReadAlerts_Tick_witness:
  "\<exists>as r fs. Tick enc0 good_calls (tick_env 120 1000000000) alert_fm (tick_reporter, Map.empty) = Some (as, False, r, fs) \<and>
     as \<noteq> [] \<and> ReadAlerts tick_dec fs (pathJoin [''/s'', alertsFile]) = ReadOk as"
proof -
  let ?as = "alertsFrom (snap 100 0) (snap 120 1000000000) alert_fm"
  have ne: "?as \<noteq> []" by (rule sample_alerts) (simp_all add: alert_fm_def)
  have k: "sort (kkeys (Counters (snap 120 1000000000))) = [alert_key]" by (simp add: snap_def kkeys_def)
  have "\<exists>x secs. ?as = [x] \<and> alertFor (snap 100 0) (snap 120 1000000000) alert_fm secs alert_key = Some x"
    using ne unfolding alertsFrom_def Let_def k by (auto simp: map_filter_def split: if_splits)
  then obtain x secs where x: "?as = [x]" "alertFor (snap 100 0) (snap 120 1000000000) alert_fm secs alert_key = Some x" by blast
  have l: "longestMatch (v4InV6Prefix @ take 4 (drop 4 alert_key)) (elems (CIDRs alert_fm)) = Some (sample_rules ! 1)" by code_simp
  have "MatchedCIDR x = ''10.1.0.0/16''"
    using alertFor_rule(2) [OF _ l x(2)] by (simp add: alert_key_def sample_rules_def)
  moreover have "Schema x = 1" using x(2) by (auto simp: alertFor_def Let_def split: option.splits if_splits)
  ultimately have c: "\<forall>a \<in> set ?as. codec_ok enc0 tick_dec a"
    by (simp add: x(1) codec_ok_def enc0_def tick_dec_def newline_def)
  have same: "sameSettings alert_fm alert_fm" by code_simp
  obtain fs where "writeAlerts enc0 good_calls ''/s'' ?as Map.empty = (False, fs)"
    by (simp add: writeAlerts_def good_calls_def x(1) enc0_def Let_def)
  then have "Tick enc0 good_calls (tick_env 120 1000000000) alert_fm (tick_reporter, Map.empty) =
      Some (?as, False, tick_reporter\<lparr>settings := Some (alert_fm\<lparr>CIDRs := copySlice (CIDRs alert_fm)\<rparr>),
        prev := Some (snap 120 1000000000)\<rparr>, fs)"
    using same by (simp add: Tick_def collect_tick_env tick_reporter_def Let_def) (simp add: alert_fm_def sample_rules_def)
  with ReadAlerts_Tick [OF this c refl] ne show ?thesis by (auto simp: tick_reporter_def)
qed

end
