(* ===== verification/Bpf_Frame.thy ===== *)
theory Bpf_Frame
  imports Bpf_Safety
begin

text \<open>
  What a packet can and cannot change in the maps: every hash map keeps one entry per key,
  and the maps and variables that the control plane owns (policy, allowlist, monitored
  networks, monitoring variables, L1 size) are left alone. The step relations of the
  daemon rest on these facts.
\<close>

section \<open>The invariant of the maps\<close>

definition dp_inv :: "dp \<Rightarrow> bool" where
  "dp_inv s \<longleftrightarrow> kmap_inv (flows s) \<and> kmap_inv (udp_flows s) \<and> kmap_inv (flow_monitor_counters s) \<and> kmap_inv (synbkt s) \<and>
     kmap_inv (server_allow s) \<and> kmap_inv (flow_monitor_cidrs s)"

definition same_ctl :: "dp \<Rightarrow> dp \<Rightarrow> bool" where
  "same_ctl s s' \<longleftrightarrow> features s' = features s \<and> server_allow s' = server_allow s \<and>
     flow_monitor_cidrs s' = flow_monitor_cidrs s \<and> FLOW_MONITOR_ENABLED s' = FLOW_MONITOR_ENABLED s \<and>
     FLOW_MONITOR_SAMPLE_MASK s' = FLOW_MONITOR_SAMPLE_MASK s \<and> l1_entries s' = l1_entries s"

definition pkt_ok :: "dp \<Rightarrow> dp \<Rightarrow> bool" where
  "pkt_ok s s' \<longleftrightarrow> same_ctl s s' \<and> (dp_inv s \<longrightarrow> dp_inv s')"

lemma pkt_ok_refl [simp, inv_intros]: "pkt_ok s s"
  by (simp add: pkt_ok_def same_ctl_def)

lemma pkt_ok_trans: "pkt_ok a b \<Longrightarrow> pkt_ok b c \<Longrightarrow> pkt_ok a c"
  by (auto simp: pkt_ok_def same_ctl_def)

lemmas pkt_ok_unfold = pkt_ok_def same_ctl_def dp_inv_def

section \<open>The pieces of the program\<close>

lemma pkt_stats [inv_intros]:
  "pkt_ok s t \<Longrightarrow> pkt_ok s (stat_reason env r t)"
  "pkt_ok s t \<Longrightarrow> pkt_ok s (sg_upd env f t)"
  "pkt_ok s t \<Longrightarrow> pkt_ok s (vlan_upd env v g t)"
  by (auto simp: pkt_ok_unfold stat_reason_def sg_upd_def vlan_upd_def Let_def)

lemma pkt_rx_account [inv_intros]: "pkt_ok s t \<Longrightarrow> pkt_ok s (rx_account env v l t)"
  by (simp add: rx_account_def inv_intros)

lemma pkt_l1_put [inv_intros]: "pkt_ok s t \<Longrightarrow> pkt_ok s (l1_put env i k st now t)"
  by (auto simp: pkt_ok_unfold l1_put_def Let_def split: option.splits)

lemma pkt_tables [inv_intros]:
  "pkt_ok s t \<Longrightarrow> pkt_ok s (set_flow k v t)"
  "pkt_ok s t \<Longrightarrow> pkt_ok s (set_udp k v t)"
  by (auto simp: pkt_ok_unfold set_flow_def set_udp_def)

lemma pkt_insert_flow [inv_intros]: "pkt_ok s t \<Longrightarrow> pkt_ok s (snd (insert_flow env k v t))"
  using lru_put_inv [of "flow_upd env" k v "flows t"]
  by (cases "lru_put (flow_upd env) k v (flows t)")
    (auto simp: insert_flow_def inv_intros, auto simp: pkt_ok_unfold)

lemma pkt_insert_flow_eq: "insert_flow env k v t = (b, u) \<Longrightarrow> pkt_ok s t \<Longrightarrow> pkt_ok s u"
  by (metis pkt_insert_flow snd_conv)

lemma pkt_monitor_flow [inv_intros]: "pkt_ok s t \<Longrightarrow> pkt_ok s (monitor_flow env k p l t)"
  using lru_put_inv [of "mon_upd env" "\<lparr>mon_flow = k, mon_protocol = p\<rparr>" "\<lparr>cnt_packets = 1, cnt_bytes = l\<rparr>" "flow_monitor_counters t"]
  by (auto simp: monitor_flow_def Let_def pkt_ok_unfold split: option.splits)

lemma pkt_tbkt_charge [inv_intros]: "pkt_ok s t \<Longrightarrow> pkt_ok s (snd (tbkt_charge key rate tnow u t))"
  using lru_put_inv [of u key "\<lparr>tokens = rate * 2 * 1000 - 1000, ts_ns = tnow\<rparr>" "synbkt t"]
  by (auto simp: tbkt_charge_def pkt_ok_unfold split: option.splits prod.splits)

lemma pkt_tokens [inv_intros]:
  "pkt_ok s t \<Longrightarrow> pkt_ok s (snd (syn_token_ok env a t))"
  "pkt_ok s t \<Longrightarrow> pkt_ok s (snd (syn_global_ok env t))"
  by (simp_all add: syn_token_ok_def syn_global_ok_def inv_intros)

lemma pkt_drops [inv_intros]:
  "pkt_ok s t \<Longrightarrow> pkt_ok s (snd (do_forward ro env l t))"
  "pkt_ok s t \<Longrightarrow> pkt_ok s (snd (nonip ro env l t))"
  "pkt_ok s t \<Longrightarrow> pkt_ok s (snd (nontcp ro env l t))"
  "pkt_ok s t \<Longrightarrow> pkt_ok s (snd (do_drop ro env f v r l t))"
  "pkt_ok s t \<Longrightarrow> pkt_ok s (snd (do_drop_lazy ro env v r l t))"
  "pkt_ok s t \<Longrightarrow> pkt_ok s (snd (do_drop_tcp ro env f v r l fr i tc t))"
  by (auto simp: do_forward_def nonip_def nontcp_def do_drop_def do_drop_lazy_def do_drop_tcp_def Let_def
      intro!: inv_intros split: option.splits)

section \<open>The handlers\<close>

lemma pkt_outbound [inv_intros]: "pkt_ok s t \<Longrightarrow> pkt_ok s (snd (snd (handle_outbound env f k fl sq now t)))"
  unfolding handle_outbound_def Let_def
  by (auto intro!: inv_intros dest: pkt_insert_flow_eq split: option.splits prod.splits)

lemma pkt_inbound_syn [inv_intros]: "pkt_ok s t \<Longrightarrow> pkt_ok s (snd (snd (inbound_syn env f k now live t)))"
proof -
  assume a: "pkt_ok s t"
  obtain b1 s1 where 1: "syn_token_ok env (inet_ip k) t = (b1, s1)" by fastforce
  obtain b2 s2 where 2: "syn_global_ok env s1 = (b2, s2)" by fastforce
  have "pkt_ok s s1" "pkt_ok s s2"
    using pkt_tokens(1) [OF a, of env "inet_ip k"] pkt_tokens(2) [of s s1 env] 1 2 by simp_all
  then show ?thesis
    using a 1 2 by (cases b1; cases b2) (auto simp: inbound_syn_def intro!: inv_intros)
qed

lemma pkt_inbound [inv_intros]: "pkt_ok s t \<Longrightarrow> pkt_ok s (snd (snd (handle_inbound env f k fl ack now t)))"
  unfolding handle_inbound_def Let_def
  by (auto simp: inbound_synack_def inbound_rst_def inbound_data_def Let_def intro!: inv_intros split: option.splits)

lemma pkt_udp [inv_intros]:
  "pkt_ok s t \<Longrightarrow> pkt_ok s (snd (snd (handle_outbound_udp env k now t)))"
  "pkt_ok s t \<Longrightarrow> pkt_ok s (snd (snd (handle_inbound_udp f k now t)))"
proof -
  assume a: "pkt_ok s t"
  have "pkt_ok s (t\<lparr>udp_flows := m\<rparr>)" if "lru_put (udp_upd env) k v (udp_flows t) = Some m" for v m
    using a lru_put_inv [OF that] by (auto simp: pkt_ok_unfold)
  then show "pkt_ok s (snd (snd (handle_outbound_udp env k now t)))"
    using a by (auto simp: handle_outbound_udp_def intro!: inv_intros split: option.splits)
  show "pkt_ok s (snd (snd (handle_inbound_udp f k now t)))"
    using a by (auto simp: handle_inbound_udp_def intro!: inv_intros split: option.splits)
qed

section \<open>The program\<close>

lemma pkt_tcp_decide [inv_intros]:
  assumes "pkt_ok s t"
  shows "pkt_ok s (snd (tcp_decide ro env f k fl vid len fr ipo tco t))"
proof -
  obtain r c u where h: "(if ROLE_TRUSTED ro then handle_outbound env f k fl (swap32 (ld32 fr (tco + 4))) (now_tick env) t
      else handle_inbound env f k fl (swap32 (ld32 fr (tco + 8))) (now_tick env) t) = (r, c, u)" by (metis prod_cases3)
  have "pkt_ok s u"
    using pkt_outbound [OF assms, of env f k fl "swap32 (ld32 fr (tco + 4))" "now_tick env"]
      pkt_inbound [OF assms, of env f k fl "swap32 (ld32 fr (tco + 8))" "now_tick env"] h
    by (cases "ROLE_TRUSTED ro") auto
  then show ?thesis unfolding tcp_decide_def Let_def h by (cases r) (auto intro!: inv_intros)
qed

lemma pkt_tcp [inv_intros]:
  assumes "pkt_ok s t"
  shows "pkt_ok s (snd (xdp_tcp ro env vid vl len fr ipo ihl t))"
  using assms unfolding xdp_tcp_def xdp_tcp_keyed_def Let_def
  by (auto intro!: inv_intros split: option.splits)

lemma pkt_udp_keyed [inv_intros]:
  assumes "pkt_ok s t"
  shows "pkt_ok s (snd (xdp_udp_keyed ro env f k vid len t))"
proof -
  define t1 where "t1 = (if ROLE_TRUSTED ro then t else monitor_flow env k IPPROTO_UDP len t)"
  have t1: "pkt_ok s t1" using assms by (simp add: t1_def inv_intros)
  obtain r c u where h: "(if ROLE_TRUSTED ro then handle_outbound_udp env k (now_tick env) t1
      else handle_inbound_udp f k (now_tick env) t1) = (r, c, u)" by (metis prod_cases3)
  have "pkt_ok s u"
    using pkt_udp(1) [OF t1, of env k "now_tick env"] pkt_udp(2) [OF t1, of f k "now_tick env"] h
    by (cases "ROLE_TRUSTED ro") auto
  then show ?thesis
    using t1 unfolding xdp_udp_keyed_def Let_def t1_def [symmetric] h by (cases r) (auto intro!: inv_intros)
qed

lemma pkt_ipv4 [inv_intros]:
  assumes "pkt_ok s t"
  shows "pkt_ok s (snd (xdp_ipv4 ro env vid vl len fr ipo t))"
  using assms unfolding xdp_ipv4_def xdp_udp_def Let_def
  by (auto intro!: inv_intros split: option.splits)

lemma xdp_filter_pkt_ok: "pkt_ok s (snd (xdp_filter ro env fr s))"
  unfolding xdp_filter_def Let_def
  by (auto intro!: inv_intros split: option.splits prod.splits)

end
