(* ===== verification/Bpf_Account.thy ===== *)
theory Bpf_Account
  imports Bpf_Frame
begin

text \<open>
  The counters of the data path balance. Every frame is counted once on reception, and once
  more as redirected, dropped or answered by a reset as long as a policy is readable; the
  per-VLAN table partitions the received and the dropped frames. The facts are invariants
  of the step function of theory Bpf_Safety.
\<close>

section \<open>What a packet adds\<close>

text \<open>Per CPU: packets and bytes received, and packets and bytes accounted for.\<close>

definition tally :: "dp \<Rightarrow> nat \<Rightarrow> u64 \<times> u64 \<times> u64 \<times> u64" where
  "tally s c = (let g = stats_cpu s c in
     (rx_pkts g, rx_bytes g, redir_pkts g + drop_pkts g + rst_pkts g, redir_bytes g + drop_bytes g + rst_bytes g))"

definition counted :: "kenv \<Rightarrow> u64 \<Rightarrow> dp \<Rightarrow> dp \<Rightarrow> bool" where
  "counted env len s u \<longleftrightarrow> tally u = (tally s)(cpu env := (case tally s (cpu env) of (a, b, p, q) \<Rightarrow> (a, b, p + 1, q + len)))"

text \<open>Frames per VLAN against frames, and drops per VLAN against drops.\<close>

definition vids :: "u32 set" where "vids = {v. v \<le> 4095}"

definition vgap :: "dp \<Rightarrow> nat \<Rightarrow> u64 \<times> u64" where
  "vgap s c = (rx_pkts (stats_cpu s c) - (\<Sum>v \<in> vids. vs_pkts (stats_vlan s c v)),
     drop_pkts (stats_cpu s c) - (\<Sum>v \<in> vids. vs_drops (stats_vlan s c v)))"

definition same_stats :: "dp \<Rightarrow> dp \<Rightarrow> bool" where
  "same_stats s t \<longleftrightarrow> stats_cpu t = stats_cpu s \<and> stats_vlan t = stats_vlan s"

lemma same_stats_refl [simp]: "same_stats s s"
  by (simp add: same_stats_def)

lemma same_stats_pieces [simp]:
  "same_stats s (stat_reason env r t) = same_stats s t"
  "same_stats s (l1_put env i k st now t) = same_stats s t"
  "same_stats s (set_flow k v t) = same_stats s t"
  "same_stats s (set_udp k v t) = same_stats s t"
  "same_stats s (snd (insert_flow env k fv t)) = same_stats s t"
  "same_stats s (monitor_flow env k p l t) = same_stats s t"
  "same_stats s (snd (tbkt_charge key rate tnow u t)) = same_stats s t"
  by (auto simp: same_stats_def stat_reason_def l1_put_def Let_def set_flow_def set_udp_def insert_flow_def monitor_flow_def
      tbkt_charge_def split: option.splits prod.splits)

lemma same_stats_insert: "insert_flow env k v t = (b, u) \<Longrightarrow> same_stats s u = same_stats s t"
  using same_stats_pieces(5) [of s env k v t] by simp

lemma same_stats_outbound: "same_stats s t \<Longrightarrow> same_stats s (snd (snd (handle_outbound env f k fl sq now t)))"
  unfolding handle_outbound_def Let_def by (auto simp: same_stats_insert split: option.splits prod.splits)

lemma same_stats_inbound: "same_stats s t \<Longrightarrow> same_stats s (snd (snd (handle_inbound env f k fl ack now t)))"
proof -
  assume a: "same_stats s t"
  have "same_stats s (snd (snd (inbound_syn env f k now live t)))" for live
  proof -
    obtain b1 s1 where 1: "syn_token_ok env (inet_ip k) t = (b1, s1)" by fastforce
    obtain b2 s2 where 2: "syn_global_ok env s1 = (b2, s2)" by fastforce
    have "same_stats s s1" "same_stats s s2"
      using a same_stats_pieces(7) [of s] 1 2 unfolding syn_token_ok_def syn_global_ok_def by (metis snd_conv)+
    then show ?thesis using a 1 2 by (cases b1; cases b2) (auto simp: inbound_syn_def)
  qed
  then show ?thesis
    using a unfolding handle_inbound_def Let_def
    by (auto simp: inbound_synack_def inbound_rst_def inbound_data_def Let_def split: option.splits)
qed

lemma same_stats_udp:
  "same_stats s t \<Longrightarrow> same_stats s (snd (snd (handle_outbound_udp env k now t)))"
  "same_stats s t \<Longrightarrow> same_stats s (snd (snd (handle_inbound_udp f k now t)))"
  by (auto simp: handle_outbound_udp_def handle_inbound_udp_def split: option.splits) (auto simp: same_stats_def)

section \<open>Accounting\<close>

definition books :: "kenv \<Rightarrow> u64 \<Rightarrow> dp \<Rightarrow> dp \<Rightarrow> bool" where
  "books env len s u \<longleftrightarrow> vgap u = vgap s \<and> (features s \<noteq> None \<longrightarrow> counted env len s u)"

lemma books_start: "same_stats s t \<Longrightarrow> features t = features s \<Longrightarrow> books env len t u = books env len s u"
proof -
  assume "same_stats s t" "features t = features s"
  then have "tally t = tally s" "vgap t = vgap s" "features t = features s"
    by (auto simp: same_stats_def tally_def vgap_def fun_eq_iff)
  then show ?thesis by (simp add: books_def counted_def)
qed

lemma vgap_sg_upd: "rx_pkts (f g) = rx_pkts g \<Longrightarrow> drop_pkts (f g) = drop_pkts g \<Longrightarrow> g = stats_cpu s (cpu env) \<Longrightarrow>
    vgap (sg_upd env f s) = vgap s"
  by (auto simp: vgap_def sg_upd_def fun_eq_iff)

lemma books_do_forward: "books env len s (snd (do_forward ro env len s))"
  by (auto simp: books_def counted_def tally_def do_forward_def vgap_def sg_upd_def fun_eq_iff Let_def ac_simps)

lemma books_side:
  "books env len (sg_upd env (\<lambda>g. g\<lparr>l1_hits := x g\<rparr>) s) u = books env len s u"
  "books env len (sg_upd env (\<lambda>g. g\<lparr>nonip_pkts := y g, nonip_bytes := z g\<rparr>) s) u = books env len s u"
  "books env len (sg_upd env (\<lambda>g. g\<lparr>nontcp_pkts := y g, nontcp_bytes := z g\<rparr>) s) u = books env len s u"
proof -
  have "books env len (sg_upd env f s) u = books env len s u"
    if "\<And>g. rx_pkts (f g) = rx_pkts g \<and> rx_bytes (f g) = rx_bytes g \<and> redir_pkts (f g) = redir_pkts g \<and> redir_bytes (f g) = redir_bytes g \<and>
      drop_pkts (f g) = drop_pkts g \<and> drop_bytes (f g) = drop_bytes g \<and> rst_pkts (f g) = rst_pkts g \<and> rst_bytes (f g) = rst_bytes g" for f
  proof -
    have "tally (sg_upd env f s) = tally s" "vgap (sg_upd env f s) = vgap s" "features (sg_upd env f s) = features s"
      using that by (auto simp: tally_def vgap_def sg_upd_def fun_eq_iff Let_def)
    then show ?thesis by (simp add: books_def counted_def)
  qed
  then show "books env len (sg_upd env (\<lambda>g. g\<lparr>l1_hits := x g\<rparr>) s) u = books env len s u"
    "books env len (sg_upd env (\<lambda>g. g\<lparr>nonip_pkts := y g, nonip_bytes := z g\<rparr>) s) u = books env len s u"
    "books env len (sg_upd env (\<lambda>g. g\<lparr>nontcp_pkts := y g, nontcp_bytes := z g\<rparr>) s) u = books env len s u" by simp_all
qed

lemma finite_vids: "finite vids"
  by (simp add: vids_def)

lemma sum_vids_upd: "v \<in> vids \<Longrightarrow> (\<Sum>w \<in> vids. f (if w = v then x else h w)) = (\<Sum>w \<in> vids. f (h w)) - f (h v) + f x" for f :: "'a \<Rightarrow> u64"
proof -
  assume v: "v \<in> vids"
  have "(\<Sum>w \<in> vids. f (if w = v then x else h w)) = f x + (\<Sum>w \<in> vids - {v}. f (h w))"
    using v finite_vids by (subst sum.remove [of _ v]) auto
  moreover have "(\<Sum>w \<in> vids. f (h w)) = f (h v) + (\<Sum>w \<in> vids - {v}. f (h w))"
    using v finite_vids by (rule sum.remove [rotated])
  ultimately show ?thesis by simp
qed

lemma vid_clamp: "(if v > 4095 then 0 else v) \<in> vids" for v :: u32
  by (auto simp: vids_def not_less)

lemma vgap_drop: "vgap (vlan_upd env vid (\<lambda>v. v\<lparr>vs_drops := vs_drops v + 1\<rparr>)
    (sg_upd env (\<lambda>g. g\<lparr>drop_pkts := drop_pkts g + 1, drop_bytes := b g\<rparr>) s)) = vgap s"
proof (rule ext)
  fix c
  define w where "w = (if vid > 4095 then 0 else vid)"
  have "w \<in> vids" unfolding w_def by (rule vid_clamp)
  then show "vgap (vlan_upd env vid (\<lambda>v. v\<lparr>vs_drops := vs_drops v + 1\<rparr>)
    (sg_upd env (\<lambda>g. g\<lparr>drop_pkts := drop_pkts g + 1, drop_bytes := b g\<rparr>) s)) c = vgap s c"
    by (simp add: vgap_def vlan_upd_def sg_upd_def Let_def w_def [symmetric] sum_vids_upd [where f = vs_pkts] sum_vids_upd [where f = vs_drops])
qed

lemma vgap_rx: "vgap (rx_account env vid len s) = vgap s"
proof (rule ext)
  fix c
  define w where "w = (if vid > 4095 then 0 else vid)"
  have "w \<in> vids" unfolding w_def by (rule vid_clamp)
  then show "vgap (rx_account env vid len s) c = vgap s c"
    by (simp add: vgap_def rx_account_def vlan_upd_def sg_upd_def Let_def w_def [symmetric]
        sum_vids_upd [where f = vs_pkts] sum_vids_upd [where f = vs_drops])
qed

lemma books_do_drop: "books env len s (snd (do_drop ro env f vid r len s))"
proof (cases "mode f = MODE_ENFORCE")
  case True
  have "vgap (snd (do_drop ro env f vid r len s)) = vgap (stat_reason env r s)"
    using True by (simp add: do_drop_def vgap_drop Let_def)
  moreover have "vgap (stat_reason env r s) = vgap s" by (simp add: vgap_def stat_reason_def fun_eq_iff)
  moreover have "counted env len s (snd (do_drop ro env f vid r len s))"
    using True by (auto simp: counted_def tally_def do_drop_def vlan_upd_def sg_upd_def stat_reason_def Let_def fun_eq_iff ac_simps)
  ultimately show ?thesis by (simp add: books_def)
next
  case False
  then show ?thesis
    using books_do_forward [of env len "stat_reason env r s" ro] books_start [of s "stat_reason env r s"]
    by (simp add: do_drop_def Let_def)
qed

lemma books_do_drop_tcp: "books env len s (snd (do_drop_tcp ro env f vid r len fr ipo tco s))"
  by (auto simp: do_drop_tcp_def books_do_drop split: option.splits)
    (auto simp: books_def counted_def tally_def vgap_def sg_upd_def stat_reason_def Let_def fun_eq_iff ac_simps)

lemma books_none: "features s = None \<Longrightarrow> books env len s s"
  by (simp add: books_def)

lemma books_do_drop_lazy: "books env len s (snd (do_drop_lazy ro env vid r len s))"
  by (auto simp: do_drop_lazy_def books_do_drop books_none split: option.splits)

lemma books_nonip: "books env len s (snd (nonip ro env len s))" "books env len s (snd (nontcp ro env len s))"
  using books_do_forward [of env len "sg_upd env (\<lambda>g. g\<lparr>nonip_pkts := nonip_pkts g + 1, nonip_bytes := nonip_bytes g + len\<rparr>) s" ro]
    books_do_forward [of env len "sg_upd env (\<lambda>g. g\<lparr>nontcp_pkts := nontcp_pkts g + 1, nontcp_bytes := nontcp_bytes g + len\<rparr>) s" ro]
  by (simp_all add: nonip_def nontcp_def books_side)

lemma books_from:
  assumes "same_stats s t" and "pkt_ok s t" and "books env len t u"
  shows "books env len s u"
  using books_start [OF assms(1)] assms(2,3) by (simp add: pkt_ok_def same_ctl_def)

section \<open>The program\<close>

lemma books_tcp_decide:
  assumes "same_stats s t" and "pkt_ok s t"
  shows "books env len s (snd (tcp_decide ro env f k fl vid len fr ipo tco t))"
proof -
  obtain r c u where h: "(if ROLE_TRUSTED ro then handle_outbound env f k fl (swap32 (ld32 fr (tco + 4))) (now_tick env) t
      else handle_inbound env f k fl (swap32 (ld32 fr (tco + 8))) (now_tick env) t) = (r, c, u)" by (metis prod_cases3)
  have "same_stats s u \<and> pkt_ok s u"
    using same_stats_outbound [OF assms(1), of env f k fl "swap32 (ld32 fr (tco + 4))" "now_tick env"]
      same_stats_inbound [OF assms(1), of env f k fl "swap32 (ld32 fr (tco + 8))" "now_tick env"]
      pkt_outbound [OF assms(2), of env f k fl "swap32 (ld32 fr (tco + 4))" "now_tick env"]
      pkt_inbound [OF assms(2), of env f k fl "swap32 (ld32 fr (tco + 8))" "now_tick env"] h
    by (cases "ROLE_TRUSTED ro") auto
  then show ?thesis
    unfolding tcp_decide_def Let_def h
    by (cases r) (auto intro!: books_from [OF _ _ books_do_forward] books_from [OF _ _ books_do_drop_tcp] inv_intros)
qed

lemma books_tcp: "books env len s (snd (xdp_tcp ro env vid vl len fr ipo ihl s))"
proof -
  have k: "books env len s (snd (xdp_tcp_keyed ro env key fl vid len fr ipo tco s))" for key fl tco
  proof -
    define t where "t = (if ROLE_TRUSTED ro then s else monitor_flow env key IPPROTO_TCP len s)"
    have t: "same_stats s t" "pkt_ok s t" by (simp_all add: t_def inv_intros)
    have l1: "books env len s (snd (do_forward ro env len (sg_upd env (\<lambda>g. g\<lparr>l1_hits := l1_hits g + 1\<rparr>) t)))"
      using books_from [OF t] books_do_forward [of env len "sg_upd env (\<lambda>g. g\<lparr>l1_hits := l1_hits g + 1\<rparr>) t" ro] by (simp add: books_side)
    have n: "features t = None \<Longrightarrow> books env len s t" using books_from [OF t] books_none by blast
    show ?thesis
      unfolding xdp_tcp_keyed_def Let_def t_def [symmetric]
      using l1 n books_tcp_decide [OF t] books_from [OF t books_do_drop_tcp] books_none
      by (auto split: option.splits)
  qed
  show ?thesis
    unfolding xdp_tcp_def Let_def
    using k books_none books_do_drop books_do_forward books_do_drop_lazy by (auto split: option.splits)
qed

lemma books_udp: "books env len s (snd (xdp_udp ro env vid vl len fr ipo ihl s))"
proof -
  have k: "books env len s (snd (xdp_udp_keyed ro env f key vid len s))" for key f
  proof -
    define t where "t = (if ROLE_TRUSTED ro then s else monitor_flow env key IPPROTO_UDP len s)"
    have t: "same_stats s t" "pkt_ok s t" by (simp_all add: t_def inv_intros)
    have l1: "books env len s (snd (do_forward ro env len (sg_upd env (\<lambda>g. g\<lparr>l1_hits := l1_hits g + 1\<rparr>) t)))"
      using books_from [OF t] books_do_forward [of env len "sg_upd env (\<lambda>g. g\<lparr>l1_hits := l1_hits g + 1\<rparr>) t" ro] by (simp add: books_side)
    obtain r c u where h: "(if ROLE_TRUSTED ro then handle_outbound_udp env key (now_tick env) t
        else handle_inbound_udp f key (now_tick env) t) = (r, c, u)" by (metis prod_cases3)
    have u: "same_stats s u \<and> pkt_ok s u"
      using same_stats_udp(1) [OF t(1), of env key "now_tick env"] same_stats_udp(2) [OF t(1), of f key "now_tick env"]
        pkt_udp(1) [OF t(2), of env key "now_tick env"] pkt_udp(2) [OF t(2), of f key "now_tick env"] h
      by (cases "ROLE_TRUSTED ro") auto
    show ?thesis
      unfolding xdp_udp_keyed_def Let_def t_def [symmetric] h
      using l1 books_from [OF t books_nonip(2)] u
      by (cases r) (auto intro!: books_from [OF _ _ books_do_forward] books_from [OF _ _ books_do_drop] inv_intros)
  qed
  show ?thesis
    unfolding xdp_udp_def Let_def
    using k books_none books_do_drop books_do_forward books_nonip by (auto split: option.splits)
qed

lemma books_ipv4: "books env len s (snd (xdp_ipv4 ro env vid vl len fr ipo s))"
  unfolding xdp_ipv4_def Let_def using books_tcp books_udp books_do_drop_lazy books_nonip by auto

text \<open>The reception is counted before anything else.\<close>

definition received :: "kenv \<Rightarrow> u64 \<Rightarrow> dp \<Rightarrow> dp \<Rightarrow> bool" where
  "received env len s u \<longleftrightarrow> vgap u = vgap s \<and>
     (features s \<noteq> None \<longrightarrow> tally u = (tally s)(cpu env := (case tally s (cpu env) of (a, b, p, q) \<Rightarrow> (a + 1, b + len, p + 1, q + len))))"

lemma received_rx: "books env len (rx_account env vid len s) u \<Longrightarrow> received env len s u"
  by (auto simp: books_def received_def counted_def vgap_rx)
    (auto simp: tally_def rx_account_def vlan_upd_def sg_upd_def Let_def fun_eq_iff)

lemma xdp_filter_received: "\<exists>len. received env len s (snd (xdp_filter ro env fr s))"
proof -
  have "received env (if MULTIBUF ro then buff_len env else of_nat (length fr)) s (snd (xdp_filter ro env fr s))"
    unfolding xdp_filter_def Let_def
    by (auto intro!: received_rx books_do_drop_lazy books_do_drop books_nonip books_ipv4 books_none split: option.splits prod.splits)
  then show ?thesis ..
qed

section \<open>The invariant\<close>

definition balanced :: "dp \<Rightarrow> bool" where
  "balanced s \<longleftrightarrow> features s \<noteq> None \<and> (\<forall>c. vgap s c = (0, 0)) \<and>
     (\<forall>c. case tally s c of (a, b, p, q) \<Rightarrow> a = p \<and> b = q)"

lemma balanced_same: "balanced s \<Longrightarrow> same_stats s t \<Longrightarrow> features t \<noteq> None \<Longrightarrow> balanced t"
proof -
  assume a: "balanced s" "same_stats s t" "features t \<noteq> None"
  then have "tally t = tally s" "vgap t = vgap s" by (auto simp: same_stats_def tally_def vgap_def fun_eq_iff)
  with a show ?thesis by (simp add: balanced_def)
qed

lemma dp_step_balanced: "balanced s \<Longrightarrow> balanced (snd (dp_step e s))"
proof (cases e)
  case (Packet ro env fr)
  assume b: "balanced s"
  obtain len where r: "received env len s (snd (xdp_filter ro env fr s))" using xdp_filter_received by blast
  have "features (snd (xdp_filter ro env fr s)) = features s" using xdp_filter_pkt_ok [of s ro env fr] by (simp add: pkt_ok_def same_ctl_def)
  with r b show ?thesis by (auto simp: Packet balanced_def received_def split: prod.splits if_splits)
next
  case (Control x)
  assume "balanced s"
  then show ?thesis by (rule balanced_same) (simp_all add: Control same_stats_def)
next
  case (Expire ts us)
  assume b: "balanced s"
  then show ?thesis by (rule balanced_same) (use b in \<open>simp_all add: Expire same_stats_def balanced_def\<close>)
qed

lemma after_events_balanced: "balanced s \<Longrightarrow> balanced (after_events dp_step s es)"
  by (induction es arbitrary: s) (simp_all add: dp_step_balanced)

end
