(* ===== verification/Stats.thy ===== *)
theory Stats
  imports Go_Float Bpf_Account Dataplane_Props
begin

text \<open>
  The statistics of \<open>internal/stats/stats.go\<close>: summing the per-CPU counters of the data
  path, rates between two readings, detection of drop spikes, and the numbers of a report.
  Text formatting of a report is a parameter; floating point is that of theory Go_Float,
  without fused operations. \<open>Collect\<close> is called \<open>CollectStats\<close> and \<open>Tick\<close> is called \<open>StatsTick\<close> here. The counters balance: this is proved for the data path and
  carried over to what is collected.
\<close>

section \<open>Snapshots\<close>

definition numReasons :: nat where "numReasons = 13"

definition reasonLabels :: "string list" where
  "reasonLabels = [''unsolicited SYN-ACK'', ''bad ISN'', ''out-of-state in'', ''out-of-state out'', ''out-of-state RST'',
     ''inbound SYN (no server)'', ''bad TCP flags'', ''TCP fragment'', ''malformed'', ''unsolicited UDP'',
     ''flow-table full'', ''excess VLAN tags'', ''UDP fragment'']"

text \<open>The indices of the map \<open>drop_reason\<close>: the enumeration of \<open>bpf/filter.h\<close> in its order.\<close>

definition reasonAt :: "nat \<Rightarrow> drop_reason" where
  "reasonAt i = [RSN_UNSOL_SYNACK, RSN_BAD_ISN, RSN_OOS_IN, RSN_OOS_OUT, RSN_OOS_RST, RSN_INBOUND_SYN, RSN_BAD_FLAGS,
     RSN_TCP_FRAG, RSN_MALFORMED, RSN_UDP_OOS, RSN_MAP_FAIL, RSN_VLAN_DEPTH, RSN_UDP_FRAG] ! i"

record StatsSnapshot =
  SG :: stats_global
  SReasons :: "u64 list"
  SVlans :: "u16 \<rightharpoonup> vlan_stat"
  SWhen :: int

definition addGlobal :: "stats_global \<Rightarrow> stats_global \<Rightarrow> stats_global" where
  "addGlobal c g = \<lparr>rx_pkts = rx_pkts g + rx_pkts c, rx_bytes = rx_bytes g + rx_bytes c,
     redir_pkts = redir_pkts g + redir_pkts c, redir_bytes = redir_bytes g + redir_bytes c,
     drop_pkts = drop_pkts g + drop_pkts c, drop_bytes = drop_bytes g + drop_bytes c,
     nonip_pkts = nonip_pkts g + nonip_pkts c, nonip_bytes = nonip_bytes g + nonip_bytes c,
     nontcp_pkts = nontcp_pkts g + nontcp_pkts c, nontcp_bytes = nontcp_bytes g + nontcp_bytes c,
     l1_hits = l1_hits g + l1_hits c, rst_pkts = rst_pkts g + rst_pkts c, rst_bytes = rst_bytes g + rst_bytes c\<rparr>"

definition addVlan :: "vlan_stat \<Rightarrow> vlan_stat \<Rightarrow> vlan_stat" where
  "addVlan c v = \<lparr>vs_pkts = vs_pkts v + vs_pkts c, vs_bytes = vs_bytes v + vs_bytes c, vs_drops = vs_drops v + vs_drops c\<rparr>"

definition zeroVlan :: vlan_stat where "zeroVlan = \<lparr>vs_pkts = 0, vs_bytes = 0, vs_drops = 0\<rparr>"

text \<open>The outcomes of the lookups, the number of CPUs and the clock.\<close>

record collect_calls =
  c_ncpu :: nat
  c_global_ok :: bool
  c_reason_ok :: "nat \<Rightarrow> bool"
  c_vlan_ok :: "nat \<Rightarrow> bool"
  c_now :: int

definition collectVlan :: "collect_calls \<Rightarrow> dp \<Rightarrow> nat \<Rightarrow> (u16 \<rightharpoonup> vlan_stat) \<Rightarrow> (u16 \<rightharpoonup> vlan_stat)" where
  "collectVlan env s vid m =
     (if \<not> c_vlan_ok env vid then m
      else (let agg = fold (\<lambda>c. addVlan (stats_vlan s c (of_nat vid))) [0..<c_ncpu env] zeroVlan in
            if vs_pkts agg > 0 \<or> vs_drops agg > 0 then m(of_nat vid \<mapsto> agg) else m))"

definition CollectStats :: "collect_calls \<Rightarrow> dp \<Rightarrow> bool \<times> StatsSnapshot" where
  "CollectStats env s =
     (let s0 = \<lparr>SG = zero_stats, SReasons = replicate numReasons 0, SVlans = Map.empty, SWhen = c_now env\<rparr> in
      if \<not> c_global_ok env then (False, s0)
      else (True,
        s0\<lparr>SG := fold (\<lambda>c. addGlobal (stats_cpu s c)) [0..<c_ncpu env] zero_stats,
           SReasons := map (\<lambda>r. if c_reason_ok env r then sum_list (map (\<lambda>c. drop_reasons s c (reasonAt r)) [0..<c_ncpu env]) else 0)
             [0..<numReasons],
           SVlans := fold (collectVlan env s) [0..<4096] Map.empty\<rparr>))"

section \<open>Rates\<close>

record RateSample =
  RWhen :: int
  Totals :: stats_global
  ProcessedPPS :: rat
  RedirectedPPS :: rat
  DroppedPPS :: rat
  L1PPS :: rat
  RstPPS :: rat
  ProcessedBPS :: rat
  RedirectedBPS :: rat
  DroppedBPS :: rat
  ReasonPPS :: "rat list"
  VLANPPS :: "u16 \<rightharpoonup> rat"
  VLANDropPPS :: "u16 \<rightharpoonup> rat"

definition rateDelta :: "rat \<Rightarrow> u64 \<Rightarrow> u64 \<Rightarrow> rat" where
  "rateDelta secs n old = (if n < old then 0 else f64_round (f64_of_u64 (n - old) / secs))"

definition Rates :: "StatsSnapshot option \<Rightarrow> StatsSnapshot \<Rightarrow> RateSample" where
  "Rates prev cur =
     (let out = \<lparr>RWhen = SWhen cur, Totals = SG cur, ProcessedPPS = 0, RedirectedPPS = 0, DroppedPPS = 0, L1PPS = 0, RstPPS = 0,
            ProcessedBPS = 0, RedirectedBPS = 0, DroppedBPS = 0, ReasonPPS = replicate numReasons 0,
            VLANPPS = Map.empty, VLANDropPPS = Map.empty\<rparr> in
      case prev of
        None \<Rightarrow> out
      | Some p \<Rightarrow>
          (let secs = durSeconds (SWhen cur - SWhen p); d = rateDelta secs; g = SG cur; pg = SG p in
           if secs \<le> 0 then out
           else out\<lparr>ProcessedPPS := d (rx_pkts g) (rx_pkts pg), RedirectedPPS := d (redir_pkts g) (redir_pkts pg),
             DroppedPPS := d (drop_pkts g) (drop_pkts pg), L1PPS := d (l1_hits g) (l1_hits pg), RstPPS := d (rst_pkts g) (rst_pkts pg),
             ProcessedBPS := f64_round (8 * d (rx_bytes g) (rx_bytes pg)), RedirectedBPS := f64_round (8 * d (redir_bytes g) (redir_bytes pg)),
             DroppedBPS := f64_round (8 * d (drop_bytes g) (drop_bytes pg)),
             ReasonPPS := map (\<lambda>i. d (SReasons cur ! i) (SReasons p ! i)) [0..<numReasons],
             VLANPPS := (\<lambda>vid. map_option (\<lambda>v. d (vs_pkts v) (vs_pkts (case SVlans p vid of Some pv \<Rightarrow> pv | None \<Rightarrow> zeroVlan))) (SVlans cur vid)),
             VLANDropPPS := (\<lambda>vid. map_option (\<lambda>v. d (vs_drops v) (vs_drops (case SVlans p vid of Some pv \<Rightarrow> pv | None \<Rightarrow> zeroVlan))) (SVlans cur vid))\<rparr>))"

section \<open>Spikes\<close>

text \<open>
  Per reason a moving average of the rate and the start of the present spike (the zero time
  is \<open>None\<close>). A warning carries the rate, the baseline and the start.
\<close>

record spike_state =
  baseline :: "nat \<Rightarrow> rat"
  spikeSince :: "nat \<Rightarrow> int option"

record spike_warning =
  w_reason :: nat
  w_rate :: rat
  w_base :: rat
  w_since :: int

definition detectSpike :: "nat \<Rightarrow> u64 \<Rightarrow> rat \<Rightarrow> int \<Rightarrow> spike_state \<Rightarrow> spike_warning option \<times> spike_state" where
  "detectSpike idx delta secs when r =
     (if secs \<le> 0 then (None, r)
      else
        (let cur = f64_round (f64_of_u64 delta / secs); base = baseline r idx in
         if base = 0 then (None, r\<lparr>baseline := (baseline r)(idx := cur)\<rparr>)
         else if cur > 1000 \<and> cur > f64_round (base * 10) then
           (let since = (case spikeSince r idx of None \<Rightarrow> when | Some t \<Rightarrow> t) in
            (Some \<lparr>w_reason = idx, w_rate = cur, w_base = base, w_since = since\<rparr>,
             r\<lparr>spikeSince := (spikeSince r)(idx := Some since)\<rparr>))
         else (None, r\<lparr>spikeSince := (spikeSince r)(idx := None),
                 baseline := (baseline r)(idx := f64_round (f64_round (f64_round (3 / 10) * cur) + f64_round (f64_round (7 / 10) * base)))\<rparr>)))"

section \<open>Reports\<close>

record StatsReporter =
  rp_prev :: "StatsSnapshot option"
  rp_spikes :: spike_state

definition newStatsReporter :: StatsReporter where
  "newStatsReporter = \<lparr>rp_prev = None, rp_spikes = \<lparr>baseline = (\<lambda>i. 0), spikeSince = (\<lambda>i. None)\<rparr>\<rparr>"

definition prevPkts :: "StatsSnapshot \<Rightarrow> string \<Rightarrow> u64" where
  "prevPkts p name =
     (if name = ''processed'' then rx_pkts (SG p)
      else if name = ''redirected'' then redir_pkts (SG p)
      else if name = ''dropped'' then drop_pkts (SG p)
      else if name = ''non-TCP fwd'' then nontcp_pkts (SG p) + nonip_pkts (SG p)
      else 0)"

definition prevBytes :: "StatsSnapshot \<Rightarrow> string \<Rightarrow> u64" where
  "prevBytes p name =
     (if name = ''processed'' then rx_bytes (SG p)
      else if name = ''redirected'' then redir_bytes (SG p)
      else if name = ''dropped'' then drop_bytes (SG p)
      else if name = ''non-TCP fwd'' then nontcp_bytes (SG p) + nonip_bytes (SG p)
      else 0)"

text \<open>The numbers of one line: the total and the differences the rates are computed from.\<close>

record stat_row =
  sr_name :: string
  sr_pkts :: u64
  sr_dp :: u64
  sr_dbytes :: u64

definition statRow :: "StatsSnapshot option \<Rightarrow> string \<Rightarrow> u64 \<Rightarrow> u64 \<Rightarrow> stat_row" where
  "statRow prev name pkts bytes = \<lparr>sr_name = name, sr_pkts = pkts,
     sr_dp = (case prev of None \<Rightarrow> 0 | Some p \<Rightarrow> pkts - prevPkts p name),
     sr_dbytes = (case prev of None \<Rightarrow> 0 | Some p \<Rightarrow> bytes - prevBytes p name)\<rparr>"

definition reportRows :: "StatsSnapshot option \<Rightarrow> stats_global \<Rightarrow> stat_row list" where
  "reportRows prev g =
     [statRow prev ''processed'' (rx_pkts g) (rx_bytes g),
      statRow prev ''redirected'' (redir_pkts g) (redir_bytes g),
      statRow prev ''dropped'' (drop_pkts g) (drop_bytes g),
      statRow prev ''non-TCP fwd'' (nontcp_pkts g + nonip_pkts g) (nontcp_bytes g + nonip_bytes g),
      \<lparr>sr_name = ''l1 hits'', sr_pkts = l1_hits g,
       sr_dp = (case prev of None \<Rightarrow> 0 | Some p \<Rightarrow> l1_hits g - l1_hits (SG p)), sr_dbytes = 0\<rparr>] @
     (if rst_pkts g > 0 then [statRow prev ''rst replies'' (rst_pkts g) (rst_bytes g)] else [])"

text \<open>The loop over the reasons: the lines, the last warning and the spike state.\<close>

fun reasonLoop :: "StatsSnapshot option \<Rightarrow> StatsSnapshot \<Rightarrow> rat \<Rightarrow> nat list \<Rightarrow> spike_warning option \<Rightarrow> spike_state
    \<Rightarrow> (nat \<times> u64) list \<times> spike_warning option \<times> spike_state" where
  "reasonLoop prev cur secs [] warn sp = ([], warn, sp)"
| "reasonLoop prev cur secs (i # is) warn sp =
     (let d = (case prev of None \<Rightarrow> 0 | Some p \<Rightarrow> SReasons cur ! i - SReasons p ! i) in
      if SReasons cur ! i = 0 then reasonLoop prev cur secs is warn sp
      else (case detectSpike i d secs (SWhen cur) sp of (w, sp1) \<Rightarrow>
        (case reasonLoop prev cur secs is (if w = None then warn else w) sp1 of (ls, w', sp') \<Rightarrow> ((i, d) # ls, w', sp'))))"

definition vlanIds :: "(u16 \<rightharpoonup> vlan_stat) \<Rightarrow> nat list" where
  "vlanIds m = filter (\<lambda>v. m (of_nat v) \<noteq> None) [0..<4096]"

definition vlanRow :: "StatsSnapshot option \<Rightarrow> StatsSnapshot \<Rightarrow> nat \<Rightarrow> nat \<times> u64 \<times> u64 \<times> u64" where
  "vlanRow prev cur vid =
     (let v = (case SVlans cur (of_nat vid) of Some v \<Rightarrow> v | None \<Rightarrow> zeroVlan) in
      case prev of
        None \<Rightarrow> (vid, 0, 0, 0)
      | Some p \<Rightarrow> (case SVlans p (of_nat vid) of
          Some pv \<Rightarrow> (vid, vs_pkts v - vs_pkts pv, vs_drops v - vs_drops pv, vs_bytes v - vs_bytes pv)
        | None \<Rightarrow> (vid, vs_pkts v, vs_drops v, vs_bytes v)))"

record stats_report =
  rep_secs :: rat
  rep_live :: int
  rep_max :: int
  rep_rows :: "stat_row list"
  rep_monitor :: bool
  rep_reasons :: "(nat \<times> u64) list"
  rep_vlans :: "(nat \<times> u64 \<times> u64 \<times> u64) list"
  rep_warn :: "spike_warning option"

definition renderStats :: "StatsReporter \<Rightarrow> StatsSnapshot \<Rightarrow> string \<Rightarrow> int \<times> int \<Rightarrow> stats_report \<times> StatsReporter" where
  "renderStats r cur md occupancy =
     (let prev = rp_prev r;
          secs = (case prev of None \<Rightarrow> 0 | Some p \<Rightarrow> durSeconds (SWhen cur - SWhen p)) in
      case reasonLoop prev cur secs [0..<numReasons] None (rp_spikes r) of (ls, warn, sp) \<Rightarrow>
        (\<lparr>rep_secs = secs, rep_live = fst occupancy, rep_max = snd occupancy, rep_rows = reportRows prev (SG cur),
          rep_monitor = (md = ''monitor''), rep_reasons = ls,
          rep_vlans = map (vlanRow prev cur) (vlanIds (SVlans cur)), rep_warn = warn\<rparr>,
         r\<lparr>rp_spikes := sp\<rparr>))"

text \<open>
  \<open>Tick\<close>: the warning for the log, whether it failed, and the state. The report replaces
  the file by a rename; a failed write may leave anything in the temporary file.
\<close>

definition StatsTick :: "(stats_report \<Rightarrow> string) \<Rightarrow> collect_calls \<Rightarrow> save_calls \<Rightarrow> string \<Rightarrow> string \<Rightarrow> int \<times> int \<Rightarrow> dp
    \<Rightarrow> StatsReporter \<Rightarrow> fsys \<Rightarrow> spike_warning option \<times> bool \<times> StatsReporter \<times> fsys" where
  "StatsTick fmt env os dir md occupancy s r fs =
     (case CollectStats env s of
        (False, _) \<Rightarrow> (None, False, r, fs)
      | (True, cur) \<Rightarrow>
          (case renderStats r cur md occupancy of (rep, r1) \<Rightarrow>
             (let r2 = r1\<lparr>rp_prev := Some cur\<rparr>; warn = rep_warn rep; dst = pathJoin [dir, ''stats.txt'']; tmp = dst @ ''.tmp'' in
              if \<not> mkdir_ok os then (warn, False, r2, fs)
              else if \<not> write_ok os then (warn, False, r2, fs(tmp := write_left os))
              else if \<not> rename_ok os then (warn, False, r2, fs(tmp \<mapsto> fmt rep))
              else (warn, True, r2, (fs(tmp := None))(dst \<mapsto> fmt rep)))))"

definition PrintStatus :: "collect_calls \<Rightarrow> bool \<Rightarrow> int \<times> int \<Rightarrow> dp \<Rightarrow> stats_report" where
  "PrintStatus env ok occupancy s = fst (renderStats newStatsReporter (snd (CollectStats env s)) (ModeName ok s) occupancy)"

section \<open>Numbers as text\<close>

fun commaGroups :: "string \<Rightarrow> string" where
  "commaGroups s = (if s = [] then [] else take 3 s @ (if 3 < length s then '','' else []) @ commaGroups (drop 3 s))"

declare commaGroups.simps [simp del]

definition comma :: "u64 \<Rightarrow> string" where
  "comma n =
     (let s = decimal (uint n); pre = length s mod 3 in
      if length s \<le> 3 then s
      else (if pre > 0 then take pre s @ (if length s > pre then '','' else []) else []) @ commaGroups (drop pre s))"

text \<open>A rate as it is shown: the value that is printed, its number of digits and its unit.\<close>

datatype shown = Dash | Shown rat nat string

definition humanRate :: "rat \<Rightarrow> shown" where
  "humanRate v =
     (if v \<ge> 1000000 then Shown (f64_round (v / 1000000)) 2 '' M''
      else if v \<ge> 1000 then Shown (f64_round (v / 1000)) 1 '' K''
      else Shown v 0 [])"

definition ratePerSec :: "u64 \<Rightarrow> rat \<Rightarrow> shown" where
  "ratePerSec delta secs = (if secs \<le> 0 then Dash else humanRate (f64_round (f64_of_u64 delta / secs)))"

definition bitrate :: "u64 \<Rightarrow> rat \<Rightarrow> shown" where
  "bitrate bytesDelta secs =
     (if secs \<le> 0 then Dash
      else (let bits = f64_round (f64_round (f64_of_u64 bytesDelta * 8) / secs) in
            if bits \<ge> 1000000000 then Shown (f64_round (bits / 1000000000)) 2 '' Gbit/s''
            else if bits \<ge> 1000000 then Shown (f64_round (bits / 1000000)) 0 '' Mbit/s''
            else if bits \<ge> 1000 then Shown (f64_round (bits / 1000)) 0 '' Kbit/s''
            else Shown bits 0 '' bit/s''))"

section \<open>What is collected\<close>

lemma fold_addGlobal:
  "rx_pkts (fold (\<lambda>c. addGlobal (f c)) xs g) = rx_pkts g + (\<Sum>c \<leftarrow> xs. rx_pkts (f c))"
  "rx_bytes (fold (\<lambda>c. addGlobal (f c)) xs g) = rx_bytes g + (\<Sum>c \<leftarrow> xs. rx_bytes (f c))"
  "redir_pkts (fold (\<lambda>c. addGlobal (f c)) xs g) = redir_pkts g + (\<Sum>c \<leftarrow> xs. redir_pkts (f c))"
  "redir_bytes (fold (\<lambda>c. addGlobal (f c)) xs g) = redir_bytes g + (\<Sum>c \<leftarrow> xs. redir_bytes (f c))"
  "drop_pkts (fold (\<lambda>c. addGlobal (f c)) xs g) = drop_pkts g + (\<Sum>c \<leftarrow> xs. drop_pkts (f c))"
  "drop_bytes (fold (\<lambda>c. addGlobal (f c)) xs g) = drop_bytes g + (\<Sum>c \<leftarrow> xs. drop_bytes (f c))"
  "rst_pkts (fold (\<lambda>c. addGlobal (f c)) xs g) = rst_pkts g + (\<Sum>c \<leftarrow> xs. rst_pkts (f c))"
  "rst_bytes (fold (\<lambda>c. addGlobal (f c)) xs g) = rst_bytes g + (\<Sum>c \<leftarrow> xs. rst_bytes (f c))"
  by (induction xs arbitrary: g) (simp_all add: addGlobal_def)

lemma fold_addVlan:
  "vs_pkts (fold (\<lambda>c. addVlan (f c)) xs v) = vs_pkts v + (\<Sum>c \<leftarrow> xs. vs_pkts (f c))"
  "vs_drops (fold (\<lambda>c. addVlan (f c)) xs v) = vs_drops v + (\<Sum>c \<leftarrow> xs. vs_drops (f c))"
  by (induction xs arbitrary: v) (simp_all add: addVlan_def)

definition vlanPart :: "(vlan_stat \<Rightarrow> u64) \<Rightarrow> (u16 \<rightharpoonup> vlan_stat) \<Rightarrow> nat \<Rightarrow> u64" where
  "vlanPart f m v = (case m (of_nat v) of None \<Rightarrow> 0 | Some x \<Rightarrow> f x)"

lemma u16_inj: "a < 4096 \<Longrightarrow> b < 4096 \<Longrightarrow> (of_nat a :: u16) = of_nat b \<longleftrightarrow> a = b"
  by (simp add: word_of_nat_eq_iff take_bit_nat_eq_self)

lemma collectVlan_other: "v < 4096 \<Longrightarrow> w < 4096 \<Longrightarrow> v \<noteq> w \<Longrightarrow> collectVlan env s w m (of_nat v) = m (of_nat v)"
  by (simp add: collectVlan_def Let_def u16_inj)

lemma collect_vlans:
  assumes "\<And>v. c_vlan_ok env v" and "n \<le> 4096" and "v < n"
  shows "vlanPart vs_pkts (fold (collectVlan env s) [0..<n] Map.empty) v = (\<Sum>c \<leftarrow> [0..<c_ncpu env]. vs_pkts (stats_vlan s c (of_nat v))) \<and>
    vlanPart vs_drops (fold (collectVlan env s) [0..<n] Map.empty) v = (\<Sum>c \<leftarrow> [0..<c_ncpu env]. vs_drops (stats_vlan s c (of_nat v)))"
  using assms(2,3)
proof (induction n)
  case (Suc n)
  let ?m = "fold (collectVlan env s) [0..<n] Map.empty"
  have f: "fold (collectVlan env s) [0..<Suc n] Map.empty = collectVlan env s n ?m" by simp
  show ?case
  proof (cases "v = n")
    case True
    have "?m (of_nat n) = None"
    proof -
      have "k \<le> n \<Longrightarrow> fold (collectVlan env s) [0..<k] Map.empty (of_nat n) = None" for k
        using Suc.prems(1) by (induction k) (simp_all add: collectVlan_other)
      then show ?thesis by blast
    qed
    moreover have "x = 0" if "\<not> 0 < x" for x :: u64 using that by (simp add: word_gt_0)
    ultimately show ?thesis
      unfolding f using True assms(1)
      by (auto simp: vlanPart_def collectVlan_def Let_def fold_addVlan zeroVlan_def)
  next
    case False
    then have v: "v < n" using Suc.prems by simp
    then have "collectVlan env s n ?m (of_nat v) = ?m (of_nat v)" using Suc.prems by (intro collectVlan_other) simp_all
    with Suc.IH [OF _ v] Suc.prems show ?thesis unfolding f by (simp add: vlanPart_def)
  qed
qed simp

lemma sum_vids: "(\<Sum>v \<in> vids. f v) = (\<Sum>v < 4096. f (of_nat v))" for f :: "u32 \<Rightarrow> u64"
proof -
  have v: "vids = of_nat ` {..<4096}"
  proof
    show "vids \<subseteq> of_nat ` {..<4096}"
    proof
      fix x :: u32
      assume "x \<in> vids"
      then have "unat x < 4096" by (simp add: vids_def word_le_nat_alt)
      then show "x \<in> of_nat ` {..<4096}" by (intro image_eqI [of _ _ "unat x"]) simp_all
    qed
    show "of_nat ` {..<4096} \<subseteq> vids"
      by (auto simp: vids_def word_le_nat_alt unat_of_nat take_bit_nat_eq_self)
  qed
  have "inj_on (of_nat :: nat \<Rightarrow> u32) {..<4096}"
    by (auto simp: inj_on_def word_of_nat_eq_iff take_bit_nat_eq_self)
  then show ?thesis unfolding v by (simp only: sum.reindex o_def)
qed

lemma sum_list_upt: "(\<Sum>c \<leftarrow> [0..<n]. f c) = (\<Sum>c < n. f c)" for f :: "nat \<Rightarrow> u64"
  by (simp add: interv_sum_list_conv_sum_set_nat atLeast0LessThan)


text \<open>The hypothesis holds of a fresh data path with a policy.\<close>

lemma fresh_balanced: "balanced (bare_dp\<lparr>features := Some f\<rparr>)"
  by (simp add: balanced_def tally_def vgap_def bare_dp_def zero_stats_def)

definition sample_calls :: collect_calls where
  "sample_calls = \<lparr>c_ncpu = 2, c_global_ok = True, c_reason_ok = (\<lambda>r. True), c_vlan_ok = (\<lambda>v. True), c_now = 0\<rparr>"


section \<open>Rates and spikes\<close>

text \<open>The gain of a counter; a counter that went back counts as reset.\<close>

definition gain :: "u64 \<Rightarrow> u64 \<Rightarrow> rat" where
  "gain n old = (if n < old then 0 else of_int (uint n - uint old))"

lemma near_rateDelta:
  assumes "0 < d"
  shows "near 5 (rateDelta (durSeconds d) n old) (gain n old / (of_int d / 1000000000))"
proof (cases "n < old")
  case True
  then show ?thesis using near_mono [OF near_refl [of 0], of 5] by (simp add: rateDelta_def gain_def)
next
  case False
  then have u: "uint (n - old) = uint n - uint old" by (simp add: word_le_def uint_sub_if' not_less)
  have "gain n old = of_int (uint (n - old))" unfolding gain_def u using False by (simp only: if_False)
  with near_u64 [of "n - old"] have "near 1 (f64_of_u64 (n - old)) (gain n old)" by (simp only:)
  from near_div [OF this near_durSeconds] assms durSeconds_pos_iff [of d]
  have "near 4 (f64_of_u64 (n - old) / durSeconds d) (gain n old / (of_int d / 1000000000))" by simp
  from near_rounded [OF this] show ?thesis using False by (simp add: rateDelta_def)
qed

lemma near_bits:
  assumes "0 < d"
  shows "near 6 (f64_round (8 * rateDelta (durSeconds d) n old)) (8 * gain n old / (of_int d / 1000000000))"
proof -
  have "near 5 (8 * rateDelta (durSeconds d) n old) (8 * (gain n old / (of_int d / 1000000000)))"
    using near_mult [OF near_refl [of 8] near_rateDelta [OF assms, of n old]] by simp
  from near_rounded [OF this] show ?thesis by simp
qed

lemma Rates_still:
  assumes "case prev of None \<Rightarrow> True | Some p \<Rightarrow> SWhen cur \<le> SWhen p"
  shows "ProcessedPPS (Rates prev cur) = 0 \<and> DroppedPPS (Rates prev cur) = 0 \<and> ProcessedBPS (Rates prev cur) = 0 \<and>
     ReasonPPS (Rates prev cur) = replicate numReasons 0 \<and> VLANPPS (Rates prev cur) = Map.empty"
proof -
  have "durSeconds (SWhen cur - SWhen p) \<le> 0" if "prev = Some p" for p
    using that assms durSeconds_pos_iff [of "SWhen cur - SWhen p"] by (simp add: not_less [symmetric])
  then show ?thesis by (cases prev) (simp_all add: Rates_def Let_def)
qed

lemma Rates_moving:
  assumes p: "prev = Some p" and lt: "SWhen p < SWhen cur" and s: "secs = of_int (SWhen cur - SWhen p) / 1000000000"
  shows "near 5 (ProcessedPPS (Rates prev cur)) (gain (rx_pkts (SG cur)) (rx_pkts (SG p)) / secs) \<and>
     near 5 (RedirectedPPS (Rates prev cur)) (gain (redir_pkts (SG cur)) (redir_pkts (SG p)) / secs) \<and>
     near 5 (DroppedPPS (Rates prev cur)) (gain (drop_pkts (SG cur)) (drop_pkts (SG p)) / secs) \<and>
     near 6 (ProcessedBPS (Rates prev cur)) (8 * gain (rx_bytes (SG cur)) (rx_bytes (SG p)) / secs) \<and>
     (\<forall>i < numReasons. near 5 (ReasonPPS (Rates prev cur) ! i) (gain (SReasons cur ! i) (SReasons p ! i) / secs)) \<and>
     dom (VLANPPS (Rates prev cur)) = dom (SVlans cur)"
proof -
  have d: "0 < SWhen cur - SWhen p" using lt by simp
  then have n: "\<not> durSeconds (SWhen cur - SWhen p) \<le> 0" using durSeconds_pos_iff [of "SWhen cur - SWhen p"] by linarith
  show ?thesis
    using near_rateDelta [OF d] near_bits [OF d] n
    unfolding s p by (simp add: Rates_def Let_def dom_def)
qed


definition sample_snap :: "int \<Rightarrow> u64 \<Rightarrow> StatsSnapshot" where
  "sample_snap when n = \<lparr>SG = zero_stats\<lparr>rx_pkts := n\<rparr>, SReasons = replicate numReasons 0, SVlans = Map.empty, SWhen = when\<rparr>"


text \<open>A run of the detector on the readings of one reason: the differences, seconds and times.\<close>

fun runSpikes :: "nat \<Rightarrow> (u64 \<times> rat \<times> int) list \<Rightarrow> spike_state \<Rightarrow> spike_warning option list \<times> spike_state" where
  "runSpikes idx [] r = ([], r)"
| "runSpikes idx ((d, secs, t) # ts) r =
     (case detectSpike idx d secs t r of (w, r1) \<Rightarrow> (case runSpikes idx ts r1 of (ws, r2) \<Rightarrow> (w # ws, r2)))"

definition rateOf :: "u64 \<Rightarrow> rat \<Rightarrow> rat" where
  "rateOf d secs = f64_round (f64_of_u64 d / secs)"

definition spiking :: "rat \<Rightarrow> u64 \<times> rat \<times> int \<Rightarrow> bool" where
  "spiking base x \<longleftrightarrow> (case x of (d, secs, t) \<Rightarrow> 0 < secs \<and> 1000 < rateOf d secs \<and> f64_round (base * 10) < rateOf d secs)"

lemma runSpikes_during:
  assumes "baseline r idx = base" and "base \<noteq> 0" and "spikeSince r idx = Some t0" and "\<forall>x \<in> set ts. spiking base x"
  shows "runSpikes idx ts r = (map (\<lambda>(d, secs, t). Some \<lparr>w_reason = idx, w_rate = rateOf d secs, w_base = base, w_since = t0\<rparr>) ts, r)"
  using assms
proof (induction ts)
  case (Cons x ts)
  obtain d secs t where x: "x = (d, secs, t)" by (metis prod_cases3)
  have "r\<lparr>spikeSince := (spikeSince r)(idx := Some t0)\<rparr> = r" using Cons.prems(3) by (cases r) auto
  then have "detectSpike idx d secs t r = (Some \<lparr>w_reason = idx, w_rate = rateOf d secs, w_base = base, w_since = t0\<rparr>, r)"
    using Cons.prems by (simp add: detectSpike_def spiking_def x rateOf_def Let_def)
  with Cons x show ?case by simp
qed simp

text \<open>C34: A spike is reported as one event. While the rate of a reason stays above 1000 per second and
  ten times its baseline, every tick warns with the same baseline and with the time of the
  first of these ticks as the start, the baseline is not drawn towards the spike, and the
  state of the other reasons is untouched; the first tick below the limits ends it.\<close>

theorem spike_episode:
  assumes "baseline r idx = base" and "base \<noteq> 0" and "spikeSince r idx = None"
    and "\<forall>x \<in> set ((d0, secs0, t0) # ts). spiking base x"
    and "0 < secs" and "\<not> spiking base (d, secs, t)"
  shows "runSpikes idx ((d0, secs0, t0) # ts) r =
      (map (\<lambda>(d, secs, t). Some \<lparr>w_reason = idx, w_rate = rateOf d secs, w_base = base, w_since = t0\<rparr>) ((d0, secs0, t0) # ts),
       r\<lparr>spikeSince := (spikeSince r)(idx := Some t0)\<rparr>) \<and>
    (case detectSpike idx d secs t (snd (runSpikes idx ((d0, secs0, t0) # ts) r)) of
       (w, r') \<Rightarrow> w = None \<and> spikeSince r' idx = None \<and> (\<forall>j. j \<noteq> idx \<longrightarrow> baseline r' j = baseline r j \<and> spikeSince r' j = spikeSince r j))"
proof -
  let ?r1 = "r\<lparr>spikeSince := (spikeSince r)(idx := Some t0)\<rparr>"
  have "detectSpike idx d0 secs0 t0 r = (Some \<lparr>w_reason = idx, w_rate = rateOf d0 secs0, w_base = base, w_since = t0\<rparr>, ?r1)"
    using assms(1-4) by (simp add: detectSpike_def spiking_def rateOf_def Let_def)
  moreover have "runSpikes idx ts ?r1 = (map (\<lambda>(d, secs, t). Some \<lparr>w_reason = idx, w_rate = rateOf d secs, w_base = base, w_since = t0\<rparr>) ts, ?r1)"
    using assms by (intro runSpikes_during) simp_all
  ultimately have run: "runSpikes idx ((d0, secs0, t0) # ts) r =
      (map (\<lambda>(d, secs, t). Some \<lparr>w_reason = idx, w_rate = rateOf d secs, w_base = base, w_since = t0\<rparr>) ((d0, secs0, t0) # ts), ?r1)"
    by simp
  have "case detectSpike idx d secs t ?r1 of
       (w, r') \<Rightarrow> w = None \<and> spikeSince r' idx = None \<and> (\<forall>j. j \<noteq> idx \<longrightarrow> baseline r' j = baseline r j \<and> spikeSince r' j = spikeSince r j)"
    using assms(1,2,5,6) by (auto simp: detectSpike_def spiking_def rateOf_def Let_def)
  with run show ?thesis by simp
qed

lemma near_rate: "0 < secs \<Longrightarrow> near 2 (rateOf d secs) (of_int (uint d) / secs)"
  using near_rounded [OF near_div [OF near_u64 [of d] near_refl [of secs]]] by (simp add: rateOf_def numeral_2_eq_2)

theorem spike_episode_witness:
  "fst (runSpikes 2 [(5000, 1, 7), (6000, 1, 8)] \<lparr>baseline = (\<lambda>i. 100), spikeSince = (\<lambda>i. None)\<rparr>) =
     [Some \<lparr>w_reason = 2, w_rate = rateOf 5000 1, w_base = 100, w_since = 7\<rparr>,
      Some \<lparr>w_reason = 2, w_rate = rateOf 6000 1, w_base = 100, w_since = 7\<rparr>]"
proof -
  have b: "f64_round (100 * 10) < 2000" using near_round [of 1000] by (simp add: near_def ulp2_def)
  have r: "4000 < rateOf 5000 1" "5000 < rateOf 6000 1" "rateOf 0 1 \<le> 1"
    using near_rate [of 1 5000] near_rate [of 1 6000] near_rate [of 1 0] by (simp_all add: near_def ulp2_def power2_eq_square)
  have "\<forall>x \<in> set ((5000, 1, 7) # [(6000, 1, 8)]). spiking 100 x" using b r by (simp add: spiking_def)
  moreover have "\<not> spiking 100 (0, 1, 9)" using r by (simp add: spiking_def)
  ultimately show ?thesis
    using spike_episode [of "\<lparr>baseline = (\<lambda>i. 100), spikeSince = (\<lambda>i. None)\<rparr>" 2 100 5000 1 7 "[(6000, 1, 8)]" 1 0 9] by simp
qed

section \<open>Report lines\<close>

lemma labels_cover: "length reasonLabels = numReasons" "(\<forall>r. \<exists>i < numReasons. reasonAt i = r)"
proof -
  show "length reasonLabels = numReasons" by (simp add: reasonLabels_def numReasons_def)
  have "set (map reasonAt [0..<numReasons]) = UNIV"
  proof -
    have "map reasonAt [0..<numReasons] = [RSN_UNSOL_SYNACK, RSN_BAD_ISN, RSN_OOS_IN, RSN_OOS_OUT, RSN_OOS_RST, RSN_INBOUND_SYN, RSN_BAD_FLAGS,
       RSN_TCP_FRAG, RSN_MALFORMED, RSN_UDP_OOS, RSN_MAP_FAIL, RSN_VLAN_DEPTH, RSN_UDP_FRAG]" by code_simp
    then show ?thesis using drop_reason.exhaust by auto
  qed
  then show "\<forall>r. \<exists>i < numReasons. reasonAt i = r" by (metis (no_types, lifting) UNIV_I atLeastLessThan_iff imageE set_map set_upt)
qed

text \<open>
  The line for reset replies is the only one whose name the lookup of the previous value does
  not know: its difference is the total, and the printed rate grows with the uptime.
\<close>

lemma rst_row_total: "sr_dp (statRow (Some p) ''rst replies'' pkts bytes) = pkts"
  by (simp add: statRow_def prevPkts_def)

text \<open>The other lines show the difference to the previous reading.\<close>

lemma rows_delta:
  assumes "r \<in> set (reportRows (Some p) g)" and "sr_name r \<noteq> ''rst replies''"
  shows "\<exists>f. sr_pkts r = f g \<and> sr_dp r = f g - f (SG p) \<and>
    f \<in> {rx_pkts, redir_pkts, drop_pkts, \<lambda>x. nontcp_pkts x + nonip_pkts x, l1_hits}"
  using assms by (auto simp: reportRows_def statRow_def prevPkts_def split: if_splits)

section \<open>Thousands separators\<close>

lemma commaGroups_digits: "filter (\<lambda>c. c \<noteq> CHR '','') (commaGroups s) = filter (\<lambda>c. c \<noteq> CHR '','') s"
proof (induction s rule: commaGroups.induct)
  case (1 s)
  show ?case
  proof (cases "s = []")
    case False
    have "filter (\<lambda>c. c \<noteq> CHR '','') s = filter (\<lambda>c. c \<noteq> CHR '','') (take 3 s) @ filter (\<lambda>c. c \<noteq> CHR '','') (drop 3 s)"
      by (metis append_take_drop_id filter_append)
    with 1 [OF False] False show ?thesis by (subst commaGroups.simps) simp
  qed (simp add: commaGroups.simps)
qed

text \<open>The separators only separate: without them the text is the decimal representation, and a
  number of at least four digits starts with one to three of them.\<close>

lemma comma_digits: "filter (\<lambda>c. c \<noteq> CHR '','') (comma n) = decimal (uint n)"
proof -
  have d: "filter (\<lambda>c. c \<noteq> CHR '','') (decimal (uint n)) = decimal (uint n)"
    using decimal_digits [of "uint n"] by (intro filter_True) (auto simp: isDigit_def)
  have "filter (\<lambda>c. c \<noteq> CHR '','') (take k s) @ filter (\<lambda>c. c \<noteq> CHR '','') (drop k s) = filter (\<lambda>c. c \<noteq> CHR '','') s" for k and s :: string
    by (metis append_take_drop_id filter_append)
  with d show ?thesis by (auto simp: comma_def Let_def commaGroups_digits)
qed

end
