(* ===== verification/Host_Tuning.thy ===== *)
theory Host_Tuning
  imports Config Kmap Resources
begin

text \<open>
  The performance profile of \<open>internal/tuning/tuning.go\<close>. The host is a parameter: its
  files, directories and commands are the fields of the record \<open>machine\<close> over an arbitrary
  state \<open>'e\<close>, so that nothing is assumed of \<^verbatim>\<open>ethtool\<close>, \<^verbatim>\<open>systemctl\<close>, \<^verbatim>\<open>/proc\<close> and \<^verbatim>\<open>/sys\<close> beyond
  the laws a property names. A Tuner is the record \<open>tuner\<close> (snapshot, log, host). Go iterates a
  map in any order: the order over the feature map is \<open>m_iter\<close>, and the order over the maps
  of a decoded snapshot is that of the lists \<open>m_unmarshal\<close> returns. \<open>None\<close> as the result of
  an operation is the loop of \<open>parseCPUList\<close> that does not end.
\<close>

section \<open>Snapshot, host and log\<close>

record TuneSnapshot =
  Sysctls :: "(string, string) kmap"
  EthFeatures :: "(string, (string, string) kmap) kmap"
  Rings :: "(string, string \<times> string) kmap"
  Chans :: "(string, string) kmap"
  PrivFlags :: "(string, (string, string) kmap) kmap"
  IRQAffinity :: "(string, string) kmap"
  Governors :: "(string, string) kmap"
  IrqbalanceWasActive :: bool

definition emptySnapshot :: TuneSnapshot where
  "emptySnapshot = \<lparr>Sysctls = [], EthFeatures = [], Rings = [], Chans = [], PrivFlags = [],
     IRQAffinity = [], Governors = [], IrqbalanceWasActive = False\<rparr>"

record 'e machine =
  m_read :: "'e \<Rightarrow> string \<Rightarrow> string option"
  m_write :: "string \<Rightarrow> string \<Rightarrow> 'e \<Rightarrow> bool \<times> 'e"
  m_mkdir :: "string \<Rightarrow> 'e \<Rightarrow> bool \<times> 'e"
  m_remove :: "string \<Rightarrow> 'e \<Rightarrow> 'e"
  m_readdir :: "'e \<Rightarrow> string \<Rightarrow> string list option"
  m_glob :: "'e \<Rightarrow> string \<Rightarrow> string list"
  m_output :: "'e \<Rightarrow> string list \<Rightarrow> string option"
  m_run :: "string list \<Rightarrow> 'e \<Rightarrow> bool \<times> 'e"
  m_iter :: "string \<Rightarrow> (string \<times> string) list \<Rightarrow> (string \<times> string) list"
  m_marshal :: "TuneSnapshot \<Rightarrow> string option"
  m_unmarshal :: "string \<Rightarrow> TuneSnapshot option"

datatype tune_event =
    LogDisabled
  | LogSysctl string string string
  | LogWarning string
  | LogChannels u32
  | LogClamped u32 u32
  | LogRingsKept
  | LogFeature string string string string
  | LogRing string string string string string
  | LogCombined string string string
  | LogPrivFlag string string
  | LogRSS string
  | LogIrqbalance
  | LogIRQ int string nat int string
  | LogGovernor string nat

record 'e tuner =
  t_snap :: TuneSnapshot
  t_log :: "tune_event list"
  t_host :: 'e

definition newTuner :: "'e \<Rightarrow> 'e tuner" where
  "newTuner e = \<lparr>t_snap = emptySnapshot, t_log = [], t_host = e\<rparr>"

definition logf :: "tune_event \<Rightarrow> 'e tuner \<Rightarrow> 'e tuner" where
  "logf ev t = t\<lparr>t_log := t_log t @ [ev]\<rparr>"

section \<open>Low-level helpers\<close>

definition ptrOrTrue :: "bool option \<Rightarrow> bool" where
  "ptrOrTrue p \<longleftrightarrow> (case p of None \<Rightarrow> True | Some b \<Rightarrow> b)"

definition readFileTrim :: "'e machine \<Rightarrow> 'e \<Rightarrow> string \<Rightarrow> string" where
  "readFileTrim m e p = (case m_read m e p of None \<Rightarrow> [] | Some b \<Rightarrow> trimSpace b)"

definition cmdOutput :: "'e machine \<Rightarrow> 'e \<Rightarrow> string list \<Rightarrow> string" where
  "cmdOutput m e cmd = (case m_output m e cmd of None \<Rightarrow> [] | Some s \<Rightarrow> s)"

text \<open>\<^verbatim>\<open>strings.ReplaceAll(key, ".", "/")\<close>.\<close>

definition sysctlPath :: "string \<Rightarrow> string" where
  "sysctlPath key = ''/proc/sys/'' @ map (\<lambda>c. if c = CHR ''.'' then CHR ''/'' else c) key"

definition readSysctl :: "'e machine \<Rightarrow> 'e \<Rightarrow> string \<Rightarrow> string" where
  "readSysctl m e key = readFileTrim m e (sysctlPath key)"

definition writeSysctl :: "'e machine \<Rightarrow> string \<Rightarrow> string \<Rightarrow> 'e \<Rightarrow> bool \<times> 'e" where
  "writeSysctl m key val e = m_write m (sysctlPath key) val e"

definition persistPath :: string where
  "persistPath = ''/etc/sysctl.d/99-xdpfilter.conf''"

definition writeSysctlPersist :: "'e machine \<Rightarrow> (string \<times> string) list \<Rightarrow> 'e \<Rightarrow> bool \<times> 'e" where
  "writeSysctlPersist m kv e =
     m_write m persistPath
       (''# written by xdpfilter'' @ [newline] @
        concat (map (\<lambda>(k, v). k @ '' = '' @ v @ [newline]) kv)) e"

definition runStep :: "'e machine \<Rightarrow> string \<Rightarrow> string list \<Rightarrow> 'e tuner \<Rightarrow> 'e tuner" where
  "runStep m desc cmd t =
     (case m_run m cmd (t_host t) of
        (ok, e) \<Rightarrow> (let t1 = t\<lparr>t_host := e\<rparr> in if ok then t1 else logf (LogWarning desc) t1))"

text \<open>A write whose error is dropped.\<close>

definition putFile :: "'e machine \<Rightarrow> string \<Rightarrow> string \<Rightarrow> 'e \<Rightarrow> 'e" where
  "putFile m p v e = snd (m_write m p v e)"

section \<open>Reading the ethtool output\<close>

definition outLines :: "string \<Rightarrow> string list" where
  "outLines s = map trimSpace (fst (scanLines s))"

definition featureName :: "string \<Rightarrow> string" where
  "featureName short =
     (if short = ''rxvlan'' then ''rx-vlan-offload''
      else if short = ''txvlan'' then ''tx-vlan-offload''
      else if short = ''lro'' then ''large-receive-offload'' else [])"

fun featureLoop :: "string \<Rightarrow> string list \<Rightarrow> string" where
  "featureLoop name [] = []"
| "featureLoop name (line # ls) =
     (if hasPrefix line (name @ '':'') \<and> 2 \<le> length (strFields line)
      then trimSuffix (strFields line ! 1) '']'' else featureLoop name ls)"

definition ethFeature :: "'e machine \<Rightarrow> 'e \<Rightarrow> string \<Rightarrow> string \<Rightarrow> string" where
  "ethFeature m e ifc short =
     featureLoop (featureName short) (outLines (cmdOutput m e [''ethtool'', ''-k'', ifc]))"

record ringInfo =
  maxRX :: u32
  maxTX :: u32
  currentRX :: string
  currentTX :: string

text \<open>One line of \<^verbatim>\<open>ethtool -g\<close>; the flag says that the section of current settings has begun.\<close>

definition ringLine :: "string \<Rightarrow> ringInfo \<times> bool \<Rightarrow> ringInfo \<times> bool" where
  "ringLine line st = (case st of (r, current) \<Rightarrow>
     if line = ''Pre-set maximums:'' then (r, False)
     else if line = ''Current hardware settings:'' then (r, True)
     else (let f = strFields line in
       if length f \<noteq> 2 then (r, current)
       else (case parseUint 32 (f ! 1) of
         (v, Some err) \<Rightarrow> (r, current)
       | (v, None) \<Rightarrow>
           (if \<not> current \<and> f ! 0 = ''RX:'' then (r\<lparr>maxRX := of_int v\<rparr>, current)
            else if \<not> current \<and> f ! 0 = ''TX:'' then (r\<lparr>maxTX := of_int v\<rparr>, current)
            else if current \<and> f ! 0 = ''RX:'' then (r\<lparr>currentRX := f ! 1\<rparr>, current)
            else if current \<and> f ! 0 = ''TX:'' then (r\<lparr>currentTX := f ! 1\<rparr>, current)
            else (r, current)))))"

definition parseRingInfo :: "string \<Rightarrow> ringInfo option" where
  "parseRingInfo out =
     (let r = fst (fold ringLine (outLines out)
                    (\<lparr>maxRX = 0, maxTX = 0, currentRX = [], currentTX = []\<rparr>, False))
      in if currentRX r \<noteq> [] \<and> currentTX r \<noteq> [] then Some r else None)"

definition ethRingInfo :: "'e machine \<Rightarrow> 'e \<Rightarrow> string \<Rightarrow> ringInfo option" where
  "ethRingInfo m e ifc = parseRingInfo (cmdOutput m e [''ethtool'', ''-g'', ifc])"

record channelInfo =
  ch_maximum :: u32
  ch_current :: string

definition channelLine :: "string \<Rightarrow> channelInfo \<times> bool \<Rightarrow> channelInfo \<times> bool" where
  "channelLine line st = (case st of (c, current) \<Rightarrow>
     if line = ''Pre-set maximums:'' then (c, False)
     else if line = ''Current hardware settings:'' then (c, True)
     else (let f = strFields line in
       if length f \<noteq> 2 \<or> f ! 0 \<noteq> ''Combined:'' then (c, current)
       else (case parseUint 32 (f ! 1) of
         (v, Some err) \<Rightarrow> (c, current)
       | (v, None) \<Rightarrow>
           (if current then (c\<lparr>ch_current := f ! 1\<rparr>, current)
            else (c\<lparr>ch_maximum := of_int v\<rparr>, current)))))"

definition parseChannelInfo :: "string \<Rightarrow> channelInfo option" where
  "parseChannelInfo out =
     (let c = fst (fold channelLine (outLines out) (\<lparr>ch_maximum = 0, ch_current = []\<rparr>, False))
      in if ch_current c \<noteq> [] then Some c else None)"

definition ethChannelInfo :: "'e machine \<Rightarrow> 'e \<Rightarrow> string \<Rightarrow> channelInfo option" where
  "ethChannelInfo m e ifc = parseChannelInfo (cmdOutput m e [''ethtool'', ''-l'', ifc])"

text \<open>The last word of the line; the lemma \<open>flag_line_has_word\<close> below shows that there is one.\<close>

fun privLoop :: "string \<Rightarrow> string list \<Rightarrow> string" where
  "privLoop flag [] = []"
| "privLoop flag (line # ls) =
     (if hasPrefix line flag then last (strFields line) else privLoop flag ls)"

definition ethPrivFlag :: "'e machine \<Rightarrow> 'e \<Rightarrow> string \<Rightarrow> string \<Rightarrow> string" where
  "ethPrivFlag m e ifc flag =
     privLoop flag (outLines (cmdOutput m e [''ethtool'', ''--show-priv-flags'', ifc]))"

section \<open>CPU lists\<close>

text \<open>
  The loop \<open>for i := a; i <= b; i++\<close> over 64-bit integers: with the largest integer as \<open>b\<close> the
  condition never fails, which is \<open>None\<close>.
\<close>

definition cpuRange :: "int \<Rightarrow> int \<Rightarrow> int list option" where
  "cpuRange a b = (if a \<le> b \<and> b = 2 ^ 63 - 1 then None else Some [a..b])"

definition cpuPart :: "string \<Rightarrow> int list option" where
  "cpuPart part0 =
     (let part = trimSpace part0 in
      if part = [] then Some []
      else (case cutOn (CHR ''-'') part of
              Some (lo, hi) \<Rightarrow> cpuRange (fst (atoi lo)) (fst (atoi hi))
            | None \<Rightarrow> (case atoi part of (n, None) \<Rightarrow> Some [n] | (n, Some err) \<Rightarrow> Some [])))"

fun cpuParts :: "string list \<Rightarrow> int list option" where
  "cpuParts [] = Some []"
| "cpuParts (p # ps) =
     (case cpuPart p of None \<Rightarrow> None | Some xs \<Rightarrow> map_option (\<lambda>ys. xs @ ys) (cpuParts ps))"

definition parseCPUList :: "string \<Rightarrow> int list option" where
  "parseCPUList s = cpuParts (splitOn (CHR '','') s)"

definition intersectCPUs :: "int list \<Rightarrow> int list list \<Rightarrow> int list" where
  "intersectCPUs base constraints =
     fold (\<lambda>c out. if c = [] then out else filter (\<lambda>cpu. cpu \<in> set c) out) constraints base"

fun allowedLoop :: "string list \<Rightarrow> int list option" where
  "allowedLoop [] = Some []"
| "allowedLoop (line # ls) =
     (if hasPrefix line ''Cpus_allowed_list:''
      then parseCPUList (trimSpace (trimPrefix line ''Cpus_allowed_list:'')) else allowedLoop ls)"

definition processAllowedCPUs :: "'e machine \<Rightarrow> 'e \<Rightarrow> int list option" where
  "processAllowedCPUs m e = allowedLoop (splitOn newline (readFileTrim m e ''/proc/self/status''))"

definition onlinePath :: string where "onlinePath = ''/sys/devices/system/cpu/online''"

text \<open>The CPUs local to the port's NUMA node, or every online CPU when the node is unknown.\<close>

definition nodeCPUs :: "'e machine \<Rightarrow> 'e \<Rightarrow> string \<Rightarrow> int list option" where
  "nodeCPUs m e ifc =
     (let node = readFileTrim m e (''/sys/class/net/'' @ ifc @ ''/device/numa_node'') in
      case (if node \<noteq> [] \<and> node \<noteq> ''-1''
            then parseCPUList (readFileTrim m e (''/sys/devices/system/node/node'' @ node @ ''/cpulist''))
            else Some []) of
        None \<Rightarrow> None
      | Some cpus \<Rightarrow>
          (if cpus = [] then parseCPUList (readFileTrim m e onlinePath) else Some cpus))"

definition dropHousekeeping :: "int \<Rightarrow> int list \<Rightarrow> int list" where
  "dropHousekeeping hk0 cpus =
     (let hk = (if hk0 < 0 \<and> cpus \<noteq> [] then last cpus else hk0);
          out = filter (\<lambda>c. c \<noteq> hk) cpus
      in if out = [] then cpus else out)"

definition numaCores :: "'e machine \<Rightarrow> Config \<Rightarrow> 'e \<Rightarrow> string \<Rightarrow> int list option" where
  "numaCores m cfg e ifc =
     (case (nodeCPUs m e ifc, parseCPUList (readFileTrim m e onlinePath), processAllowedCPUs m e) of
        (Some cpus, Some online, Some allowed) \<Rightarrow>
          Some (dropHousekeeping (HousekeepingCore cfg) (intersectCPUs cpus [online, allowed]))
      | _ \<Rightarrow> None)"

section \<open>Sysctls\<close>

definition desiredSysctls :: "Tuning \<Rightarrow> (string \<times> string) list" where
  "desiredSysctls tn =
     [(''net.core.bpf_jit_enable'', ''1''), (''net.core.bpf_jit_harden'', ''0''),
      (''kernel.numa_balancing'', ''0'')] @
     (if NetdevBacklog tn \<noteq> 0 then [(''net.core.netdev_max_backlog'', itoa (uint (NetdevBacklog tn)))] else []) @
     (if NetdevBudget tn \<noteq> 0 then [(''net.core.netdev_budget'', itoa (uint (NetdevBudget tn)))] else [])"

definition applySysctl :: "'e machine \<Rightarrow> bool \<Rightarrow> string \<times> string \<Rightarrow> 'e tuner \<Rightarrow> 'e tuner" where
  "applySysctl m dry kv t =
     (let key = fst kv; val = snd kv; cur = readSysctl m (t_host t) key in
      if cur = val then t
      else (let t1 = logf (LogSysctl key val cur)
                       (t\<lparr>t_snap := (t_snap t)\<lparr>Sysctls := kset key cur (Sysctls (t_snap t))\<rparr>\<rparr>) in
        if dry then t1
        else (case writeSysctl m key val (t_host t1) of
          (ok, e) \<Rightarrow> (let t2 = t1\<lparr>t_host := e\<rparr> in if ok then t2 else logf (LogWarning key) t2))))"

definition applySysctls :: "'e machine \<Rightarrow> Config \<Rightarrow> bool \<Rightarrow> 'e tuner \<Rightarrow> 'e tuner" where
  "applySysctls m cfg dry t =
     (let desired = desiredSysctls (Tuning_Cfg cfg); t1 = fold (applySysctl m dry) desired t in
      if dry then t1 else t1\<lparr>t_host := snd (writeSysctlPersist m desired (t_host t1))\<rparr>)"

section \<open>Interface settings\<close>

definition snapFeature :: "string \<Rightarrow> string \<Rightarrow> string \<Rightarrow> TuneSnapshot \<Rightarrow> TuneSnapshot" where
  "snapFeature ifc f v s =
     s\<lparr>EthFeatures := kset ifc (kset f v (case kget (EthFeatures s) ifc of None \<Rightarrow> [] | Some fs \<Rightarrow> fs))
                        (EthFeatures s)\<rparr>"

definition snapPriv :: "string \<Rightarrow> string \<Rightarrow> string \<Rightarrow> TuneSnapshot \<Rightarrow> TuneSnapshot" where
  "snapPriv ifc f v s =
     s\<lparr>PrivFlags := kset ifc (kset f v (case kget (PrivFlags s) ifc of None \<Rightarrow> [] | Some fs \<Rightarrow> fs))
                      (PrivFlags s)\<rparr>"

text \<open>A step that is logged, and carried out unless this is a preview.\<close>

definition tuneStep :: "'e machine \<Rightarrow> bool \<Rightarrow> tune_event \<Rightarrow> string \<Rightarrow> string list \<Rightarrow> 'e tuner \<Rightarrow> 'e tuner" where
  "tuneStep m dry ev desc cmd t =
     (let t1 = logf ev t in if dry then t1 else runStep m desc cmd t1)"

definition wantedFeatures :: "Tuning \<Rightarrow> (string \<times> string) list" where
  "wantedFeatures tn =
     (if ptrOrTrue (DisableVLANHW tn) then [(''rxvlan'', ''off''), (''txvlan'', ''off'')] else []) @
     (if ptrOrTrue (DisableLRO tn) then [(''lro'', ''off'')] else [])"

definition applyFeature :: "'e machine \<Rightarrow> bool \<Rightarrow> string \<Rightarrow> string \<times> string \<Rightarrow> 'e tuner \<Rightarrow> 'e tuner" where
  "applyFeature m dry ifc fw t =
     (let f = fst fw; want = snd fw; cur = ethFeature m (t_host t) ifc f in
      if cur \<noteq> [] \<and> cur \<noteq> want
      then tuneStep m dry (LogFeature ifc f want cur) (''ethtool -K '' @ ifc @ '' '' @ f)
             [''ethtool'', ''-K'', ifc, f, want] (t\<lparr>t_snap := snapFeature ifc f cur (t_snap t)\<rparr>)
      else t)"

definition capRing :: "u32 \<Rightarrow> u32 \<Rightarrow> u32" where
  "capRing limit n = (if 0 < limit \<and> limit < n then limit else n)"

definition applyRings :: "'e machine \<Rightarrow> Config \<Rightarrow> bool \<Rightarrow> string \<Rightarrow> 'e tuner \<Rightarrow> 'e tuner" where
  "applyRings m cfg dry ifc t =
     (let size = RingSize (Tuning_Cfg cfg) in
      if size = 0 then t
      else (case ethRingInfo m (t_host t) ifc of
        None \<Rightarrow> t
      | Some r \<Rightarrow>
          (let t1 = t\<lparr>t_snap := (t_snap t)\<lparr>Rings := kset ifc (currentRX r, currentTX r) (Rings (t_snap t))\<rparr>\<rparr>;
               wantRX = itoa (uint (capRing (maxRX r) size));
               wantTX = itoa (uint (capRing (maxTX r) size))
           in if currentRX r \<noteq> wantRX \<or> currentTX r \<noteq> wantTX
              then tuneStep m dry (LogRing ifc wantRX wantTX (currentRX r) (currentTX r)) (''ethtool -G '' @ ifc)
                     [''ethtool'', ''-G'', ifc, ''rx'', wantRX, ''tx'', wantTX] t1
              else t1)))"

definition applyChannels :: "'e machine \<Rightarrow> bool \<Rightarrow> string \<Rightarrow> u32 \<Rightarrow> 'e tuner \<Rightarrow> 'e tuner" where
  "applyChannels m dry ifc channels t =
     (if channels = 0 then t
      else (case ethChannelInfo m (t_host t) ifc of
        None \<Rightarrow> t
      | Some info \<Rightarrow>
          (let t1 = t\<lparr>t_snap := (t_snap t)\<lparr>Chans := kset ifc (ch_current info) (Chans (t_snap t))\<rparr>\<rparr>;
               want = itoa (uint channels)
           in if ch_current info \<noteq> want
              then tuneStep m dry (LogCombined ifc want (ch_current info)) (''ethtool -L '' @ ifc @ '' combined'')
                     [''ethtool'', ''-L'', ifc, ''combined'', want] t1
              else t1)))"

definition applyPrivFlag :: "'e machine \<Rightarrow> Config \<Rightarrow> bool \<Rightarrow> string \<Rightarrow> 'e tuner \<Rightarrow> 'e tuner" where
  "applyPrivFlag m cfg dry ifc t =
     (if ptrOrTrue (CQECompress (Tuning_Cfg cfg))
      then (let cur = ethPrivFlag m (t_host t) ifc ''rx_cqe_compress'' in
        if cur = [] then t
        else (let t1 = t\<lparr>t_snap := snapPriv ifc ''rx_cqe_compress'' cur (t_snap t)\<rparr> in
          if cur \<noteq> ''on''
          then tuneStep m dry (LogPrivFlag ifc cur) (''ethtool --set-priv-flags '' @ ifc)
                 [''ethtool'', ''--set-priv-flags'', ifc, ''rx_cqe_compress'', ''on''] t1
          else t1))
      else t)"

definition symmetricKey40 :: string where
  "symmetricKey40 = joinWith '':'' (map (\<lambda>i. if i mod 2 = 0 then ''6D'' else ''5A'') [0..<40])"

definition applyRSS :: "'e machine \<Rightarrow> Config \<Rightarrow> bool \<Rightarrow> string \<Rightarrow> 'e tuner \<Rightarrow> 'e tuner" where
  "applyRSS m cfg dry ifc t =
     (if ptrOrTrue (SymmetricRSS (Tuning_Cfg cfg))
      then (let t1 = logf (LogRSS ifc) t in
        if dry then t1
        else (case m_run m [''ethtool'', ''-X'', ifc, ''hfunc'', ''toeplitz'', ''xfrm'', ''symmetric-xor''] (t_host t1) of
          (ok, e) \<Rightarrow> (let t2 = t1\<lparr>t_host := e\<rparr> in
            if ok then t2
            else runStep m (''ethtool -X '' @ ifc @ '' symmetric RSS key'')
                   [''ethtool'', ''-X'', ifc, ''hkey'', symmetricKey40] t2)))
      else t)"

definition applyEthtool :: "'e machine \<Rightarrow> Config \<Rightarrow> bool \<Rightarrow> u32 \<Rightarrow> string \<Rightarrow> 'e tuner \<Rightarrow> 'e tuner" where
  "applyEthtool m cfg dry channels ifc t =
     (let feats = m_iter m ifc (wantedFeatures (Tuning_Cfg cfg));
          t1 = fold (applyFeature m dry ifc) feats t;
          t2 = applyRings m cfg dry ifc t1;
          t3 = applyChannels m dry ifc channels t2;
          t4 = applyPrivFlag m cfg dry ifc t3
      in applyRSS m cfg dry ifc t4)"

section \<open>Channel count\<close>

record channelLimit =
  cl_cpus :: u32
  cl_maximum :: u32

definition portLimit :: "channelLimit \<Rightarrow> u32" where
  "portLimit port =
     (let limit = (if cl_cpus port = 0 then 1 else cl_cpus port)
      in if 0 < cl_maximum port \<and> cl_maximum port < limit then cl_maximum port else limit)"

definition resolveCommonChannels :: "u32 \<Rightarrow> channelLimit list \<Rightarrow> u32" where
  "resolveCommonChannels requested ports =
     fold (\<lambda>port resolved. if resolved = 0 \<or> portLimit port < resolved then portLimit port else resolved)
       ports requested"

definition limitOf :: "'e machine \<Rightarrow> Config \<Rightarrow> 'e \<Rightarrow> string \<Rightarrow> channelLimit option" where
  "limitOf m cfg e ifc =
     map_option (\<lambda>cores.
       \<lparr>cl_cpus = (let n = of_nat (length cores) in if n = 0 then 1 else n),
        cl_maximum = (case ethChannelInfo m e ifc of None \<Rightarrow> 0 | Some info \<Rightarrow> ch_maximum info)\<rparr>)
       (numaCores m cfg e ifc)"

definition commonChannels :: "'e machine \<Rightarrow> Config \<Rightarrow> string list \<Rightarrow> 'e tuner \<Rightarrow> (u32 \<times> 'e tuner) option" where
  "commonChannels m cfg ifaces t =
     map_option (\<lambda>limits.
       (let req = Channels (Tuning_Cfg cfg); resolved = resolveCommonChannels req limits
        in (resolved, if 0 < req \<and> resolved < req then logf (LogClamped req resolved) t else t)))
       (those (map (limitOf m cfg (t_host t)) ifaces))"

section \<open>Interrupts and governor\<close>

definition isActiveCmd :: "string list" where
  "isActiveCmd = [''systemctl'', ''is-active'', ''--quiet'', ''irqbalance'']"

definition applyIRQBalance :: "'e machine \<Rightarrow> bool \<Rightarrow> 'e tuner \<Rightarrow> 'e tuner" where
  "applyIRQBalance m dry t =
     (case m_run m isActiveCmd (t_host t) of
        (active, e) \<Rightarrow>
          (let t1 = t\<lparr>t_host := e, t_snap := (t_snap t)\<lparr>IrqbalanceWasActive := active\<rparr>\<rparr> in
           if active
           then tuneStep m dry LogIrqbalance ''systemctl disable irqbalance''
                  [''systemctl'', ''disable'', ''--now'', ''irqbalance''] t1
           else t1))"

definition ifaceIRQs :: "'e machine \<Rightarrow> 'e \<Rightarrow> string \<Rightarrow> int list" where
  "ifaceIRQs m e ifc =
     (case m_readdir m e (''/sys/class/net/'' @ ifc @ ''/device/msi_irqs'') of
        None \<Rightarrow> []
      | Some names \<Rightarrow> sort (map (fst \<circ> atoi) (filter (\<lambda>n. snd (atoi n) = None) names)))"

definition irqPath :: "string \<Rightarrow> string" where
  "irqPath irq = ''/proc/irq/'' @ irq @ ''/smp_affinity_list''"

definition pinIRQ :: "'e machine \<Rightarrow> bool \<Rightarrow> string \<Rightarrow> int list \<Rightarrow> nat \<times> int \<Rightarrow> 'e tuner \<Rightarrow> 'e tuner" where
  "pinIRQ m dry ifc cores ii t =
     (let i = fst ii; irq = snd ii; core = cores ! (i mod length cores);
          cur = readFileTrim m (t_host t) (irqPath (itoa irq));
          t1 = t\<lparr>t_snap := (t_snap t)\<lparr>IRQAffinity := kset (itoa irq) cur (IRQAffinity (t_snap t))\<rparr>\<rparr>;
          want = itoa core
      in if cur = want then t1
         else (let t2 = logf (LogIRQ irq ifc i core cur) t1 in
           if dry then t2 else t2\<lparr>t_host := putFile m (irqPath (itoa irq)) want (t_host t2)\<rparr>))"

definition applyIRQAffinity :: "'e machine \<Rightarrow> Config \<Rightarrow> bool \<Rightarrow> string \<Rightarrow> 'e tuner \<Rightarrow> 'e tuner option" where
  "applyIRQAffinity m cfg dry ifc t =
     (let irqs = ifaceIRQs m (t_host t) ifc in
      case numaCores m cfg (t_host t) ifc of
        None \<Rightarrow> None
      | Some cores \<Rightarrow>
          (if irqs = [] \<or> cores = [] then Some t
           else Some (fold (pinIRQ m dry ifc cores) (enumerate 0 irqs) t)))"

definition wantedGovernor :: "Config \<Rightarrow> string" where
  "wantedGovernor cfg = (let g = Governor (Tuning_Cfg cfg) in if g = [] then ''performance'' else g)"

definition governorGlob :: string where
  "governorGlob = ''/sys/devices/system/cpu/cpu[0-9]*/cpufreq/scaling_governor''"

definition setGovernor :: "'e machine \<Rightarrow> bool \<Rightarrow> string \<Rightarrow> string \<Rightarrow> 'e tuner \<Rightarrow> 'e tuner" where
  "setGovernor m dry want p t =
     (let cur = readFileTrim m (t_host t) p in
      if cur = [] \<or> cur = want then t
      else (let t1 = t\<lparr>t_snap := (t_snap t)\<lparr>Governors := kset p cur (Governors (t_snap t))\<rparr>\<rparr> in
        if dry then t1 else t1\<lparr>t_host := putFile m p want (t_host t1)\<rparr>))"

definition applyGovernor :: "'e machine \<Rightarrow> Config \<Rightarrow> bool \<Rightarrow> 'e tuner \<Rightarrow> 'e tuner" where
  "applyGovernor m cfg dry t =
     (let want = wantedGovernor cfg;
          t1 = fold (setGovernor m dry want) (m_glob m (t_host t) governorGlob) t;
          n = length (Governors (t_snap t1))
      in if 0 < n then logf (LogGovernor want n) t1 else t1)"

section \<open>Apply and Restore\<close>

definition SnapshotDir :: string where "SnapshotDir = ''/var/lib/xdpfilter''"
definition SnapshotPath :: string where "SnapshotPath = ''/var/lib/xdpfilter/tuning.orig.json''"

definition saveSnapshot :: "'e machine \<Rightarrow> TuneSnapshot \<Rightarrow> 'e \<Rightarrow> bool \<times> 'e" where
  "saveSnapshot m s e =
     (case m_mkdir m SnapshotDir e of
        (False, e1) \<Rightarrow> (False, e1)
      | (True, e1) \<Rightarrow> (case m_marshal m s of None \<Rightarrow> (False, e1) | Some b \<Rightarrow> m_write m SnapshotPath b e1))"

definition applyIRQs :: "'e machine \<Rightarrow> Config \<Rightarrow> bool \<Rightarrow> 'e tuner \<Rightarrow> 'e tuner option" where
  "applyIRQs m cfg dry t =
     (if ptrOrTrue (DisableIRQBal (Tuning_Cfg cfg))
      then Option.bind (applyIRQAffinity m cfg dry (TrustedIface cfg) (applyIRQBalance m dry t))
             (applyIRQAffinity m cfg dry (UntrustedIface cfg))
      else Some t)"

definition finishApply :: "'e machine \<Rightarrow> bool \<Rightarrow> 'e tuner \<Rightarrow> 'e tuner" where
  "finishApply m dry t =
     (if dry then t
      else (case saveSnapshot m (t_snap t) (t_host t) of
        (ok, e) \<Rightarrow> (let t1 = t\<lparr>t_host := e\<rparr> in if ok then t1 else logf (LogWarning ''snapshot'') t1)))"

definition TunerApply :: "'e machine \<Rightarrow> Config \<Rightarrow> bool \<Rightarrow> 'e tuner \<Rightarrow> 'e tuner option" where
  "TunerApply m cfg dry t =
     (if \<not> Tune cfg then Some (logf LogDisabled t)
      else (let ifaces = [TrustedIface cfg, UntrustedIface cfg] in
        case commonChannels m cfg ifaces (applySysctls m cfg dry t) of
          None \<Rightarrow> None
        | Some (channels, t1) \<Rightarrow>
            (let t2 = logf (LogChannels channels) t1;
                 t3 = (if RingSize (Tuning_Cfg cfg) = 0 then logf LogRingsKept t2 else t2);
                 t4 = fold (applyEthtool m cfg dry channels) ifaces t3
             in map_option (\<lambda>t5. finishApply m dry (applyGovernor m cfg dry t5)) (applyIRQs m cfg dry t4))))"

definition runQuiet :: "'e machine \<Rightarrow> string list \<Rightarrow> 'e \<Rightarrow> 'e" where
  "runQuiet m cmd e = snd (m_run m cmd e)"

definition restoreFlags :: "'e machine \<Rightarrow> string \<Rightarrow> (string, (string, string) kmap) kmap \<Rightarrow> 'e \<Rightarrow> 'e" where
  "restoreFlags m opt fs =
     fold (\<lambda>(ifc, flags). fold (\<lambda>(f, v). runQuiet m [''ethtool'', opt, ifc, f, v]) flags) fs"

datatype restore_error = RestoreRead | RestoreDecode

definition TunerRestore :: "'e machine \<Rightarrow> 'e \<Rightarrow> restore_error option \<times> 'e" where
  "TunerRestore m e =
     (case m_read m e SnapshotPath of
        None \<Rightarrow> (Some RestoreRead, e)
      | Some b \<Rightarrow> (case m_unmarshal m b of
          None \<Rightarrow> (Some RestoreDecode, e)
        | Some s \<Rightarrow>
            (let e1 = fold (\<lambda>(k, v) e. snd (writeSysctl m k v e)) (Sysctls s) e;
                 e2 = restoreFlags m ''-K'' (EthFeatures s) e1;
                 e3 = fold (\<lambda>(ifc, rx, tx). runQuiet m [''ethtool'', ''-G'', ifc, ''rx'', rx, ''tx'', tx]) (Rings s) e2;
                 e4 = fold (\<lambda>(ifc, c). runQuiet m [''ethtool'', ''-L'', ifc, ''combined'', c]) (Chans s) e3;
                 e5 = restoreFlags m ''--set-priv-flags'' (PrivFlags s) e4;
                 e6 = fold (\<lambda>(irq, cpul). putFile m (irqPath irq) cpul) (IRQAffinity s) e5;
                 e7 = fold (\<lambda>(p, g). putFile m p g) (Governors s) e6;
                 e8 = (if IrqbalanceWasActive s
                       then runQuiet m [''systemctl'', ''enable'', ''--now'', ''irqbalance''] e7 else e7)
             in (None, m_remove m SnapshotPath e8))))"

section \<open>Facts on the parsers\<close>

lemma trimSpace_readFileTrim [simp]: "trimSpace (readFileTrim m e p) = readFileTrim m e p"
proof -
  have "trimSpace [] = []" by (rule trimSpace_plain) simp
  then show ?thesis by (auto simp: readFileTrim_def split: option.splits)
qed

text \<open>
  Indexing the last word of a line of \<^verbatim>\<open>ethtool --show-priv-flags\<close> cannot panic: a line that
  starts with a flag name has a word.
\<close>

lemma flag_line_has_word:
  assumes "hasPrefix line (c # cs)" and "plain c"
  shows "strFields line \<noteq> []"
proof -
  obtain xs where "line = c # xs" using assms(1) by (cases line) (auto simp: hasPrefix_def)
  then show ?thesis
    using stripOne_plain(1) [OF assms(2), of xs] fieldsAcc_neq_Nil [of "[c]" xs]
    by (simp add: strFields_def fieldsAcc.simps [of "[]"])
qed

section \<open>A preview changes nothing\<close>

lemma logf_simps [simp]: "t_host (logf ev t) = t_host t" "t_snap (logf ev t) = t_snap t"
  by (simp_all add: logf_def)

lemma fold_host: "(\<And>x t. t_host (f x t) = t_host t) \<Longrightarrow> t_host (fold f xs t) = t_host t"
  by (induction xs arbitrary: t) auto

lemma tuneStep_dry [simp]: "t_host (tuneStep m True ev d c t) = t_host t"
  by (simp add: tuneStep_def)

lemma applySysctls_dry: "t_host (applySysctls m cfg True t) = t_host t"
  unfolding applySysctls_def Let_def if_True
  by (rule fold_host) (simp add: applySysctl_def Let_def)

lemma applyRings_dry: "t_host (applyRings m cfg True ifc t) = t_host t"
  by (simp add: applyRings_def Let_def split: option.splits)

lemma applyChannels_dry: "t_host (applyChannels m True ifc ch t) = t_host t"
  by (simp add: applyChannels_def Let_def split: option.splits)

lemma applyPrivFlag_dry: "t_host (applyPrivFlag m cfg True ifc t) = t_host t"
  by (simp add: applyPrivFlag_def Let_def)

lemma applyRSS_dry: "t_host (applyRSS m cfg True ifc t) = t_host t"
  by (simp add: applyRSS_def Let_def)

lemma applyEthtool_dry: "t_host (applyEthtool m cfg True ch ifc t) = t_host t"
proof -
  have "t_host (fold (applyFeature m True ifc) fs t) = t_host t" for fs
    by (rule fold_host) (simp add: applyFeature_def Let_def)
  then show ?thesis
    by (simp only: applyEthtool_def Let_def applyRSS_dry applyPrivFlag_dry applyChannels_dry applyRings_dry)
qed

lemma commonChannels_host: "commonChannels m cfg ifs t = Some (ch, t') \<Longrightarrow> t_host t' = t_host t \<and> t_snap t' = t_snap t"
  by (auto simp: commonChannels_def Let_def split: if_splits)

lemma applyIRQAffinity_dry: "applyIRQAffinity m cfg True ifc t = Some t' \<Longrightarrow> t_host t' = t_host t"
proof -
  have "t_host (fold (pinIRQ m True ifc cores) xs t) = t_host t" for cores xs
    by (rule fold_host) (simp add: pinIRQ_def Let_def)
  then show "applyIRQAffinity m cfg True ifc t = Some t' \<Longrightarrow> t_host t' = t_host t"
    by (auto simp: applyIRQAffinity_def Let_def split: option.splits if_splits)
qed

lemma applyIRQs_dry:
  assumes "snd (m_run m isActiveCmd (t_host t)) = t_host t" and "applyIRQs m cfg True t = Some t'"
  shows "t_host t' = t_host t"
  using assms
  by (auto simp: applyIRQs_def applyIRQBalance_def Let_def bind_eq_Some_conv split: if_splits prod.splits
      dest!: applyIRQAffinity_dry)

lemma applyGovernor_dry: "t_host (applyGovernor m cfg True t) = t_host t"
proof -
  have "t_host (fold (setGovernor m True w) ps t) = t_host t" for w ps
    by (rule fold_host) (simp add: setGovernor_def Let_def)
  then show ?thesis by (simp add: applyGovernor_def Let_def)
qed

section \<open>The common channel count\<close>

lemma portLimit_pos: "0 < portLimit p"
  by (simp add: portLimit_def Let_def word_neq_0_conv)

lemma resolve_min: "r \<noteq> 0 \<Longrightarrow> resolveCommonChannels r ps = Min (insert r (portLimit ` set ps))"
proof (induction ps arbitrary: r)
  case (Cons p ps)
  have "resolveCommonChannels r (p # ps) = resolveCommonChannels (min (portLimit p) r) ps"
    using Cons.prems by (auto simp: resolveCommonChannels_def min_def not_less order_less_imp_le)
  moreover have "min (portLimit p) r \<noteq> 0" using Cons.prems portLimit_pos [of p] by (auto simp: min_def)
  ultimately have "resolveCommonChannels r (p # ps) = Min (insert (min (portLimit p) r) (portLimit ` set ps))"
    using Cons.IH by simp
  also have "\<dots> = Min (insert r (portLimit ` set (p # ps)))"
    by (cases ps) (simp_all add: min.assoc min.commute min.left_commute)
  finally show ?case .
qed (simp add: resolveCommonChannels_def)

text \<open>
  The channel count both ports get is the smallest of the per-port limits and the requested
  count, the latter only when one was requested (zero means automatic). It is never zero.
\<close>

theorem channels_are_least_limit:
  assumes "ports \<noteq> []"
  shows "resolveCommonChannels requested ports =
           Min ((if requested = 0 then {} else {requested}) \<union> portLimit ` set ports) \<and>
         0 < resolveCommonChannels requested ports"
proof -
  have eq: "resolveCommonChannels requested ports =
      Min ((if requested = 0 then {} else {requested}) \<union> portLimit ` set ports)" (is "_ = Min ?S")
  proof (cases "requested = 0")
    case True
    obtain p ps where p: "ports = p # ps" using assms by (cases ports) auto
    have "resolveCommonChannels 0 (p # ps) = resolveCommonChannels (portLimit p) ps"
      by (simp add: resolveCommonChannels_def)
    then show ?thesis using True p portLimit_pos [of p] resolve_min [of "portLimit p" ps] by simp
  qed (simp add: resolve_min)
  have "finite ?S" "?S \<noteq> {}" using assms by auto
  then have "Min ?S \<in> ?S" by (rule Min_in)
  moreover have "0 < x" if "x \<in> ?S" for x
    using that portLimit_pos by (auto simp: word_neq_0_conv split: if_splits)
  ultimately show ?thesis using eq by simp
qed

theorem channels_are_least_limit_witness:
  "resolveCommonChannels 16 [\<lparr>cl_cpus = 12, cl_maximum = 63\<rparr>, \<lparr>cl_cpus = 12, cl_maximum = 8\<rparr>] = 8"
  using channels_are_least_limit [of "[\<lparr>cl_cpus = 12, cl_maximum = 63\<rparr>, \<lparr>cl_cpus = 12, cl_maximum = 8\<rparr>]" 16]
  by (simp add: portLimit_def)

section \<open>CPU lists\<close>

text \<open>The end of a range, when the part is one.\<close>

definition rangeEnd :: "string \<Rightarrow> int option" where
  "rangeEnd part = map_option (\<lambda>(lo, hi). fst (atoi hi)) (cutOn (CHR ''-'') (trimSpace part))"

lemma parseUintLoop_nonneg: "0 \<le> n \<Longrightarrow> 0 \<le> mx \<Longrightarrow> 0 \<le> fst (parseUintLoop mx n s)"
  by (induction mx n s rule: parseUintLoop.induct) (auto simp: digitVal_nonneg)

lemma atoi_le: "fst (atoi s) \<le> 2 ^ 63 - 1"
proof -
  have "0 \<le> fst (parseUint 64 t)" for t by (simp add: parseUint_def parseUintLoop_nonneg)
  then have "- fst (parseUint 64 t) \<le> 9223372036854775807" for t by (meson dual_order.trans neg_le_0_iff_le zero_le_numeral)
  then show ?thesis unfolding atoi_def Let_def by auto
qed

lemma cpuPart_None_iff: "cpuPart p = None \<longleftrightarrow> rangeEnd p = Some (2 ^ 63 - 1)"
  using atoi_le
  by (auto simp: cpuPart_def rangeEnd_def cpuRange_def Let_def split: option.splits prod.splits)

lemma cpuParts_None_iff: "cpuParts ps = None \<longleftrightarrow> (\<exists>p \<in> set ps. cpuPart p = None)"
  by (induction ps) (auto split: option.splits)



text \<open>Both bounds of a range parse, as in the lists the kernel prints.\<close>

definition cleanPart :: "string \<Rightarrow> bool" where
  "cleanPart part \<longleftrightarrow>
     (case cutOn (CHR ''-'') (trimSpace part) of
        None \<Rightarrow> True | Some (lo, hi) \<Rightarrow> snd (atoi lo) = None \<and> snd (atoi hi) = None)"

lemma wrapInt_add: "wrapInt (wrapInt x + y) = wrapInt (x + y)"
proof -
  have "(wrapInt x + y + 2 ^ 63) mod 2 ^ 64 = ((x + 2 ^ 63) mod 2 ^ 64 + y) mod 2 ^ 64"
    by (simp add: wrapInt_def algebra_simps)
  also have "\<dots> = (x + 2 ^ 63 + y) mod 2 ^ 64" by (rule mod_add_left_eq)
  also have "x + 2 ^ 63 + y = x + y + 2 ^ 63" by simp
  finally have "(wrapInt x + y + 2 ^ 63) mod 2 ^ 64 = (x + y + 2 ^ 63) mod 2 ^ 64" .
  then show ?thesis by (simp add: wrapInt_def)
qed

lemma wrapInt_idem: "wrapInt (wrapInt x) = wrapInt x"
  using wrapInt_add [of x 0] by simp

lemma wrapInt_add_right: "wrapInt (y + wrapInt x) = wrapInt (y + x)"
  using wrapInt_add [of x y] by (simp add: add.commute)

lemma countPart_length:
  assumes "cleanPart p" "cpuPart p = Some xs"
  shows "wrapInt (countPart p n) = wrapInt (n + int (length xs))"
  using assms
  by (auto simp: countPart_def cpuPart_def cleanPart_def cpuRange_def Let_def wrapInt_add wrapInt_add_right wrapInt_idem
      split: option.splits prod.splits if_splits)

lemma countParts_length:
  "\<forall>p \<in> set ps. cleanPart p \<Longrightarrow> cpuParts ps = Some xs \<Longrightarrow>
   wrapInt (fold countPart ps n) = wrapInt (n + int (length xs))"
proof (induction ps arbitrary: n xs)
  case (Cons p ps)
  then obtain as bs where p: "cpuPart p = Some as" "cpuParts ps = Some bs" "xs = as @ bs"
    by (auto split: option.splits)
  have "wrapInt (fold countPart (p # ps) n) = wrapInt (wrapInt (countPart p n) + int (length bs))"
    using Cons p by (simp add: wrapInt_add)
  then show ?case using countPart_length [of p as n] Cons.prems p by (simp add: wrapInt_add wrapInt_add_right ac_simps)
qed simp

lemma countPart_wrapped: "wrapInt n = n \<Longrightarrow> wrapInt (countPart p n) = countPart p n"
  by (auto simp: countPart_def Let_def wrapInt_idem split: option.splits prod.splits)

lemma countParts_wrapped: "wrapInt n = n \<Longrightarrow> wrapInt (fold countPart ps n) = fold countPart ps n"
  by (induction ps arbitrary: n) (simp_all add: countPart_wrapped)

lemma wrapInt_small: "- (2 ^ 63) \<le> x \<Longrightarrow> x < 2 ^ 63 \<Longrightarrow> wrapInt x = x"
  unfolding wrapInt_def by (subst mod_pos_pos_trivial) auto

text \<open>
  The resource detector counts the CPUs of a list without building it, the tuner builds it: on a list
  whose ranges parse, the count of \<open>countCPUList\<close> is the length of what \<open>parseCPUList\<close> returns.
\<close>

theorem count_is_length_of_list:
  assumes "\<forall>part \<in> set (splitOn (CHR '','') s). cleanPart part"
    and "parseCPUList s = Some cpus" and "length cpus < 2 ^ 63"
  shows "countCPUList s = int (length cpus)"
proof -
  have z: "wrapInt 0 = 0" by (rule wrapInt_small) auto
  have "int (length cpus) < 2 ^ 63" using assms(3) by (metis of_nat_less_iff of_nat_numeral of_nat_power)
  then have "wrapInt (int (length cpus)) = int (length cpus)" by (intro wrapInt_small) auto
  then show ?thesis
    using countParts_length [of "splitOn (CHR '','') s" cpus 0] countParts_wrapped [OF z] assms
    by (simp add: countCPUList_def parseCPUList_def)
qed

theorem count_is_length_of_list_witness: "countCPUList ''0-3,8,10-11'' = 7"
proof -
  have "\<forall>part \<in> set (splitOn (CHR '','') ''0-3,8,10-11''). cleanPart part" by code_simp
  moreover have "parseCPUList ''0-3,8,10-11'' = Some [0, 1, 2, 3, 8, 10, 11]" by code_simp
  ultimately show ?thesis using count_is_length_of_list [of "''0-3,8,10-11''" "[0, 1, 2, 3, 8, 10, 11]"] by simp
qed

end
