(* ===== verification/Tuning_Restore.thy ===== *)
theory Tuning_Restore
  imports Host_Tuning
begin

text \<open>
  The round trip of the host tuner: what Apply records is what Restore writes back. The
  invariant \<open>kept\<close> follows one file through every step of Apply; the sample host at the end
  instantiates the laws.
\<close>

section \<open>Restore undoes Apply\<close>

text \<open>
  What the round trip needs of the host. A write succeeds or not by its path alone (\<open>W\<close>), a
  successful one is read back and no other file changes, a failed one changes nothing;
  commands leave the contents of the \<open>calm\<close> files alone, among them the CPU topology; the snapshot file keeps its bytes
  and JSON decoding returns the entries that were encoded, in any order; \<^verbatim>\<open>filepath.Glob\<close> returns
  distinct paths below \<^verbatim>\<open>/sys/\<close>.
\<close>

definition topo :: "string \<Rightarrow> bool" where
  "topo p \<longleftrightarrow> hasPrefix p ''/sys/'' \<or> p = ''/proc/self/status''"

definition host_laws :: "'e machine \<Rightarrow> (string \<Rightarrow> bool) \<Rightarrow> (string \<Rightarrow> bool) \<Rightarrow> bool" where
  "host_laws m W calm \<longleftrightarrow>
     (\<forall>p v e. fst (m_write m p v e) = W p) \<and>
     (\<forall>p v e q. readFileTrim m (snd (m_write m p v e)) q =
        (if q = p \<and> W p then trimSpace v else readFileTrim m e q)) \<and>
     (\<forall>p v e d. m_readdir m (snd (m_write m p v e)) d = m_readdir m e d) \<and>
     (\<forall>c e p. calm p \<longrightarrow> readFileTrim m (snd (m_run m c e)) p = readFileTrim m e p) \<and>
     (\<forall>p. topo p \<longrightarrow> calm p) \<and>
     (\<forall>e. fst (m_mkdir m SnapshotDir e)) \<and>
     (\<forall>e p. readFileTrim m (snd (m_mkdir m SnapshotDir e)) p = readFileTrim m e p) \<and>
     (\<forall>b e. m_read m (snd (m_write m SnapshotPath b e)) SnapshotPath = Some b) \<and>
     (\<forall>e p. p \<noteq> SnapshotPath \<longrightarrow> readFileTrim m (m_remove m SnapshotPath e) p = readFileTrim m e p) \<and>
     (\<forall>e. distinct (m_glob m e governorGlob) \<and> (\<forall>q \<in> set (m_glob m e governorGlob). hasPrefix q ''/sys/'')) \<and>
     (\<forall>s. \<exists>b s'. m_marshal m s = Some b \<and> m_unmarshal m b = Some s' \<and> set (Sysctls s') = set (Sysctls s) \<and>
        set (IRQAffinity s') = set (IRQAffinity s) \<and> set (Governors s') = set (Governors s))"

text \<open>The files a snapshot records, with the values it records for them.\<close>

definition entries :: "TuneSnapshot \<Rightarrow> (string \<times> string) list" where
  "entries s = map (\<lambda>(k, v). (sysctlPath k, v)) (Sysctls s) @
     map (\<lambda>(k, v). (irqPath k, v)) (IRQAffinity s) @ Governors s"

definition tracked :: "'e tuner \<Rightarrow> string set" where
  "tracked t = fst ` set (entries (t_snap t))"

text \<open>
  The invariant for one file \<open>p\<close> whose original value is \<open>v0\<close>: what is recorded for it is \<open>v0\<close>, and it
  still reads \<open>v0\<close> unless it is recorded and can be written.
\<close>

definition kept :: "'e machine \<Rightarrow> (string \<Rightarrow> bool) \<Rightarrow> string \<Rightarrow> string \<Rightarrow> 'e tuner \<Rightarrow> bool" where
  "kept m W p v0 t \<longleftrightarrow>
     (\<forall>v. (p, v) \<in> set (entries (t_snap t)) \<longrightarrow> v = v0) \<and>
     (p \<in> tracked t \<and> W p \<or> readFileTrim m (t_host t) p = v0)"

definition records :: "'e machine \<Rightarrow> string \<Rightarrow> 'e tuner \<Rightarrow> 'e tuner \<Rightarrow> bool" where
  "records m q t t' \<longleftrightarrow>
     t_snap t' = t_snap t \<and> t_host t' = t_host t \<or>
     set (entries (t_snap t')) = insert (q, readFileTrim m (t_host t) q) (set (entries (t_snap t))) \<and>
     (t_host t' = t_host t \<or> (\<exists>v. t_host t' = snd (m_write m q v (t_host t))))"

definition undisturbed :: "'e machine \<Rightarrow> string \<Rightarrow> 'e tuner \<Rightarrow> 'e tuner \<Rightarrow> bool" where
  "undisturbed m p t t' \<longleftrightarrow>
     entries (t_snap t') = entries (t_snap t) \<and>
     readFileTrim m (t_host t') p = readFileTrim m (t_host t) p"

lemma host_lawsD:
  assumes "host_laws m W calm"
  shows "fst (m_write m p v e) = W p"
    and "readFileTrim m (snd (m_write m p v e)) q = (if q = p \<and> W p then trimSpace v else readFileTrim m e q)"
    and "m_readdir m (snd (m_write m p v e)) d = m_readdir m e d"
    and "calm p \<Longrightarrow> readFileTrim m (snd (m_run m c e)) p = readFileTrim m e p"
    and "topo p \<Longrightarrow> calm p"
    and "fst (m_mkdir m SnapshotDir e)"
    and "readFileTrim m (snd (m_mkdir m SnapshotDir e)) p = readFileTrim m e p"
    and "m_read m (snd (m_write m SnapshotPath b e)) SnapshotPath = Some b"
    and "p \<noteq> SnapshotPath \<Longrightarrow> readFileTrim m (m_remove m SnapshotPath e) p = readFileTrim m e p"
    and "distinct (m_glob m e governorGlob)"
    and "x \<in> set (m_glob m e governorGlob) \<Longrightarrow> hasPrefix x ''/sys/''"
    and "\<exists>b s'. m_marshal m s = Some b \<and> m_unmarshal m b = Some s' \<and> set (Sysctls s') = set (Sysctls s) \<and>
        set (IRQAffinity s') = set (IRQAffinity s) \<and> set (Governors s') = set (Governors s)"
  using assms by (simp_all add: host_laws_def)

lemma kept_records:
  assumes "host_laws m W calm" "records m q t t'" "q \<notin> tracked t" "kept m W p v0 t"
  shows "kept m W p v0 t' \<and> tracked t' \<subseteq> insert q (tracked t)"
proof (cases "t_snap t' = t_snap t \<and> t_host t' = t_host t")
  case False
  then have s: "set (entries (t_snap t')) = insert (q, readFileTrim m (t_host t) q) (set (entries (t_snap t)))"
    and h: "t_host t' = t_host t \<or> (\<exists>v. t_host t' = snd (m_write m q v (t_host t)))"
    using assms(2) by (auto simp: records_def)
  have tr: "tracked t' = insert q (tracked t)" by (simp add: tracked_def s)
  have "(p, v) \<notin> set (entries (t_snap t))" if "q = p" for v
    using assms(3) that by (force simp: tracked_def)
  moreover have "readFileTrim m (t_host t') p = readFileTrim m (t_host t) p" if "\<not> (q = p \<and> W p)"
    using h that host_lawsD(2) [OF assms(1)] by auto
  ultimately show ?thesis using assms(3,4) s tr by (auto simp: kept_def)
qed (use assms(4) in \<open>auto simp: kept_def tracked_def\<close>)

lemma kept_undisturbed: "undisturbed m p t t' \<Longrightarrow> kept m W p v0 t \<Longrightarrow> kept m W p v0 t' \<and> tracked t' = tracked t"
  by (auto simp: undisturbed_def kept_def tracked_def)

lemma undisturbed_trans: "undisturbed m p a b \<Longrightarrow> undisturbed m p b c \<Longrightarrow> undisturbed m p a c"
  by (simp add: undisturbed_def)

lemma undisturbed_refl [simp]: "undisturbed m p t t"
  by (simp add: undisturbed_def)

lemma undisturbed_fold: "(\<And>x t. undisturbed m p t (f x t)) \<Longrightarrow> undisturbed m p t (fold f xs t)"
  by (induction xs arbitrary: t) (auto intro: undisturbed_trans)

text \<open>A loop that records each of a list of distinct, so far unrecorded files.\<close>

lemma kept_fold:
  assumes laws: "host_laws m W calm" and rec: "\<And>x t. path x \<notin> tracked t \<Longrightarrow> records m (path x) t (f x t)"
  shows "distinct (map path xs) \<Longrightarrow> path ` set xs \<inter> tracked t = {} \<Longrightarrow> kept m W p v0 t \<Longrightarrow>
         kept m W p v0 (fold f xs t) \<and> tracked (fold f xs t) \<subseteq> path ` set xs \<union> tracked t"
proof (induction xs arbitrary: t)
  case (Cons x xs)
  then have x: "path x \<notin> tracked t" by auto
  have k: "kept m W p v0 (f x t) \<and> tracked (f x t) \<subseteq> insert (path x) (tracked t)"
    using kept_records [OF laws rec [OF x] x] Cons.prems by simp
  have "path ` set xs \<inter> tracked (f x t) = {}"
  proof (rule equals0I)
    fix q assume "q \<in> path ` set xs \<inter> tracked (f x t)"
    then have "q = path x \<or> q \<in> tracked t" "q \<in> path ` set xs" using k by blast+
    moreover have "path x \<notin> path ` set xs" "path ` set xs \<inter> tracked t = {}" using Cons.prems(1,2) by auto
    ultimately show False by blast
  qed
  then show ?case using Cons.IH [of "f x t"] Cons.prems k by auto
qed simp

lemma set_kset_fresh: "k \<notin> fst ` set m \<Longrightarrow> set (kset k v m) = insert (k, v) (set m)"
  by (induction m) (auto simp: kset_def)

subsection \<open>The steps of Apply\<close>

lemma applySysctl_records: "sysctlPath (fst kv) \<notin> tracked t \<Longrightarrow> records m (sysctlPath (fst kv)) t (applySysctl m dry kv t)"
proof -
  assume fresh: "sysctlPath (fst kv) \<notin> tracked t"
  then have "fst kv \<notin> fst ` set (Sysctls (t_snap t))" by (force simp: tracked_def entries_def)
  then show ?thesis
    by (auto simp: applySysctl_def records_def readSysctl_def writeSysctl_def Let_def entries_def set_kset_fresh
        split: prod.splits) (metis snd_conv)+
qed

lemma irqPath_inj: "irqPath a = irqPath b \<longleftrightarrow> a = b"
  by (simp add: irqPath_def)

lemma pinIRQ_records:
  assumes "irqPath (itoa (snd ii)) \<notin> tracked t"
  shows "records m (irqPath (itoa (snd ii))) t (pinIRQ m dry ifc cores ii t)"
proof -
  have "itoa (snd ii) \<notin> fst ` set (IRQAffinity (t_snap t))" using assms by (force simp: tracked_def entries_def)
  then show ?thesis
    by (auto simp: pinIRQ_def records_def putFile_def Let_def entries_def set_kset_fresh)
qed

lemma setGovernor_records:
  assumes "q \<notin> tracked t"
  shows "records m q t (setGovernor m dry want q t)"
proof -
  have "q \<notin> fst ` set (Governors (t_snap t))" using assms by (force simp: tracked_def entries_def)
  then show ?thesis
    by (auto simp: setGovernor_def records_def putFile_def Let_def entries_def set_kset_fresh)
qed

lemma undisturbed_steps:
  assumes "host_laws m W calm" "calm p"
  shows "undisturbed m p t (runStep m desc cmd t)" "undisturbed m p t (logf ev t)"
    "undisturbed m p t (tuneStep m dry ev desc cmd t)"
  using host_lawsD(4) [OF assms(1) assms(2)]
  by (auto simp: undisturbed_def runStep_def tuneStep_def Let_def split: prod.splits) (metis snd_conv)+

lemma undisturbed_snap: "entries s = entries (t_snap t) \<Longrightarrow> undisturbed m p t (t\<lparr>t_snap := s\<rparr>)"
  by (simp add: undisturbed_def)

lemma entries_other [simp]:
  "entries (snapFeature ifc f v s) = entries s" "entries (snapPriv ifc f v s) = entries s"
  "entries (s\<lparr>Rings := r\<rparr>) = entries s" "entries (s\<lparr>Chans := c\<rparr>) = entries s"
  "entries (s\<lparr>IrqbalanceWasActive := b\<rparr>) = entries s"
  by (simp_all add: entries_def snapFeature_def snapPriv_def)

lemma applyEthtool_undisturbed:
  assumes "host_laws m W calm" "calm p"
  shows "undisturbed m p t (applyEthtool m cfg dry ch ifc t)"
proof -
  note st = undisturbed_steps [OF assms] and tr = undisturbed_trans [OF undisturbed_snap]
  have "undisturbed m p t (fold (applyFeature m dry ifc) fs t)" for fs t
    by (rule undisturbed_fold) (simp add: applyFeature_def Let_def tr [OF _ st(3)])
  moreover have "undisturbed m p t (applyRings m cfg dry ifc t)" for t
    by (auto simp: applyRings_def Let_def undisturbed_snap intro!: tr [OF _ st(3)] split: option.splits)
  moreover have "undisturbed m p t (applyChannels m dry ifc ch t)" for t
    by (auto simp: applyChannels_def Let_def undisturbed_snap intro!: tr [OF _ st(3)] split: option.splits)
  moreover have "undisturbed m p t (applyPrivFlag m cfg dry ifc t)" for t
    by (auto simp: applyPrivFlag_def Let_def undisturbed_snap intro!: tr [OF _ st(3)])
  moreover have "undisturbed m p t (applyRSS m cfg dry ifc t)" for t
  proof -
    have r: "undisturbed m p t (logf (LogRSS ifc) t\<lparr>t_host := snd (m_run m c (t_host t))\<rparr>)" for c
      using host_lawsD(4) [OF assms] by (simp add: undisturbed_def)
    then show ?thesis
      using undisturbed_trans [OF r st(1)] st(2) by (simp add: applyRSS_def Let_def case_prod_beta)
  qed
  ultimately show ?thesis unfolding applyEthtool_def Let_def by (meson undisturbed_trans)
qed

lemma desired_distinct: "distinct (map (\<lambda>kv. sysctlPath (fst kv)) (desiredSysctls tn))"
  by (simp add: desiredSysctls_def sysctlPath_def)

lemma applySysctls_kept:
  assumes laws: "host_laws m W calm" and p: "p \<noteq> persistPath"
  shows "kept m W p (readFileTrim m e p) (applySysctls m cfg dry (newTuner e)) \<and>
         tracked (applySysctls m cfg dry (newTuner e)) \<subseteq> range sysctlPath"
proof -
  let ?v0 = "readFileTrim m e p"
  let ?t = "fold (applySysctl m dry) (desiredSysctls (Tuning_Cfg cfg)) (newTuner e)"
  have "kept m W p ?v0 (newTuner e)" "tracked (newTuner e) = {}"
    by (simp_all add: kept_def newTuner_def emptySnapshot_def entries_def tracked_def)
  then have "kept m W p ?v0 ?t \<and> tracked ?t \<subseteq> (\<lambda>kv. sysctlPath (fst kv)) ` set (desiredSysctls (Tuning_Cfg cfg)) \<union> {}"
    using kept_fold [OF laws, where f = "applySysctl m dry" and path = "\<lambda>kv. sysctlPath (fst kv)" and t = "newTuner e"
        and p = p and ?v0.0 = ?v0 and xs = "desiredSysctls (Tuning_Cfg cfg)", OF applySysctl_records desired_distinct]
    by simp
  then have k: "kept m W p ?v0 ?t" "tracked ?t \<subseteq> range sysctlPath" by blast+
  have u: "undisturbed m p ?t (?t\<lparr>t_host := snd (writeSysctlPersist m d (t_host ?t))\<rparr>)" for d
    using p by (simp add: undisturbed_def writeSysctlPersist_def host_lawsD(2) [OF laws])
  show ?thesis
  proof (cases dry)
    case True
    then show ?thesis using k by (simp only: applySysctls_def Let_def if_True simp_thms)
  next
    case False
    then show ?thesis using kept_undisturbed [OF u k(1)] k(2)
      by (simp only: applySysctls_def Let_def if_False simp_thms)
  qed
qed

lemma paths_apart: "sysctlPath k \<noteq> irqPath i" "hasPrefix q ''/sys/'' \<Longrightarrow> q \<noteq> sysctlPath k"
  "hasPrefix q ''/sys/'' \<Longrightarrow> q \<noteq> irqPath i"
  by (auto simp: sysctlPath_def irqPath_def hasPrefix_def)

lemma fresh_irqs: "T \<subseteq> range sysctlPath \<Longrightarrow> (\<lambda>i. irqPath (itoa i)) ` A \<inter> T = {}"
proof (rule equals0I)
  fix q assume "T \<subseteq> range sysctlPath" "q \<in> (\<lambda>i. irqPath (itoa i)) ` A \<inter> T"
  then obtain i k where "q = irqPath i" "q = sysctlPath k" by blast
  then show False using paths_apart(1) by metis
qed

lemma pinAll_readdir:
  assumes "host_laws m W calm"
  shows "m_readdir m (t_host (fold (pinIRQ m dry ifc cores) xs t)) d = m_readdir m (t_host t) d"
  by (induction xs arbitrary: t) (auto simp: pinIRQ_def putFile_def Let_def host_lawsD(3) [OF assms])

text \<open>The invariant for every file that commands leave alone, the persisted sysctl file apart.\<close>

definition keeps :: "'e machine \<Rightarrow> (string \<Rightarrow> bool) \<Rightarrow> (string \<Rightarrow> bool) \<Rightarrow> 'e \<Rightarrow> 'e tuner \<Rightarrow> bool" where
  "keeps m W calm e t \<longleftrightarrow> (\<forall>q. calm q \<and> q \<noteq> persistPath \<longrightarrow> kept m W q (readFileTrim m e q) t)"

lemma keeps_undisturbed:
  assumes "\<And>q. calm q \<Longrightarrow> undisturbed m q t t'" "keeps m W calm e t"
  shows "keeps m W calm e t'"
  using assms kept_undisturbed unfolding keeps_def by blast

lemma applyIRQAffinity_kept:
  assumes laws: "host_laws m W calm" and cores: "numaCores m cfg (t_host t) ifc \<noteq> None"
    and d: "distinct (ifaceIRQs m (t_host t) ifc)"
    and fresh: "(\<lambda>i. irqPath (itoa i)) ` set (ifaceIRQs m (t_host t) ifc) \<inter> tracked t = {}"
    and k: "keeps m W calm e t"
  obtains t' where "applyIRQAffinity m cfg dry ifc t = Some t'" "keeps m W calm e t'"
    "tracked t' \<subseteq> (\<lambda>i. irqPath (itoa i)) ` set (ifaceIRQs m (t_host t) ifc) \<union> tracked t"
    "\<And>d. m_readdir m (t_host t') d = m_readdir m (t_host t) d"
proof -
  obtain cs where cs: "numaCores m cfg (t_host t) ifc = Some cs" using cores by blast
  let ?irqs = "ifaceIRQs m (t_host t) ifc" and ?path = "\<lambda>i. irqPath (itoa i)"
  let ?t' = "fold (pinIRQ m dry ifc cs) (enumerate 0 ?irqs) t"
  have im: "map (\<lambda>ii. ?path (snd ii)) (enumerate 0 ?irqs) = map ?path ?irqs"
    by (metis (mono_tags, lifting) map_map map_snd_enumerate comp_apply map_eq_conv)
  have "distinct (map ?path ?irqs)" using d by (simp add: distinct_map inj_on_def irqPath_inj)
  moreover have img: "(\<lambda>ii. ?path (snd ii)) ` set (enumerate 0 ?irqs) = ?path ` set ?irqs"
    by (metis im list.set_map)
  ultimately have f: "kept m W q v0 ?t' \<and> tracked ?t' \<subseteq> ?path ` set ?irqs \<union> tracked t" if "kept m W q v0 t" for q v0
    using kept_fold [OF laws, where path = "\<lambda>ii. ?path (snd ii)" and f = "pinIRQ m dry ifc cs"
        and xs = "enumerate 0 ?irqs" and t = t and p = q and ?v0.0 = v0, OF pinIRQ_records] im fresh that by simp
  show thesis
  proof (cases "?irqs = [] \<or> cs = []")
    case True
    then show thesis using that [of t] cs k by (auto simp: applyIRQAffinity_def)
  next
    case False
    have "kept m W onlinePath (readFileTrim m e onlinePath) t"
      using k host_lawsD(5) [OF laws, of onlinePath]
      by (simp add: keeps_def topo_def onlinePath_def persistPath_def hasPrefix_def)
    then have "tracked ?t' \<subseteq> ?path ` set ?irqs \<union> tracked t" using f by blast
    moreover have "keeps m W calm e ?t'" using f k unfolding keeps_def by blast
    ultimately show thesis using that [of ?t'] cs False pinAll_readdir [OF laws] by (auto simp: applyIRQAffinity_def)
  qed
qed

lemma ifaceIRQs_cong: "(\<And>d. m_readdir m e' d = m_readdir m e d) \<Longrightarrow> ifaceIRQs m e' ifc = ifaceIRQs m e ifc"
  by (simp add: ifaceIRQs_def)

lemma topo_apart: "topo q \<Longrightarrow> q \<notin> range irqPath \<union> range sysctlPath"
  by (auto simp: topo_def sysctlPath_def irqPath_def hasPrefix_def)

lemma topo_cores:
  assumes laws: "host_laws m W calm" and k: "keeps m W calm e t"
    and tr: "tracked t \<subseteq> range irqPath \<union> range sysctlPath"
  shows "numaCores m cfg (t_host t) ifc = numaCores m cfg e ifc"
proof -
  have "readFileTrim m (t_host t) q = readFileTrim m e q" if "topo q" for q
  proof -
    have "q \<noteq> persistPath" using that by (auto simp: topo_def persistPath_def hasPrefix_def)
    then have "kept m W q (readFileTrim m e q) t" using k host_lawsD(5) [OF laws that] by (simp add: keeps_def)
    then show ?thesis using topo_apart [OF that] tr by (auto simp: kept_def)
  qed
  moreover have "topo onlinePath" "topo ''/proc/self/status''" "topo (''/sys/class/net/'' @ a)"
    "topo (''/sys/devices/system/node/node'' @ a)" for a by (simp_all add: topo_def onlinePath_def hasPrefix_def)
  ultimately have "readFileTrim m (t_host t) onlinePath = readFileTrim m e onlinePath"
    "readFileTrim m (t_host t) ''/proc/self/status'' = readFileTrim m e ''/proc/self/status''"
    "readFileTrim m (t_host t) (''/sys/class/net/'' @ a) = readFileTrim m e (''/sys/class/net/'' @ a)"
    "readFileTrim m (t_host t) (''/sys/devices/system/node/node'' @ a) = readFileTrim m e (''/sys/devices/system/node/node'' @ a)"
    for a by blast+
  then show ?thesis
    by (simp only: numaCores_def nodeCPUs_def processAllowedCPUs_def Let_def)
qed

lemma applyIRQBalance_undisturbed:
  assumes "host_laws m W calm" "calm p"
  shows "undisturbed m p t (applyIRQBalance m dry t)"
proof -
  have "undisturbed m p t (t\<lparr>t_host := snd (m_run m c (t_host t)), t_snap := (t_snap t)\<lparr>IrqbalanceWasActive := a\<rparr>\<rparr>)"
    for c a using host_lawsD(4) [OF assms] by (simp add: undisturbed_def)
  then show ?thesis
    using undisturbed_trans [OF _ undisturbed_steps(3) [OF assms]]
    unfolding applyIRQBalance_def Let_def by (auto split: prod.splits) (metis snd_conv)+
qed

lemma applyIRQs_stages:
  assumes on: "ptrOrTrue (DisableIRQBal (Tuning_Cfg cfg))" and laws: "host_laws m W calm"
    and cores: "numaCores m cfg e (TrustedIface cfg) \<noteq> None" "numaCores m cfg e (UntrustedIface cfg) \<noteq> None"
    and d: "\<And>e. distinct (ifaceIRQs m e (TrustedIface cfg) @ ifaceIRQs m e (UntrustedIface cfg))"
    and tr: "tracked t \<subseteq> range sysctlPath" and k: "keeps m W calm e t"
  obtains t1 t2 t3 where "applyIRQs m cfg dry t = Some t3"
    "applyIRQAffinity m cfg dry (TrustedIface cfg) t1 = Some t2"
    "applyIRQAffinity m cfg dry (UntrustedIface cfg) t2 = Some t3"
    "keeps m W calm e t1" "keeps m W calm e t2" "keeps m W calm e t3"
    "tracked t1 \<subseteq> range sysctlPath" "tracked t2 \<subseteq> range irqPath \<union> range sysctlPath"
    "tracked t3 \<subseteq> range irqPath \<union> range sysctlPath"
    "\<And>d. m_readdir m (t_host t2) d = m_readdir m (t_host t1) d"
    "\<And>d. m_readdir m (t_host t3) d = m_readdir m (t_host t1) d"
proof -
  define t1 where "t1 = applyIRQBalance m dry t"
  let ?A = "ifaceIRQs m (t_host t1) (TrustedIface cfg)" and ?B = "ifaceIRQs m (t_host t1) (UntrustedIface cfg)"
    and ?path = "\<lambda>i. irqPath (itoa i)"
  have k1: "keeps m W calm e t1"
    using applyIRQBalance_undisturbed [OF laws] k unfolding t1_def by (rule keeps_undisturbed)
  have tr1: "tracked t1 \<subseteq> range sysctlPath"
    using applyIRQBalance_undisturbed [OF laws host_lawsD(5) [OF laws], of onlinePath t dry] tr
    by (simp add: t1_def undisturbed_def tracked_def topo_def onlinePath_def hasPrefix_def)
  have ab: "distinct ?A" "distinct ?B" "set ?A \<inter> set ?B = {}" using d [of "t_host t1"] by simp_all
  have fA: "?path ` set ?A \<inter> tracked t1 = {}" by (rule fresh_irqs [OF tr1])
  have cA: "numaCores m cfg (t_host t1) (TrustedIface cfg) \<noteq> None"
    using topo_cores [OF laws k1] tr1 cores(1) by fastforce
  obtain t2 where t2: "applyIRQAffinity m cfg dry (TrustedIface cfg) t1 = Some t2" "keeps m W calm e t2"
    "tracked t2 \<subseteq> ?path ` set ?A \<union> tracked t1" "\<And>d. m_readdir m (t_host t2) d = m_readdir m (t_host t1) d"
    using applyIRQAffinity_kept [OF laws cA ab(1) fA k1, of dry] by blast
  have B: "ifaceIRQs m (t_host t2) (UntrustedIface cfg) = ?B" by (rule ifaceIRQs_cong) (rule t2(4))
  have "?path ` set ?B \<inter> tracked t2 = {}"
  proof (rule equals0I)
    fix q assume "q \<in> ?path ` set ?B \<inter> tracked t2"
    then obtain i where i: "i \<in> set ?B" "q = ?path i" "q \<in> tracked t2" by blast
    then have "q \<notin> tracked t1" using fresh_irqs [OF tr1, of "{i}"] by blast
    then obtain j where "j \<in> set ?A" "?path j = q" using t2(3) i(3) by blast
    then show False using i ab(3) by (auto simp: irqPath_inj)
  qed
  then have fB: "?path ` set (ifaceIRQs m (t_host t2) (UntrustedIface cfg)) \<inter> tracked t2 = {}"
    "distinct (ifaceIRQs m (t_host t2) (UntrustedIface cfg))" using ab(2) by (simp_all add: B)
  have tr2: "tracked t2 \<subseteq> range irqPath \<union> range sysctlPath" using t2(3) tr1 by blast
  have cB: "numaCores m cfg (t_host t2) (UntrustedIface cfg) \<noteq> None"
    using topo_cores [OF laws t2(2) tr2] cores(2) by simp
  obtain t3 where t3: "applyIRQAffinity m cfg dry (UntrustedIface cfg) t2 = Some t3" "keeps m W calm e t3"
    "tracked t3 \<subseteq> ?path ` set ?B \<union> tracked t2" "\<And>d. m_readdir m (t_host t3) d = m_readdir m (t_host t2) d"
    using applyIRQAffinity_kept [OF laws cB fB(2,1) t2(2), of dry] unfolding B by blast
  show ?thesis
  proof (rule that [OF _ t2(1) t3(1) k1 t2(2) t3(2) tr1 tr2])
    show "applyIRQs m cfg dry t = Some t3" using t2(1) t3(1) on by (simp add: applyIRQs_def t1_def)
    show "tracked t3 \<subseteq> range irqPath \<union> range sysctlPath" using t3(3) tr2 by blast
  qed (simp_all add: t2(4) t3(4))
qed

lemma applyIRQs_kept:
  assumes laws: "host_laws m W calm"
    and cores: "numaCores m cfg e (TrustedIface cfg) \<noteq> None" "numaCores m cfg e (UntrustedIface cfg) \<noteq> None"
    and d: "\<And>e. distinct (ifaceIRQs m e (TrustedIface cfg) @ ifaceIRQs m e (UntrustedIface cfg))"
    and tr: "tracked t \<subseteq> range sysctlPath" and k: "keeps m W calm e t"
  obtains t' where "applyIRQs m cfg dry t = Some t'" "keeps m W calm e t'"
    "tracked t' \<subseteq> range irqPath \<union> range sysctlPath"
proof (cases "ptrOrTrue (DisableIRQBal (Tuning_Cfg cfg))")
  case True
  show ?thesis by (rule applyIRQs_stages [OF True laws cores d tr k, of dry]) (rule that)
qed (use that [of t] k tr in \<open>auto simp: applyIRQs_def\<close>)

lemma applyGovernor_kept:
  assumes laws: "host_laws m W calm" and tr: "tracked t \<subseteq> range irqPath \<union> range sysctlPath" and k: "kept m W p v0 t"
  shows "kept m W p v0 (applyGovernor m cfg dry t)"
proof -
  let ?g = "m_glob m (t_host t) governorGlob"
  have "set ?g \<inter> tracked t = {}"
  proof (rule equals0I)
    fix q assume "q \<in> set ?g \<inter> tracked t"
    then have "hasPrefix q ''/sys/''" "q \<in> range irqPath \<union> range sysctlPath"
      using tr host_lawsD(11) [OF laws] by blast+
    then show False using paths_apart(2,3) by blast
  qed
  then have "kept m W p v0 (fold (setGovernor m dry (wantedGovernor cfg)) ?g t)"
    using kept_fold [OF laws, where path = "\<lambda>q. q" and f = "setGovernor m dry (wantedGovernor cfg)" and xs = ?g and t = t
        and p = p and ?v0.0 = v0, OF setGovernor_records] host_lawsD(10) [OF laws] k by simp
  then show ?thesis using kept_undisturbed [of m p _ "logf _ _"] by (auto simp: applyGovernor_def Let_def undisturbed_def)
qed

subsection \<open>Writing everything back\<close>

lemma writeAll_reads:
  assumes laws: "host_laws m W calm" and v0: "trimSpace v0 = v0"
  shows "(\<forall>v. (p, v) \<in> set L \<longrightarrow> v = v0) \<Longrightarrow>
         readFileTrim m (fold (\<lambda>(q, v). putFile m q v) L e) p =
           (if W p \<and> p \<in> fst ` set L then v0 else readFileTrim m e p)"
proof (induction L arbitrary: e)
  case (Cons x L)
  then show ?case
    using host_lawsD(2) [OF laws] v0 by (cases x) (auto simp: putFile_def)
qed simp

lemma writeAll_sysctls:
  "fold (\<lambda>(k, v) e. snd (writeSysctl m k v e)) xs e = fold (\<lambda>(q, v). putFile m q v) (map (\<lambda>(k, v). (sysctlPath k, v)) xs) e"
  by (induction xs arbitrary: e) (auto simp: writeSysctl_def putFile_def)

lemma writeAll_irqs:
  "fold (\<lambda>(k, v). putFile m (irqPath k) v) xs e = fold (\<lambda>(q, v). putFile m q v) (map (\<lambda>(k, v). (irqPath k, v)) xs) e"
  by (induction xs arbitrary: e) auto

lemma reads_fold: "(\<And>x e. readFileTrim m (f x e) p = readFileTrim m e p) \<Longrightarrow> readFileTrim m (fold f xs e) p = readFileTrim m e p"
  by (induction xs arbitrary: e) auto

lemma restore_commands:
  assumes "host_laws m W calm" "calm p"
  shows "readFileTrim m (runQuiet m c e) p = readFileTrim m e p"
    and "readFileTrim m (restoreFlags m opt fs e) p = readFileTrim m e p"
    and "readFileTrim m (fold (\<lambda>(ifc, rx, tx). runQuiet m (a ifc rx tx)) rs e) p = readFileTrim m e p"
    and "readFileTrim m (fold (\<lambda>(ifc, c). runQuiet m (b ifc c)) cs e) p = readFileTrim m e p"
proof -
  show r: "readFileTrim m (runQuiet m c e) p = readFileTrim m e p" for c e
    by (simp add: runQuiet_def host_lawsD(4) [OF assms])
  show "readFileTrim m (restoreFlags m opt fs e) p = readFileTrim m e p"
    unfolding restoreFlags_def by (rule reads_fold) (auto intro!: reads_fold simp: r split: prod.splits)
  show "readFileTrim m (fold (\<lambda>(ifc, rx, tx). runQuiet m (a ifc rx tx)) rs e) p = readFileTrim m e p"
    "readFileTrim m (fold (\<lambda>(ifc, c). runQuiet m (b ifc c)) cs e) p = readFileTrim m e p"
    by (rule reads_fold, auto simp: r split: prod.splits)+
qed

lemma Restore_reads:
  assumes laws: "host_laws m W calm" and p: "calm p" "p \<noteq> SnapshotPath"
    and s: "m_read m e SnapshotPath = Some b" "m_unmarshal m b = Some s"
    and v0: "trimSpace v0 = v0" "\<forall>v. (p, v) \<in> set (entries s) \<longrightarrow> v = v0"
  shows "fst (TunerRestore m e) = None \<and>
         readFileTrim m (snd (TunerRestore m e)) p =
           (if W p \<and> p \<in> fst ` set (entries s) then v0 else readFileTrim m e p)"
proof -
  note w = writeAll_reads [OF laws v0(1)]
  have "\<forall>v. (p, v) \<in> set (map (\<lambda>(k, v). (sysctlPath k, v)) (Sysctls s)) \<longrightarrow> v = v0"
    "\<forall>v. (p, v) \<in> set (map (\<lambda>(k, v). (irqPath k, v)) (IRQAffinity s)) \<longrightarrow> v = v0"
    "\<forall>v. (p, v) \<in> set (Governors s) \<longrightarrow> v = v0"
    using v0(2) by (simp_all add: entries_def del: set_map)
  note ws = w [OF this(1)] w [OF this(2)] w [OF this(3)]
  have e8: "readFileTrim m (if a then runQuiet m c e else e) p = readFileTrim m e p" for a c e
    by (simp add: restore_commands [OF laws p(1)])
  have "fst ` set (entries s) = fst ` set (map (\<lambda>(k, v). (sysctlPath k, v)) (Sysctls s)) \<union>
      fst ` set (map (\<lambda>(k, v). (irqPath k, v)) (IRQAffinity s)) \<union> fst ` set (Governors s)"
    by (auto simp: entries_def)
  then show ?thesis
    unfolding TunerRestore_def Let_def s option.case writeAll_sysctls writeAll_irqs
    by (simp add: host_lawsD(9) [OF laws p(2)] e8 ws restore_commands [OF laws p(1)] del: set_map) blast
qed

lemma commonChannels_returns:
  assumes "numaCores m cfg (t_host t) a \<noteq> None" "numaCores m cfg (t_host t) b \<noteq> None"
  obtains ch t' where "commonChannels m cfg [a, b] t = Some (ch, t')" "t_host t' = t_host t" "t_snap t' = t_snap t"
proof -
  obtain la lb where "limitOf m cfg (t_host t) a = Some la" "limitOf m cfg (t_host t) b = Some lb"
    using assms by (auto simp: limitOf_def)
  then have "commonChannels m cfg [a, b] t \<noteq> None" by (simp add: commonChannels_def)
  then obtain ch t' where "commonChannels m cfg [a, b] t = Some (ch, t')" by auto
  then show thesis using that commonChannels_host by metis
qed

text \<open>Apply, up to saving the snapshot.\<close>

lemma Apply_keeps:
  assumes laws: "host_laws m W calm" and tune: "Tune cfg"
    and cores: "numaCores m cfg e (TrustedIface cfg) \<noteq> None" "numaCores m cfg e (UntrustedIface cfg) \<noteq> None"
    and d: "\<And>e. distinct (ifaceIRQs m e (TrustedIface cfg) @ ifaceIRQs m e (UntrustedIface cfg))"
  obtains t4 t5 where "applyIRQs m cfg dry t4 = Some t5" "keeps m W calm e t4" "tracked t4 \<subseteq> range sysctlPath"
    "TunerApply m cfg dry (newTuner e) = Some (finishApply m dry (applyGovernor m cfg dry t5))"
    "keeps m W calm e (applyGovernor m cfg dry t5)"
proof -
  let ?ifs = "[TrustedIface cfg, UntrustedIface cfg]"
  define t0 where "t0 = applySysctls m cfg dry (newTuner e)"
  have k0: "keeps m W calm e t0" "tracked t0 \<subseteq> range sysctlPath"
    using applySysctls_kept [OF laws, of _ e cfg dry] unfolding keeps_def t0_def by (auto simp: persistPath_def)
  have n: "numaCores m cfg (t_host t0) ifc = numaCores m cfg e ifc" for ifc
    using topo_cores [OF laws k0(1)] k0(2) by fastforce
  obtain ch t1 where c: "commonChannels m cfg ?ifs t0 = Some (ch, t1)" "t_host t1 = t_host t0" "t_snap t1 = t_snap t0"
    using commonChannels_returns [of m cfg t0 "TrustedIface cfg" "UntrustedIface cfg"] cores n by metis
  let ?t2 = "logf (LogChannels ch) t1"
  let ?t3 = "if RingSize (Tuning_Cfg cfg) = 0 then logf LogRingsKept ?t2 else ?t2"
  define t4 where "t4 = fold (applyEthtool m cfg dry ch) ?ifs ?t3"
  have u: "undisturbed m q t0 t4" if "calm q" for q
  proof (rule undisturbed_trans)
    show "undisturbed m q t0 ?t3" using c by (simp add: undisturbed_def)
    show "undisturbed m q ?t3 t4"
      unfolding t4_def by (rule undisturbed_fold) (rule applyEthtool_undisturbed [OF laws that])
  qed
  have k4: "keeps m W calm e t4" using u k0(1) by (rule keeps_undisturbed)
  have tr4: "tracked t4 \<subseteq> range sysctlPath"
    using u [OF host_lawsD(5) [OF laws], of onlinePath] k0(2)
    by (simp add: undisturbed_def tracked_def topo_def onlinePath_def hasPrefix_def)
  obtain t5 where t5: "applyIRQs m cfg dry t4 = Some t5" "keeps m W calm e t5"
    "tracked t5 \<subseteq> range irqPath \<union> range sysctlPath"
    using applyIRQs_kept [OF laws cores d tr4 k4, of dry] by blast
  show thesis
  proof (rule that [OF t5(1) k4 tr4])
    show "keeps m W calm e (applyGovernor m cfg dry t5)"
      using applyGovernor_kept [OF laws t5(3)] t5(2) unfolding keeps_def by blast
    show "TunerApply m cfg dry (newTuner e) = Some (finishApply m dry (applyGovernor m cfg dry t5))"
      using tune c(1) t5(1) unfolding TunerApply_def Let_def t0_def t4_def by simp
  qed
qed

lemma finishApply_saves:
  assumes laws: "host_laws m W calm" and b: "m_marshal m (t_snap t) = Some b"
  obtains e1 where "t_host (finishApply m False t) = snd (m_write m SnapshotPath b e1)"
    "\<And>q. readFileTrim m e1 q = readFileTrim m (t_host t) q"
proof -
  obtain e1 where e1: "m_mkdir m SnapshotDir (t_host t) = (True, e1)"
    using host_lawsD(6) [OF laws, of "t_host t"] by (metis prod.collapse)
  then have "t_host (finishApply m False t) = snd (m_write m SnapshotPath b e1)"
    using b by (auto simp: finishApply_def saveSnapshot_def Let_def split: prod.splits)
  moreover have "readFileTrim m e1 q = readFileTrim m (t_host t) q" for q
    using host_lawsD(7) [OF laws, of "t_host t"] e1 by simp
  ultimately show thesis using that by blast
qed


section \<open>The interrupts of the two ports\<close>

lemma pinAll_reads:
  assumes laws: "host_laws m W calm" and W: "\<And>i. W (irqPath (itoa i))"
  shows "distinct (map snd xs) \<Longrightarrow> (i, irq) \<in> set xs \<Longrightarrow>
    readFileTrim m (t_host (fold (pinIRQ m False ifc cores) xs t)) (irqPath (itoa irq)) = itoa (cores ! (i mod length cores))"
    and "irq \<notin> snd ` set xs \<Longrightarrow>
    readFileTrim m (t_host (fold (pinIRQ m False ifc cores) xs t)) (irqPath (itoa irq)) = readFileTrim m (t_host t) (irqPath (itoa irq))"
proof -
  have one: "readFileTrim m (t_host (pinIRQ m False ifc cores x t)) (irqPath (itoa irq)) =
      (if snd x = irq then itoa (cores ! (fst x mod length cores)) else readFileTrim m (t_host t) (irqPath (itoa irq)))" for x t irq
    using W by (auto simp: pinIRQ_def putFile_def Let_def host_lawsD(2) [OF laws] irqPath_inj)
  show other: "irq \<notin> snd ` set xs \<Longrightarrow>
    readFileTrim m (t_host (fold (pinIRQ m False ifc cores) xs t)) (irqPath (itoa irq)) = readFileTrim m (t_host t) (irqPath (itoa irq))"
    for xs irq t by (induction xs arbitrary: t) (auto simp: one)
  show "distinct (map snd xs) \<Longrightarrow> (i, irq) \<in> set xs \<Longrightarrow>
    readFileTrim m (t_host (fold (pinIRQ m False ifc cores) xs t)) (irqPath (itoa irq)) = itoa (cores ! (i mod length cores))"
  proof (induction xs arbitrary: t)
    case (Cons x xs)
    show ?case
    proof (cases "x = (i, irq)")
      case True
      then have "irq \<notin> snd ` set xs" using Cons.prems by auto
      then show ?thesis using True by (simp add: other one)
    qed (use Cons in auto)
  qed simp
qed

lemma pinned_port:
  assumes laws: "host_laws m W calm" and W: "\<And>i. W (irqPath (itoa i))"
    and a: "applyIRQAffinity m cfg False ifc t = Some t'" and c: "numaCores m cfg (t_host t) ifc = Some cores" "cores \<noteq> []"
    and d: "distinct (ifaceIRQs m (t_host t) ifc)" and i: "i < length (ifaceIRQs m (t_host t) ifc)"
  shows "readFileTrim m (t_host t') (irqPath (itoa (ifaceIRQs m (t_host t) ifc ! i))) = itoa (cores ! (i mod length cores))"
proof -
  let ?irqs = "ifaceIRQs m (t_host t) ifc"
  have "t' = fold (pinIRQ m False ifc cores) (enumerate 0 ?irqs) t" using a c i by (auto simp: applyIRQAffinity_def Let_def split: if_splits)
  moreover have "(i, ?irqs ! i) \<in> set (enumerate 0 ?irqs)" using i by (simp add: in_set_enumerate_eq)
  ultimately show ?thesis using pinAll_reads(1) [OF laws W] d by simp
qed

lemma governor_frame:
  assumes laws: "host_laws m W calm"
  shows "m_readdir m (t_host (applyGovernor m cfg dry t)) d = m_readdir m (t_host t) d"
    and "readFileTrim m (t_host (applyGovernor m cfg dry t)) (irqPath i) = readFileTrim m (t_host t) (irqPath i)"
proof -
  have r: "m_readdir m (t_host (fold (setGovernor m dry w) ps t)) d = m_readdir m (t_host t) d" for w ps
    by (induction ps arbitrary: t) (auto simp: setGovernor_def putFile_def Let_def host_lawsD(3) [OF laws])
  have f: "\<forall>q \<in> set ps. hasPrefix q ''/sys/'' \<Longrightarrow>
      readFileTrim m (t_host (fold (setGovernor m dry w) ps t)) (irqPath i) = readFileTrim m (t_host t) (irqPath i)" for w ps
  proof (induction ps arbitrary: t)
    case (Cons q ps)
    then have "irqPath i \<noteq> q" using paths_apart(3) by force
    then show ?case using Cons by (simp add: setGovernor_def putFile_def Let_def host_lawsD(2) [OF laws])
  qed simp
  show "m_readdir m (t_host (applyGovernor m cfg dry t)) d = m_readdir m (t_host t) d"
    by (simp add: applyGovernor_def Let_def r)
  show "readFileTrim m (t_host (applyGovernor m cfg dry t)) (irqPath i) = readFileTrim m (t_host t) (irqPath i)"
    using host_lawsD(11) [OF laws] by (simp add: applyGovernor_def Let_def f)
qed

lemma finishApply_frame:
  assumes laws: "host_laws m W calm" and q: "q \<noteq> SnapshotPath"
  shows "readFileTrim m (t_host (finishApply m False t)) q = readFileTrim m (t_host t) q"
proof -
  obtain b where "m_marshal m (t_snap t) = Some b" using host_lawsD(12) [OF laws] by blast
  then obtain e1 where "t_host (finishApply m False t) = snd (m_write m SnapshotPath b e1)"
    "\<And>q. readFileTrim m e1 q = readFileTrim m (t_host t) q" using finishApply_saves [OF laws] by blast
  then show ?thesis using q host_lawsD(2) [OF laws] by simp
qed

text \<open>
  Apply puts the k-th queue interrupt of either port on the k-th of the cores the ports share
  (wrapping round when there are fewer cores), so queue k of both ports is served by one core.
  \<open>A\<close> and \<open>B\<close> are the interrupts when they are pinned.
\<close>

theorem queues_share_cores:
  assumes laws: "host_laws m W calm" and W: "\<And>i. W (irqPath (itoa i))"
    and on: "Tune cfg" "ptrOrTrue (DisableIRQBal (Tuning_Cfg cfg))"
    and irqs: "\<And>e. ifaceIRQs m e (TrustedIface cfg) = A \<and> ifaceIRQs m e (UntrustedIface cfg) = B" "distinct (A @ B)"
    and cores: "numaCores m cfg e (TrustedIface cfg) = Some cores" "numaCores m cfg e (UntrustedIface cfg) = Some cores"
      "cores \<noteq> []"
  shows "\<exists>t. TunerApply m cfg False (newTuner e) = Some t \<and>
     (\<forall>k irq. k < length A \<and> irq = A ! k \<or> k < length B \<and> irq = B ! k \<longrightarrow>
        readFileTrim m (t_host t) (irqPath (itoa irq)) = itoa (cores ! (k mod length cores)))"
proof -
  have dd: "distinct (ifaceIRQs m e (TrustedIface cfg) @ ifaceIRQs m e (UntrustedIface cfg))" for e
    using irqs by simp
  have cs: "numaCores m cfg e (TrustedIface cfg) \<noteq> None" "numaCores m cfg e (UntrustedIface cfg) \<noteq> None"
    using cores by simp_all
  obtain t4 t5 where t5: "applyIRQs m cfg False t4 = Some t5" "keeps m W calm e t4" "tracked t4 \<subseteq> range sysctlPath"
    "TunerApply m cfg False (newTuner e) = Some (finishApply m False (applyGovernor m cfg False t5))"
    by (rule Apply_keeps [OF laws on(1) cs dd, of False])
  obtain t1 t2 where st: "applyIRQAffinity m cfg False (TrustedIface cfg) t1 = Some t2"
    "applyIRQAffinity m cfg False (UntrustedIface cfg) t2 = Some t5"
    "keeps m W calm e t1" "keeps m W calm e t2" "tracked t1 \<subseteq> range sysctlPath" "tracked t2 \<subseteq> range irqPath \<union> range sysctlPath"
  proof (rule applyIRQs_stages [OF on(2) laws cs dd t5(3,2), of False])
    fix t1 t2 t3
    assume "applyIRQs m cfg False t4 = Some t3"
      and a: "applyIRQAffinity m cfg False (TrustedIface cfg) t1 = Some t2"
        "applyIRQAffinity m cfg False (UntrustedIface cfg) t2 = Some t3"
        "keeps m W calm e t1" "keeps m W calm e t2" "tracked t1 \<subseteq> range sysctlPath"
        "tracked t2 \<subseteq> range irqPath \<union> range sysctlPath"
    then have "t3 = t5" using t5(1) by simp
    then show thesis using that a by blast
  qed
  let ?r = "\<lambda>t irq. readFileTrim m (t_host t) (irqPath (itoa irq))" and ?w = "\<lambda>k. itoa (cores ! (k mod length cores))"
  have c: "numaCores m cfg (t_host t1) (TrustedIface cfg) = Some cores" "numaCores m cfg (t_host t2) (UntrustedIface cfg) = Some cores"
    using topo_cores [OF laws st(3)] topo_cores [OF laws st(4) st(6)] st(5) cores by fastforce+
  have A: "?r t2 (A ! k) = ?w k" if "k < length A" for k
    using pinned_port [OF laws W st(1) c(1) cores(3)] irqs that by simp
  have B: "?r t5 (B ! k) = ?w k" if "k < length B" for k
    using pinned_port [OF laws W st(2) c(2) cores(3)] irqs that by simp
  have pre: "?r t5 irq = ?r t2 irq" if "irq \<in> set A" for irq
  proof -
    have "irq \<notin> snd ` set (enumerate 0 B)" using that irqs(2) by (auto simp: in_set_enumerate_eq)
    then show ?thesis
      using st(2) c(2) pinAll_reads(2) [OF laws W] irqs(1)
      by (auto simp: applyIRQAffinity_def Let_def split: if_splits)
  qed
  have p5: "?r t5 irq = ?w k" if "k < length A \<and> irq = A ! k \<or> k < length B \<and> irq = B ! k" for k irq
    using that
  proof
    assume "k < length A \<and> irq = A ! k"
    then show ?thesis using A [of k] pre [of irq] by simp
  next
    assume "k < length B \<and> irq = B ! k"
    then show ?thesis using B [of k] by simp
  qed
  have fin: "?r (finishApply m False (applyGovernor m cfg False t5)) irq = ?r t5 irq" for irq
  proof -
    have ne: "irqPath (itoa irq) \<noteq> SnapshotPath" by (simp add: irqPath_def SnapshotPath_def)
    show ?thesis by (simp only: finishApply_frame [OF laws ne] governor_frame(2) [OF laws])
  qed
  show ?thesis by (intro exI [of _ "finishApply m False (applyGovernor m cfg False t5)"] conjI allI impI)
      (simp_all only: t5(4) fin p5)
qed

section \<open>A sample host\<close>

text \<open>
  A host whose files are a map, on which every law holds, with a length-prefixed encoding of
  the recorded files in the place of JSON. It instantiates the hypotheses of the properties.
\<close>

definition encStr :: "string \<Rightarrow> string" where
  "encStr s = replicate (length s) (CHR ''x'') @ CHR ''.'' # s"

definition decStr :: "string \<Rightarrow> string \<times> string" where
  "decStr b = (case cutOn (CHR ''.'') b of
     None \<Rightarrow> ([], []) | Some (n, rest) \<Rightarrow> (take (length n) rest, drop (length n) rest))"

fun encMap :: "(string, string) kmap \<Rightarrow> string" where
  "encMap [] = ''.''"
| "encMap ((k, v) # m) = CHR ''x'' # encStr k @ encStr v @ encMap m"

fun decMap :: "nat \<Rightarrow> string \<Rightarrow> (string, string) kmap \<times> string" where
  "decMap (Suc n) (CHR ''x'' # b) =
     (case decStr b of (k, b1) \<Rightarrow> case decStr b1 of (v, b2) \<Rightarrow> case decMap n b2 of (m, r) \<Rightarrow> ((k, v) # m, r))"
| "decMap n b = ([], tl b)"

lemma decStr_encStr: "decStr (encStr s @ r) = (s, r)"
proof -
  have "cutOn (CHR ''.'') (replicate (length s) (CHR ''x'') @ CHR ''.'' # s @ r) = Some (replicate (length s) (CHR ''x''), s @ r)"
    by (rule cutOn_append) simp
  then show ?thesis by (simp add: decStr_def encStr_def)
qed

lemma decMap_encMap: "length m < n \<Longrightarrow> decMap n (encMap m @ r) = (m, r)"
proof (induction m arbitrary: n)
  case Nil
  then show ?case by (cases n) simp_all
next
  case (Cons kv m)
  then obtain n' where "n = Suc n'" "length m < n'" by (cases n) auto
  then show ?case using Cons.IH by (cases kv) (simp add: decStr_encStr)
qed

lemma length_encMap: "length m < length (encMap m)"
  by (induction m rule: encMap.induct) auto

definition encSnap :: "TuneSnapshot \<Rightarrow> string" where
  "encSnap s = encMap (Sysctls s) @ encMap (IRQAffinity s) @ encMap (Governors s)"

definition decSnap :: "string \<Rightarrow> TuneSnapshot" where
  "decSnap b = (case decMap (length b) b of (a, b1) \<Rightarrow> case decMap (length b) b1 of (i, b2) \<Rightarrow>
     case decMap (length b) b2 of (g, r) \<Rightarrow> emptySnapshot\<lparr>Sysctls := a, IRQAffinity := i, Governors := g\<rparr>)"

lemma decSnap_encSnap:
  "Sysctls (decSnap (encSnap s)) = Sysctls s" "IRQAffinity (decSnap (encSnap s)) = IRQAffinity s"
  "Governors (decSnap (encSnap s)) = Governors s"
proof -
  have "length (Sysctls s) < length (encSnap s)" "length (IRQAffinity s) < length (encSnap s)"
    "length (Governors s) < length (encSnap s)"
    using length_encMap [of "Sysctls s"] length_encMap [of "IRQAffinity s"] length_encMap [of "Governors s"]
    by (simp_all add: encSnap_def)
  moreover have "decMap n (encMap (Governors s)) = (Governors s, [])" if "length (Governors s) < n" for n
    using decMap_encMap [OF that, of "[]"] by simp
  ultimately have "decSnap (encSnap s) = emptySnapshot\<lparr>Sysctls := Sysctls s, IRQAffinity := IRQAffinity s, Governors := Governors s\<rparr>"
    unfolding decSnap_def by (subst encSnap_def) (simp add: decMap_encMap encSnap_def)
  then show "Sysctls (decSnap (encSnap s)) = Sysctls s" "IRQAffinity (decSnap (encSnap s)) = IRQAffinity s"
    "Governors (decSnap (encSnap s)) = Governors s" by simp_all
qed

definition governor0 :: string where
  "governor0 = ''/sys/devices/system/cpu/cpu0/cpufreq/scaling_governor''"

definition box :: "(string, string) kmap machine" where
  "box = \<lparr>m_read = kget, m_write = (\<lambda>p v e. (True, kset p v e)), m_mkdir = (\<lambda>d e. (True, e)), m_remove = kdel,
     m_readdir = (\<lambda>e d. if d = ''/sys/class/net/eth0/device/msi_irqs'' then Some [''41'', ''40'']
                        else if d = ''/sys/class/net/eth1/device/msi_irqs'' then Some [''50'', ''power'', ''51''] else None),
     m_glob = (\<lambda>e pat. [governor0]), m_output = (\<lambda>e c. None), m_run = (\<lambda>c e. (True, e)), m_iter = (\<lambda>ifc fs. fs),
     m_marshal = (\<lambda>s. Some (encSnap s)), m_unmarshal = (\<lambda>b. Some (decSnap b))\<rparr>"

definition boxFiles :: "(string, string) kmap" where
  "boxFiles = [(''/proc/sys/net/core/bpf_jit_enable'', ''0''), (''/proc/sys/net/core/bpf_jit_harden'', ''2''),
     (''/proc/sys/kernel/numa_balancing'', ''1''), (governor0, ''powersave''), (onlinePath, ''0-3''),
     (irqPath ''40'', ''0-3''), (irqPath ''41'', ''0-3''), (irqPath ''50'', ''0-3''), (irqPath ''51'', ''0-3'')]"

definition boxConfig :: Config where
  "boxConfig = Default\<lparr>TrustedIface := ''eth0'', UntrustedIface := ''eth1''\<rparr>"

lemma box_laws: "host_laws box (\<lambda>p. True) (\<lambda>p. True)"
  unfolding host_laws_def
  by (intro conjI allI impI)
    (simp_all add: box_def readFileTrim_def governor0_def hasPrefix_def decSnap_encSnap)

lemma box_irqs: "ifaceIRQs box e ''eth0'' = [40, 41]" "ifaceIRQs box e ''eth1'' = [50, 51]"
proof -
  have "sort (map (fst \<circ> atoi) (filter (\<lambda>n. snd (atoi n) = None) [''41'', ''40''])) = [40, 41]" by code_simp
  then show "ifaceIRQs box e ''eth0'' = [40, 41]" by (simp add: ifaceIRQs_def box_def)
  have "sort (map (fst \<circ> atoi) (filter (\<lambda>n. snd (atoi n) = None) [''50'', ''power'', ''51''])) = [50, 51]" by code_simp
  then show "ifaceIRQs box e ''eth1'' = [50, 51]" by (simp add: ifaceIRQs_def box_def)
qed

lemma box_cores: "numaCores box boxConfig boxFiles ''eth0'' = Some [0, 1, 2]" "numaCores box boxConfig boxFiles ''eth1'' = Some [0, 1, 2]"
  by code_simp+

lemma box_config: "TrustedIface boxConfig = ''eth0''" "UntrustedIface boxConfig = ''eth1''" "Tune boxConfig"
  "DisableIRQBal (Tuning_Cfg boxConfig) = None"
  by (simp_all add: boxConfig_def Default_def zeroTuning_def)


theorem queues_share_cores_witness:
  "\<exists>t. TunerApply box boxConfig False (newTuner boxFiles) = Some t \<and>
     readFileTrim box (t_host t) (irqPath ''41'') = ''1'' \<and> readFileTrim box (t_host t) (irqPath ''51'') = ''1''"
proof -
  have i: "itoa 41 = ''41''" "itoa 51 = ''51''" "itoa 1 = ''1''" by code_simp+
  obtain t where t: "TunerApply box boxConfig False (newTuner boxFiles) = Some t"
    "\<forall>k irq. k < length [40, 41::int] \<and> irq = [40, 41] ! k \<or> k < length [50, 51::int] \<and> irq = [50, 51] ! k \<longrightarrow>
       readFileTrim box (t_host t) (irqPath (itoa irq)) = itoa ([0, 1, 2] ! (k mod length [0, 1, 2::int]))"
    using queues_share_cores [OF box_laws, where cfg = boxConfig and e = boxFiles and cores = "[0, 1, 2]"
        and A = "[40, 41]" and B = "[50, 51]"]
    by (auto simp: box_config box_cores box_irqs ptrOrTrue_def)
  from t(2) [rule_format, of 1 41] t(2) [rule_format, of 1 51] show ?thesis using t(1) by (auto simp: i)
qed

text \<open>C36: 
  A dry run of the tuning profile leaves the host as it is: no file is written and no
  command is run but the query whether irqbalance is active, which is assumed to change nothing.
\<close>

theorem dry_run_touches_nothing:
  assumes "\<And>e. snd (m_run m isActiveCmd e) = e"
    and "TunerApply m cfg True t = Some t'"
  shows "t_host t' = t_host t"
proof (cases "Tune cfg")
  case True
  let ?ifs = "[TrustedIface cfg, UntrustedIface cfg]"
  obtain ch t1 where c: "commonChannels m cfg ?ifs (applySysctls m cfg True t) = Some (ch, t1)"
    using assms(2) True by (auto simp: TunerApply_def Let_def split: option.splits)
  have h1: "t_host t1 = t_host t" using commonChannels_host [OF c] by (simp add: applySysctls_dry)
  define t4 where "t4 = fold (applyEthtool m cfg True ch) ?ifs
    (if RingSize (Tuning_Cfg cfg) = 0 then logf LogRingsKept (logf (LogChannels ch) t1) else logf (LogChannels ch) t1)"
  have h4: "t_host t4 = t_host t"
    using h1 by (simp add: t4_def applyEthtool_dry)
  obtain t5 where t5: "applyIRQs m cfg True t4 = Some t5" and t': "t' = applyGovernor m cfg True t5"
    using assms(2) True c by (auto simp: TunerApply_def Let_def t4_def finishApply_def)
  have "t_host t5 = t_host t" using applyIRQs_dry [OF _ t5] assms(1) h4 by simp
  then show ?thesis using t' by (simp add: applyGovernor_dry)
qed (use assms(2) in \<open>auto simp: TunerApply_def\<close>)

theorem dry_run_touches_nothing_witness:
  "\<exists>t. TunerApply box boxConfig True (newTuner boxFiles) = Some t \<and> t_host t = boxFiles"
proof -
  have d: "distinct (ifaceIRQs box e (TrustedIface boxConfig) @ ifaceIRQs box e (UntrustedIface boxConfig))" for e
    by (simp add: box_config box_irqs)
  have c: "numaCores box boxConfig boxFiles (TrustedIface boxConfig) \<noteq> None" "numaCores box boxConfig boxFiles (UntrustedIface boxConfig) \<noteq> None"
    by (simp_all add: box_config box_cores)
  obtain t where t: "TunerApply box boxConfig True (newTuner boxFiles) = Some t"
    using Apply_keeps [OF box_laws box_config(3) c d, of True] by metis
  moreover have "snd (m_run box isActiveCmd e) = e" for e by (simp add: box_def)
  ultimately show ?thesis using dry_run_touches_nothing [of box boxConfig "newTuner boxFiles" t] by (simp add: newTuner_def)
qed

section \<open>A second Apply forgets the original sysctls\<close>

text \<open>
  The snapshot file is overwritten at every Apply. On a host that is tuned already, every sysctl has its
  wanted value and none is recorded, so a second Apply replaces the original values by nothing
  and a later Restore cannot bring them back.
\<close>

lemma desired_trimmed: "(k, v) \<in> set (desiredSysctls tn) \<Longrightarrow> trimSpace v = v"
  by (auto simp: desiredSysctls_def trimSpace_plain plain_def split: if_splits)

lemma applySysctl_fold_reads:
  assumes laws: "host_laws m W calm" and W: "\<And>k. W (sysctlPath k)"
  shows "distinct (map (\<lambda>kv. sysctlPath (fst kv)) kvs) \<Longrightarrow> \<forall>(k, v) \<in> set kvs. trimSpace v = v \<Longrightarrow> (k, v) \<in> set kvs \<Longrightarrow>
    readSysctl m (t_host (fold (applySysctl m False) kvs t)) k = v"
proof -
  have one: "readFileTrim m (t_host (applySysctl m False (k, v) t)) q =
      (if q = sysctlPath k then v else readFileTrim m (t_host t) q)" if "trimSpace v = v" for k v q t
    using W that
    by (auto simp: applySysctl_def readSysctl_def writeSysctl_def Let_def host_lawsD(2) [OF laws] split: prod.splits)
      (metis (no_types, lifting) host_lawsD(2) [OF laws] snd_conv)+
  have other: "q \<notin> (\<lambda>kv. sysctlPath (fst kv)) ` set kvs \<Longrightarrow> \<forall>(k, v) \<in> set kvs. trimSpace v = v \<Longrightarrow>
      readFileTrim m (t_host (fold (applySysctl m False) kvs t)) q = readFileTrim m (t_host t) q" for q kvs t
    by (induction kvs arbitrary: t) (auto simp: one)
  show "distinct (map (\<lambda>kv. sysctlPath (fst kv)) kvs) \<Longrightarrow> \<forall>(k, v) \<in> set kvs. trimSpace v = v \<Longrightarrow> (k, v) \<in> set kvs \<Longrightarrow>
    readSysctl m (t_host (fold (applySysctl m False) kvs t)) k = v"
  proof (induction kvs arbitrary: t)
    case (Cons x kvs)
    show ?case
    proof (cases "x = (k, v)")
      case True
      then have "sysctlPath k \<notin> (\<lambda>kv. sysctlPath (fst kv)) ` set kvs" using Cons.prems by auto
      then show ?thesis using True Cons.prems by (simp add: readSysctl_def other one)
    qed (use Cons in auto)
  qed simp
qed

lemma second_apply_forgets:
  assumes laws: "host_laws m W calm" and W: "\<And>k. W (sysctlPath k)"
  shows "Sysctls (t_snap (applySysctls m cfg False (newTuner (t_host (applySysctls m cfg False t))))) = []"
proof -
  let ?d = "desiredSysctls (Tuning_Cfg cfg)" and ?h = "t_host (applySysctls m cfg False t)"
  have r: "readSysctl m ?h k = v" if "(k, v) \<in> set ?d" for k v
  proof -
    have ne: "sysctlPath k \<noteq> persistPath" by (simp add: sysctlPath_def persistPath_def)
    have "\<forall>(k, v) \<in> set ?d. trimSpace v = v" using desired_trimmed by blast
    then have "readSysctl m (t_host (fold (applySysctl m False) ?d t)) k = v"
      using applySysctl_fold_reads [OF laws W desired_distinct _ that] by blast
    then show ?thesis
      using ne by (simp add: applySysctls_def Let_def writeSysctlPersist_def readSysctl_def host_lawsD(2) [OF laws])
  qed
  have fx: "\<forall>(k, v) \<in> set kvs. readSysctl m (t_host u) k = v \<Longrightarrow> fold (applySysctl m False) kvs u = u" for kvs u
    by (induction kvs) (auto simp: applySysctl_def Let_def)
  have f: "fold (applySysctl m False) ?d (newTuner ?h) = newTuner ?h"
    by (rule fx) (use r in \<open>auto simp: newTuner_def\<close>)
  have "t_snap (applySysctls m cfg False u) = t_snap (fold (applySysctl m False) ?d u)" for u
    by (simp add: applySysctls_def Let_def)
  then have "t_snap (applySysctls m cfg False (newTuner ?h)) = t_snap (newTuner ?h)" by (simp only: f)
  then show ?thesis by (simp add: newTuner_def emptySnapshot_def)
qed

end
