(* ===== verification/Wizard.thy ===== *)
theory Wizard
  imports Tuning_Restore "HOL-Library.Char_ord" "HOL-Library.List_Lexorder"
begin

text \<open>
  The interactive setup of \<open>internal/wizard/wizard.go\<close> and the XDP probe of
  \<open>internal/dataplane/probe.go\<close>. Standard input is the list of the lines still to be read; after
  the last one every read returns the empty text, as \<open>ReadString\<close> does at the end of the file with its
  error dropped. Text that is only printed is left out. A computation that does not end is
  \<open>None\<close>: the port prompt at the end of the input, and the tuning preview on a CPU list that
  never ends. \<open>strconv.ParseFloat\<close>, the YAML encoder and the outcomes of the commands are
  parameters.
\<close>

section \<open>Prompts\<close>

type_synonym input = "string list"

fun readAnswer :: "input \<Rightarrow> string \<times> input" where
  "readAnswer [] = ([], [])"
| "readAnswer (l # ls) = (trimSpace l, ls)"

definition prompt :: "string \<Rightarrow> input \<Rightarrow> string \<times> input" where
  "prompt def inp = (case readAnswer inp of (line, r) \<Rightarrow> (if line = [] then def else line, r))"

definition promptYN :: "bool \<Rightarrow> input \<Rightarrow> bool \<times> input" where
  "promptYN def inp =
     (case readAnswer inp of (line0, r) \<Rightarrow>
        (let line = toLower line0 in (if line = [] then def else line = ''y'' \<or> line = ''yes'', r)))"

definition promptU32 :: "u32 \<Rightarrow> (u32 \<Rightarrow> bool) \<Rightarrow> input \<Rightarrow> u32 \<times> input" where
  "promptU32 def valid inp =
     (case prompt (decimal (uint def)) inp of (s, r) \<Rightarrow>
        (case parseUint 32 s of
           (v, None) \<Rightarrow> (if valid (of_int v) then of_int v else def, r)
         | (v, Some err) \<Rightarrow> (def, r)))"

section \<open>The XDP probe\<close>

text \<open>The outcome of one attach: success, or an error with its text and whether it is EBUSY.\<close>

datatype attach_result = Attached | AttachErr bool string

datatype probe_mode = DriverMode | GenericMode

definition isBusyError :: "bool \<Rightarrow> string \<Rightarrow> bool" where
  "isBusyError ebusy msg \<longleftrightarrow>
     ebusy \<or> strContains (toLower msg) ''busy'' \<or> strContains (toLower msg) ''already''"

definition tryAttach :: "attach_result \<Rightarrow> bool \<times> bool" where
  "tryAttach r = (case r of Attached \<Rightarrow> (True, False) | AttachErr eb msg \<Rightarrow> (False, isBusyError eb msg))"

definition ProbeXDP :: "bool \<Rightarrow> bool \<Rightarrow> (probe_mode \<Rightarrow> attach_result) \<Rightarrow> string" where
  "ProbeXDP iface_ok prog_ok attach =
     (if \<not> iface_ok \<or> \<not> prog_ok then ''none''
      else (case tryAttach (attach DriverMode) of
        (True, _) \<Rightarrow> ''native''
      | (False, True) \<Rightarrow> ''busy''
      | (False, False) \<Rightarrow>
          (case tryAttach (attach GenericMode) of
             (True, _) \<Rightarrow> ''generic'' | (False, True) \<Rightarrow> ''busy'' | (False, False) \<Rightarrow> ''none'')))"

section \<open>Ports\<close>

record nic =
  Name :: string
  Driver :: string
  Up :: bool
  Speed :: string
  XDP :: string

record net_iface =
  if_name :: string
  if_loopback :: bool
  if_up :: bool

definition listNICs :: "(string \<Rightarrow> string) \<Rightarrow> (string \<Rightarrow> string) \<Rightarrow> (string \<Rightarrow> string) \<Rightarrow> net_iface list \<Rightarrow> nic list" where
  "listNICs driverOf speedOf probe ifs =
     sort_key Name (map (\<lambda>i. \<lparr>Name = if_name i, Driver = driverOf (if_name i), Up = if_up i,
         Speed = speedOf (if_name i), XDP = probe (if_name i)\<rparr>)
       (filter (\<lambda>i. \<not> if_loopback i) ifs))"

text \<open>What one answer to the port prompt means.\<close>

datatype pick = Picked string | Blink string | Again

definition pickOf :: "nic list \<Rightarrow> string \<Rightarrow> pick" where
  "pickOf nics s =
     (if hasPrefix s ''b'' then
        (case atoi (trimPrefix s ''b'') of
           (idx, None) \<Rightarrow> (if 0 \<le> idx \<and> idx < int (length nics) then Blink (Name (nics ! nat idx)) else Again)
         | (idx, Some err) \<Rightarrow> Again)
      else (case atoi s of
         (idx, err) \<Rightarrow>
           (if err = None \<and> 0 \<le> idx \<and> idx < int (length nics) then Picked (Name (nics ! nat idx))
            else if s \<in> Name ` set nics then Picked s else Again)))"

text \<open>The loop of \<open>pickIface\<close>, with the identify commands it has run.\<close>

fun pickIface :: "nic list \<Rightarrow> string list list \<Rightarrow> input \<Rightarrow> (string \<times> string list list \<times> input) option" where
  "pickIface nics cmds [] = (case pickOf nics [] of Picked s \<Rightarrow> Some (s, cmds, []) | _ \<Rightarrow> None)"
| "pickIface nics cmds (l # ls) =
     (case pickOf nics (trimSpace l) of
        Picked s \<Rightarrow> Some (s, cmds, ls)
      | Blink n \<Rightarrow> pickIface nics (cmds @ [[''ethtool'', ''--identify'', n, ''5'']]) ls
      | Again \<Rightarrow> pickIface nics cmds ls)"

definition capOf :: "nic list \<Rightarrow> string \<Rightarrow> string" where
  "capOf nics n = (case map_of (rev (map (\<lambda>k. (Name k, XDP k)) nics)) n of None \<Rightarrow> [] | Some c \<Rightarrow> c)"

section \<open>The answers\<close>

fun serverLoop :: "string slice \<Rightarrow> input \<Rightarrow> string slice \<times> input" where
  "serverLoop acc [] = (acc, [])"
| "serverLoop acc (l # ls) =
     (let e = trimSpace l in
      if e = [] then (acc, ls)
      else (case ParseHostPort e of
              Inl err \<Rightarrow> serverLoop acc ls
            | Inr hp \<Rightarrow> serverLoop (appendSlice acc e) ls))"

definition policyAnswers :: "Config \<Rightarrow> input \<Rightarrow> Config \<times> input" where
  "policyAnswers cfg i0 =
     (case promptYN True i0 of (monitor, i1) \<Rightarrow>
      case promptYN True i1 of (adopt, i2) \<Rightarrow>
      case promptYN True i2 of (udp, i3) \<Rightarrow>
      case promptYN False i3 of (rst, i4) \<Rightarrow>
      case promptYN False i4 of (syn, i5) \<Rightarrow>
      case promptYN False i5 of (servers, i6) \<Rightarrow>
        (let cfg1 = cfg\<lparr>Mode := (if monitor then ''monitor'' else ''enforce''), OosStrict := \<not> adopt,
                        FilterUDP := udp, RejectWithRST := rst, AllowInboundSYN := syn\<rparr> in
         if servers
         then (case serverLoop (ServerAllow cfg1) i6 of (allow, i7) \<Rightarrow>
                 (cfg1\<lparr>AllowInboundServers := True, ServerAllow := allow\<rparr>, i7))
         else (cfg1, i6)))"

definition sizingAnswers :: "ResourceRecommendation \<Rightarrow> Config \<Rightarrow> input \<Rightarrow> Config \<times> input" where
  "sizingAnswers rec cfg i0 =
     (case promptU32 (RecFlowMax rec) (\<lambda>v. 1024 \<le> v) i0 of (fm, i1) \<Rightarrow>
      case promptU32 (RecUDPFlowMax rec) (\<lambda>v. 1024 \<le> v) i1 of (um, i2) \<Rightarrow>
      case promptU32 (RecL1Size rec) (\<lambda>v. v = 0 \<or> 1024 \<le> v \<and> v AND (v - 1) = 0) i2 of (l1, i3) \<Rightarrow>
        (cfg\<lparr>FlowMax := fm, UDPFlowMax := um, L1Size := l1\<rparr>, i3))"

text \<open>One rule of the monitoring dialogue; \<open>None\<close> when the thresholds are refused.\<close>

definition ruleOf :: "(string \<Rightarrow> f64 option) \<Rightarrow> string \<Rightarrow> string \<Rightarrow> string \<Rightarrow> FlowMonitorCIDR option" where
  "ruleOf parseFloat cidr ppsText mbpsText =
     (case (parseUint 64 ppsText, parseFloat mbpsText) of
        ((pps, None), Some mbps) \<Rightarrow>
          (if f64_negative mbps \<or> (of_int pps = (0 :: u64) \<and> f64_isZero mbps) then None
           else Some \<lparr>CIDR = cidr, PPSThreshold = of_int pps, MbpsThreshold = mbps\<rparr>)
      | _ \<Rightarrow> None)"

definition cidrAccepted :: "string \<Rightarrow> bool" where
  "cidrAccepted cidr \<longleftrightarrow>
     (case parseCIDR cidr of None \<Rightarrow> False | Some (a, network) \<Rightarrow> to4 a \<noteq> None \<and> ipnetString network = cidr)"

lemma prompt_length: "prompt d i = (s, r) \<Longrightarrow> length r \<le> length i"
  by (cases i) (auto simp: prompt_def)

function cidrLoop :: "(string \<Rightarrow> f64 option) \<Rightarrow> FlowMonitorCIDR slice \<Rightarrow> input \<Rightarrow> FlowMonitorCIDR slice \<times> input" where
  "cidrLoop pf acc inp =
     (if 4096 \<le> length (elems acc) then (acc, inp)
      else (case inp of
        [] \<Rightarrow> (acc, [])
      | l # i0 \<Rightarrow>
          (let cidr = trimSpace l in
           if cidr = [] then (acc, i0)
           else if \<not> cidrAccepted cidr then cidrLoop pf acc i0
           else (case prompt ''0'' i0 of (ppsText, i1) \<Rightarrow> case prompt ''0'' i1 of (mbpsText, i2) \<Rightarrow>
             (case ruleOf pf cidr ppsText mbpsText of
                None \<Rightarrow> cidrLoop pf acc i2
              | Some rule \<Rightarrow> cidrLoop pf (appendSlice acc rule) i2)))))"
  by pat_completeness auto
termination
  by (relation "measure (\<lambda>(pf, acc, inp). length inp)") (auto dest!: prompt_length [OF sym])

declare cidrLoop.simps [simp del]

definition monitorAnswers :: "(string \<Rightarrow> f64 option) \<Rightarrow> Config \<Rightarrow> input \<Rightarrow> Config \<times> input" where
  "monitorAnswers pf cfg i0 =
     (case promptYN False i0 of (enable, i1) \<Rightarrow>
        if \<not> enable then (cfg, i1)
        else (let fm = Flow_Monitoring cfg in
          case promptU32 (SampleEvery fm) (\<lambda>v. 0 < v \<and> v \<le> 65536 \<and> v AND (v - 1) = 0) i1 of (se, i2) \<Rightarrow>
          case promptU32 (MaxFlows fm) (\<lambda>v. 1024 \<le> v \<and> v \<le> push_bit 20 1) i2 of (mf, i3) \<Rightarrow>
          case cidrLoop pf (CIDRs fm) i3 of (cs, i4) \<Rightarrow>
            (cfg\<lparr>Flow_Monitoring := fm\<lparr>Enabled := True, SampleEvery := se, MaxFlows := mf, CIDRs := cs\<rparr>\<rparr>, i4)))"

section \<open>Run\<close>

datatype wizard_error = NotRoot | FewNICs nat | SamePort | BadConfig config_error | SaveFailed | EnableFailed | StartFailed

record 'e wizard_env =
  z_root :: bool
  z_nics :: "nic list"
  z_float :: "string \<Rightarrow> f64 option"
  z_read :: fileReader
  z_machine :: "'e machine"
  z_host :: 'e
  z_marshal :: "Config \<Rightarrow> string option"
  z_save :: save_calls
  z_systemctl :: "string list \<Rightarrow> bool"

definition choosePorts :: "nic list \<Rightarrow> input \<Rightarrow> (string \<times> string \<times> string list list \<times> input) option" where
  "choosePorts nics i0 =
     (case pickIface nics [] i0 of
        None \<Rightarrow> None
      | Some (trusted, c1, i1) \<Rightarrow>
          map_option (\<lambda>(untrusted, c2, i2). (trusted, untrusted, c2, i2)) (pickIface nics c1 i1))"

definition baseConfig :: "nic list \<Rightarrow> string \<Rightarrow> string \<Rightarrow> Config" where
  "baseConfig nics trusted untrusted =
     Default\<lparr>TrustedIface := trusted, UntrustedIface := untrusted,
       XDPMode := (if capOf nics trusted = ''native'' \<and> capOf nics untrusted = ''native'' then ''native'' else ''auto'')\<rparr>"

text \<open>The preview of the tuning profile is a dry run; only whether it ends matters here.\<close>

definition tuneAnswer :: "'e wizard_env \<Rightarrow> Config \<Rightarrow> input \<Rightarrow> (Config \<times> input) option" where
  "tuneAnswer z cfg i0 =
     (case promptYN True i0 of (tune, i1) \<Rightarrow>
        if tune
        then map_option (\<lambda>t. (cfg\<lparr>Tune := True\<rparr>, i1))
               (TunerApply (z_machine z) (cfg\<lparr>Tune := True\<rparr>) True (newTuner (z_host z)))
        else Some (cfg\<lparr>Tune := False\<rparr>, i1))"

definition gatherConfig :: "'e wizard_env \<Rightarrow> ResourceRecommendation \<Rightarrow> Config \<Rightarrow> input \<Rightarrow> (Config \<times> input) option" where
  "gatherConfig z rec cfg0 i0 =
     (case policyAnswers cfg0 i0 of (cfg1, i1) \<Rightarrow>
      case sizingAnswers rec cfg1 i1 of (cfg2, i2) \<Rightarrow>
      case monitorAnswers (z_float z) cfg2 i2 of (cfg3, i3) \<Rightarrow> tuneAnswer z cfg3 i3)"

definition startService :: "'e wizard_env \<Rightarrow> string list list \<Rightarrow> input \<Rightarrow> wizard_error option \<times> string list list \<times> input" where
  "startService z cmds i0 =
     (case promptYN True i0 of (boot, i1) \<Rightarrow>
      case promptYN True i1 of (now, i2) \<Rightarrow>
        (let c1 = (if boot \<or> now then cmds @ [[''systemctl'', ''daemon-reload'']] else cmds);
             en = [''systemctl'', ''enable'', ''xdpfilter''];
             st = [''systemctl'', ''start'', ''xdpfilter''];
             c2 = (if boot then c1 @ [en] else c1)
         in if boot \<and> \<not> z_systemctl z en then (Some EnableFailed, c2, i2)
            else if now then ((if z_systemctl z st then None else Some StartFailed), c2 @ [st], i2)
            else (None, c2, i2)))"

definition finishSetup :: "'e wizard_env \<Rightarrow> string \<Rightarrow> Config \<Rightarrow> string list list \<Rightarrow> input \<Rightarrow> fsys
    \<Rightarrow> wizard_error option \<times> string list list \<times> fsys" where
  "finishSetup z path cfg cmds i2 fs =
     (case Validate cfg of
        (Some e, _) \<Rightarrow> (Some (BadConfig e), cmds, fs)
      | (None, cfg') \<Rightarrow>
          (case Save (z_marshal z) (z_save z) cfg' path fs of
             (Some e, fs') \<Rightarrow> (Some SaveFailed, cmds, fs')
           | (None, fs') \<Rightarrow> (case startService z cmds i2 of (e, cmds', i3) \<Rightarrow> (e, cmds', fs'))))"

definition WizardRun :: "'e wizard_env \<Rightarrow> string \<Rightarrow> input \<Rightarrow> fsys
    \<Rightarrow> (wizard_error option \<times> string list list \<times> fsys) option" where
  "WizardRun z path i0 fs =
     (let nics = z_nics z in
      if \<not> z_root z then Some (Some NotRoot, [], fs)
      else if length nics < 2 then Some (Some (FewNICs (length nics)), [], fs)
      else (case choosePorts nics i0 of
        None \<Rightarrow> None
      | Some (trusted, untrusted, cmds, i1) \<Rightarrow>
          (if trusted = untrusted then Some (Some SamePort, cmds, fs)
           else (case RecommendDedicated (detectHostResources (z_read z)) of
             None \<Rightarrow> None
           | Some rec \<Rightarrow>
               map_option (\<lambda>(cfg, i2). finishSetup z path cfg cmds i2 fs)
                 (gatherConfig z rec (baseConfig nics trusted untrusted) i1)))))"

section \<open>The port prompt\<close>

lemma pickOf_name: "pickOf nics s = Picked n \<Longrightarrow> n \<in> Name ` set nics"
  by (auto simp: pickOf_def split: if_splits option.splits prod.splits)

lemma pickOf_blank: "[] \<notin> Name ` set nics \<Longrightarrow> pickOf nics [] = Again"
  by (auto simp: pickOf_def atoi_def parseUint_def hasPrefix_def)

lemma pickIface_name: "pickIface nics cmds i = Some (n, r) \<Longrightarrow> n \<in> Name ` set nics"
  by (induction nics cmds i rule: pickIface.induct) (auto dest: pickOf_name split: pick.splits)


definition two_nics :: "nic list" where
  "two_nics = [\<lparr>Name = ''bond0'', Driver = ''bonding'', Up = True, Speed = [], XDP = ''generic''\<rparr>,
     \<lparr>Name = ''eth0'', Driver = ''mlx5_core'', Up = True, Speed = [], XDP = ''native''\<rparr>]"


text \<open>A name that starts with \<open>b\<close> is taken for a request to blink: such a port has to be chosen by number.\<close>

lemma b_names_need_index: "hasPrefix s ''b'' \<Longrightarrow> pickOf nics s \<noteq> Picked n"
  by (auto simp: pickOf_def split: option.splits prod.splits)

section \<open>The server list\<close>

lemma serverLoop_entries:
  "elems (fst (serverLoop acc inp)) =
   elems acc @ filter (\<lambda>e. \<exists>a p. ParseHostPort e = Inr (a, p)) (takeWhile (\<lambda>e. e \<noteq> []) (map trimSpace inp))"
  by (induction acc inp rule: serverLoop.induct) (auto simp: Let_def elems_appendSlice split: sum.splits)

text \<open>
  The allowlist the dialogue builds is what was there, followed by the entries up to the first
  blank line that parse as address and port, in the order they were typed.
\<close>

theorem serverLoop_collects:
  "elems (fst (serverLoop acc inp)) =
   elems acc @ filter (\<lambda>e. \<exists>a p. ParseHostPort e = Inr (a, p)) (takeWhile (\<lambda>e. e \<noteq> []) (map trimSpace inp))"
  by (rule serverLoop_entries)

section \<open>What Validate can still refuse\<close>

definition typed_rule :: "FlowMonitorCIDR \<Rightarrow> bool" where
  "typed_rule r \<longleftrightarrow> trimSpace (CIDR r) = CIDR r \<and> cidrAccepted (CIDR r) \<and>
     \<not> (PPSThreshold r = 0 \<and> f64_isZero (MbpsThreshold r)) \<and> \<not> f64_negative (MbpsThreshold r)"

lemma ruleOf_typed: "ruleOf pf cidr a b = Some r \<Longrightarrow> trimSpace cidr = cidr \<Longrightarrow> cidrAccepted cidr \<Longrightarrow> typed_rule r"
  by (auto simp: ruleOf_def typed_rule_def split: prod.splits option.splits if_splits)

lemma cidrLoop_typed:
  "\<forall>r \<in> set (elems acc). typed_rule r \<Longrightarrow> length (elems acc) \<le> 4096 \<Longrightarrow>
   (\<forall>r \<in> set (elems (fst (cidrLoop pf acc inp))). typed_rule r) \<and> length (elems (fst (cidrLoop pf acc inp))) \<le> 4096"
proof (induction "length inp" arbitrary: acc inp rule: less_induct)
  case less
  show ?case
  proof (cases "4096 \<le> length (elems acc) \<or> inp = []")
    case True
    then show ?thesis using less.prems by (subst (1 2) cidrLoop.simps) auto
  next
    case False
    then obtain l i0 where i: "inp = l # i0" by (cases inp) auto
    let ?c = "trimSpace l"
    obtain p i1 where p: "prompt ''0'' i0 = (p, i1)" by fastforce
    obtain q i2 where q: "prompt ''0'' i1 = (q, i2)" by fastforce
    have sh: "length i2 < length inp" "length i0 < length inp"
      using prompt_length [OF p] prompt_length [OF q] i by simp_all
    have step: "cidrLoop pf acc inp = (if ?c = [] then (acc, i0) else if \<not> cidrAccepted ?c then cidrLoop pf acc i0
        else (case ruleOf pf ?c p q of None \<Rightarrow> cidrLoop pf acc i2 | Some rule \<Rightarrow> cidrLoop pf (appendSlice acc rule) i2))"
      using False i p q by (subst cidrLoop.simps) (simp add: Let_def)
    have app: "\<forall>r \<in> set (elems (appendSlice acc rule)). typed_rule r" "length (elems (appendSlice acc rule)) \<le> 4096"
      if "ruleOf pf ?c p q = Some rule" "cidrAccepted ?c" for rule
      using ruleOf_typed [OF that(1) trimSpace_idem that(2)] less.prems(1) False by (auto simp: elems_appendSlice)
    show ?thesis
    proof (cases "?c = [] \<or> \<not> cidrAccepted ?c")
      case True
      then show ?thesis using step less.hyps [OF sh(2) less.prems] less.prems by auto
    next
      case acc: False
      then show ?thesis
        using step less.hyps [OF sh(1) less.prems] less.hyps [OF sh(1) app] by (cases "ruleOf pf ?c p q") simp_all
    qed
  qed
qed

lemma validateCIDRs_typed:
  "\<forall>r \<in> set rs. typed_rule r \<Longrightarrow> validateCIDRs i seen rs = Some e \<Longrightarrow> (\<exists>d. e = DuplicateCIDR d) \<or> (\<exists>k. e = BadMbps k)"
proof (induction rs arbitrary: i seen)
  case (Cons r rs)
  then have r: "typed_rule r" and rs: "\<forall>r \<in> set rs. typed_rule r" by simp_all
  obtain a n where n: "parseCIDR (CIDR r) = Some (a, n)" "to4 a \<noteq> None" "ipnetString n = CIDR r"
    using r by (auto simp: typed_rule_def cidrAccepted_def split: option.splits)
  have "validateCIDRs i seen (r # rs) =
      (if CIDR r \<in> set seen then Some (DuplicateCIDR (CIDR r))
       else if f64_isNaN (MbpsThreshold r) \<or> f64_isInf (MbpsThreshold r) then Some (BadMbps i)
       else validateCIDRs (Suc i) (CIDR r # seen) rs)"
    using r n by (auto simp: typed_rule_def)
  then show ?case using Cons.IH [OF rs] Cons.prems(2) by (auto split: if_splits)
qed simp

text \<open>What the dialogue establishes of the configuration before it is validated.\<close>

definition gathered :: "nic list \<Rightarrow> Config \<Rightarrow> bool" where
  "gathered nics c \<longleftrightarrow>
     TrustedIface c \<in> Name ` set nics \<and> UntrustedIface c \<in> Name ` set nics \<and> TrustedIface c \<noteq> UntrustedIface c \<and>
     Mode c \<in> {''monitor'', ''enforce''} \<and> XDPMode c \<in> {''native'', ''auto''} \<and>
     1024 \<le> FlowMax c \<and> (L1Size c = 0 \<or> 1024 \<le> L1Size c \<and> L1Size c AND (L1Size c - 1) = 0) \<and>
     (\<forall>s \<in> set (elems (ServerAllow c)). \<exists>a p. ParseHostPort s = Inr (a, p)) \<and>
     (let f = Flow_Monitoring c in
        0 < SampleEvery f \<and> SampleEvery f \<le> 65536 \<and> SampleEvery f AND (SampleEvery f - 1) = 0 \<and>
        1024 \<le> MaxFlows f \<and> MaxFlows f \<le> push_bit 20 1 \<and>
        (\<forall>r \<in> set (elems (CIDRs f)). typed_rule r) \<and> length (elems (CIDRs f)) \<le> 4096)"

lemma Validate_last:
  assumes "validateHead c = None" "normL1 (L1Size c) AND (normL1 (L1Size c) - 1) = 0"
    "validateServers (elems (ServerAllow c)) = None"
  shows "fst (Validate c) = fst (validateFlowMonitoring (Flow_Monitoring c))"
proof -
  have u: "(if UDPFlowMax c < 1024 then c\<lparr>UDPFlowMax := push_bit 22 1\<rparr> else c) =
     c\<lparr>UDPFlowMax := (if UDPFlowMax c < 1024 then 4194304 else UDPFlowMax c)\<rparr>" by simp
  have t: "(if TTLUdp d = 0 then d\<lparr>TTLUdp := 30\<rparr> else d) = d\<lparr>TTLUdp := (if TTLUdp d = 0 then 30 else TTLUdp d)\<rparr>" for d
    by simp
  show ?thesis
    unfolding Validate_def u Let_def validateL1_sel t using assms
    by (cases "validateFlowMonitoring (Flow_Monitoring c)") (simp add: normaliseRuntime_sel)
qed

lemma gathered_rejections:
  assumes g: "gathered nics c" and n: "[] \<notin> Name ` set nics" and v: "Validate c = (Some e, c')"
  shows "(\<exists>d. e = DuplicateCIDR d) \<or> (\<exists>k. e = BadMbps k)"
proof -
  have h: "validateHead c = None"
    using g n by (auto simp: gathered_def validateHead_None_iff)
  have l: "normL1 (L1Size c) AND (normL1 (L1Size c) - 1) = 0" using g by (auto simp: gathered_def normL1_def not_less)
  have s: "validateServers (elems (ServerAllow c)) = None" using g by (simp add: gathered_def validateServers_None_iff)
  have f: "fst (validateFlowMonitoring (Flow_Monitoring c)) = validateCIDRs 0 [] (elems (CIDRs (Flow_Monitoring c)))"
    using g by (auto simp: gathered_def validateFlowMonitoring_def Let_def not_less word_neq_0_conv)
  have "fst (Validate c) = validateCIDRs 0 [] (elems (CIDRs (Flow_Monitoring c)))"
    using Validate_last [OF h l s] f by simp
  then show ?thesis using v g validateCIDRs_typed [of "elems (CIDRs (Flow_Monitoring c))" 0 "[]" e]
    by (simp add: gathered_def Let_def)
qed

section \<open>The whole dialogue\<close>

lemma promptU32_valid: "promptU32 d v i = (x, r) \<Longrightarrow> x = d \<or> v x"
  by (auto simp: promptU32_def split: prod.splits option.splits if_splits)

lemma policyAnswers_gathered:
  assumes "gathered nics c" shows "gathered nics (fst (policyAnswers c i))"
proof -
  obtain m i1 where 1: "promptYN True i = (m, i1)" by fastforce
  obtain a i2 where 2: "promptYN True i1 = (a, i2)" by fastforce
  obtain u i3 where 3: "promptYN True i2 = (u, i3)" by fastforce
  obtain t i4 where 4: "promptYN False i3 = (t, i4)" by fastforce
  obtain y i5 where 5: "promptYN False i4 = (y, i5)" by fastforce
  obtain s i6 where 6: "promptYN False i5 = (s, i6)" by fastforce
  have "\<forall>e \<in> set (elems (fst (serverLoop (ServerAllow c) i6))). \<exists>a p. ParseHostPort e = Inr (a, p)"
    using assms by (auto simp: serverLoop_entries gathered_def)
  then show ?thesis
    using assms by (cases "serverLoop (ServerAllow c) i6") (simp add: policyAnswers_def 1 2 3 4 5 6 gathered_def Let_def)
qed

lemma sizingAnswers_gathered:
  assumes "gathered nics c" "1024 \<le> RecFlowMax rec" "RecL1Size rec = 0 \<or> 1024 \<le> RecL1Size rec \<and> is_pow2 (RecL1Size rec)"
  shows "gathered nics (fst (sizingAnswers rec c i))"
proof -
  obtain fm i1 where 1: "promptU32 (RecFlowMax rec) (\<lambda>v. 1024 \<le> v) i = (fm, i1)" by fastforce
  obtain um i2 where 2: "promptU32 (RecUDPFlowMax rec) (\<lambda>v. 1024 \<le> v) i1 = (um, i2)" by fastforce
  obtain l1 i3 where 3: "promptU32 (RecL1Size rec) (\<lambda>v. v = 0 \<or> 1024 \<le> v \<and> v AND (v - 1) = 0) i2 = (l1, i3)" by fastforce
  have "1024 \<le> fm" using promptU32_valid [OF 1] assms(2) by auto
  moreover have "l1 = 0 \<or> 1024 \<le> l1 \<and> l1 AND (l1 - 1) = 0"
    using promptU32_valid [OF 3] assms(3) by (auto simp: and_pred_word_iff)
  ultimately show ?thesis using assms(1) by (simp add: sizingAnswers_def 1 2 3 gathered_def)
qed

lemma monitorAnswers_gathered:
  assumes g: "gathered nics c" shows "gathered nics (fst (monitorAnswers pf c i))"
proof -
  obtain en i1 where 1: "promptYN False i = (en, i1)" by fastforce
  let ?f = "Flow_Monitoring c"
  obtain se i2 where 2: "promptU32 (SampleEvery ?f) (\<lambda>v. 0 < v \<and> v \<le> 65536 \<and> v AND (v - 1) = 0) i1 = (se, i2)" by fastforce
  obtain mf i3 where 3: "promptU32 (MaxFlows ?f) (\<lambda>v. 1024 \<le> v \<and> v \<le> 1048576) i2 = (mf, i3)" by fastforce
  have "0 < se \<and> se \<le> 65536 \<and> se AND (se - 1) = 0" using promptU32_valid [OF 2] g by (auto simp: gathered_def Let_def)
  moreover have "1024 \<le> mf \<and> mf \<le> 1048576" using promptU32_valid [OF 3] g by (auto simp: gathered_def Let_def)
  moreover have "(\<forall>r \<in> set (elems (fst (cidrLoop pf (CIDRs ?f) i3))). typed_rule r) \<and>
      length (elems (fst (cidrLoop pf (CIDRs ?f) i3))) \<le> 4096"
    by (rule cidrLoop_typed) (use g in \<open>auto simp: gathered_def Let_def\<close>)
  ultimately show ?thesis using g
    by (cases "cidrLoop pf (CIDRs ?f) i3") (simp add: monitorAnswers_def 1 2 3 gathered_def Let_def)
qed

lemma gatherConfig_gathered:
  assumes "gatherConfig z rec c i = Some (c', i')" "gathered nics c"
    "1024 \<le> RecFlowMax rec" "RecL1Size rec = 0 \<or> 1024 \<le> RecL1Size rec \<and> is_pow2 (RecL1Size rec)"
  shows "gathered nics c'"
proof -
  let ?p = "policyAnswers c i"
  let ?s = "sizingAnswers rec (fst ?p) (snd ?p)"
  let ?m = "monitorAnswers (z_float z) (fst ?s) (snd ?s)"
  have "gathered nics (fst ?m)"
    by (intro monitorAnswers_gathered sizingAnswers_gathered policyAnswers_gathered assms)
  moreover have "\<exists>b. c' = (fst ?m)\<lparr>Tune := b\<rparr>"
    using assms(1) unfolding gatherConfig_def tuneAnswer_def case_prod_beta by (auto split: if_splits)
  ultimately show ?thesis by (auto simp: gathered_def)
qed

lemma baseConfig_gathered:
  assumes "t \<in> Name ` set nics" "u \<in> Name ` set nics" "t \<noteq> u"
  shows "gathered nics (baseConfig nics t u)"
  using assms by (simp add: gathered_def baseConfig_def Default_def)

lemma choosePorts_names:
  "choosePorts nics i = Some (t, u, c, r) \<Longrightarrow> t \<in> Name ` set nics \<and> u \<in> Name ` set nics"
  by (auto simp: choosePorts_def dest: pickIface_name split: option.splits)

text \<open>The configuration the dialogue ends with, when it gets as far as validating one.\<close>

lemma WizardRun_config:
  assumes run: "WizardRun z path i fs = Some (e, cmds, fs')"
    and cpus: "PossibleCPUs (detectHostResources (z_read z)) < 2 ^ 32"
  obtains (early) "fs' = fs" "e \<in> {Some NotRoot, Some SamePort} \<or> (\<exists>n. e = Some (FewNICs n))"
  | (config) c i2 cs where "gathered (z_nics z) c" "finishSetup z path c cs i2 fs = (e, cmds, fs')"
proof (cases "fs' = fs \<and> (e \<in> {Some NotRoot, Some SamePort} \<or> (\<exists>n. e = Some (FewNICs n)))")
  case False
  let ?r = "detectHostResources (z_read z)"
  obtain rec where rec: "RecommendDedicated ?r = Some rec" "1024 \<le> RecFlowMax rec"
    "RecL1Size rec = 0 \<or> 4096 \<le> RecL1Size rec \<and> is_pow2 (RecL1Size rec)"
    using RecommendDedicated_Some [OF cpus] by blast
  have l1: "RecL1Size rec = 0 \<or> 1024 \<le> RecL1Size rec \<and> is_pow2 (RecL1Size rec)"
    using rec(3) by (auto intro: order_trans [of 1024 4096])
  obtain t u cs i1 where ports: "choosePorts (z_nics z) i = Some (t, u, cs, i1)" "t \<noteq> u"
    using run False by (auto simp: WizardRun_def Let_def split: option.splits if_splits)
  obtain c i2 where g: "gatherConfig z rec (baseConfig (z_nics z) t u) i1 = Some (c, i2)"
    and f: "finishSetup z path c cs i2 fs = (e, cmds, fs')"
    using run False ports rec(1) by (auto simp: WizardRun_def Let_def split: option.splits if_splits)
  have "gathered (z_nics z) c"
    using gatherConfig_gathered [OF g _ rec(2) l1] baseConfig_gathered choosePorts_names [OF ports(1)] ports(2) by blast
  then show thesis using config f by blast
qed (use early in blast)

text \<open>C39: 
  The dialogue checks every answer it takes, so that validation at its end can refuse a
  configuration for two reasons only, which no prompt checks: a monitored network entered twice, and a
  bit-rate threshold that is not a finite number.
\<close>

theorem wizard_rejections:
  assumes run: "WizardRun z path i fs = Some (Some (BadConfig e), cmds, fs')"
    and names: "[] \<notin> Name ` set (z_nics z)"
    and cpus: "PossibleCPUs (detectHostResources (z_read z)) < 2 ^ 32"
  shows "(\<exists>d. e = DuplicateCIDR d) \<or> (\<exists>k. e = BadMbps k)"
proof (rule WizardRun_config [OF run cpus])
  fix c i2 cs
  assume g: "gathered (z_nics z) c" and "finishSetup z path c cs i2 fs = (Some (BadConfig e), cmds, fs')"
  then have "fst (Validate c) = Some e"
    by (auto simp: finishSetup_def startService_def Let_def split: prod.splits option.splits if_splits)
  then show ?thesis using gathered_rejections [OF g names] by (metis prod.collapse)
qed auto

lemma withNormalised_ports:
  "TrustedIface (withNormalised c c') = TrustedIface c" "UntrustedIface (withNormalised c c') = UntrustedIface c"
  by (simp_all add: withNormalised_def)

lemma startService_error: "startService z cs i = (e, r) \<Longrightarrow> e \<in> {None, Some EnableFailed, Some StartFailed}"
  by (auto simp: startService_def Let_def split: prod.splits if_splits)


section \<open>A sample dialogue\<close>

definition setupEnv :: "(Config \<Rightarrow> string option) \<Rightarrow> (string, string) kmap wizard_env" where
  "setupEnv mar = \<lparr>z_root = True, z_nics = two_nics, z_float = (\<lambda>s. if s = ''0'' then Some 0 else None),
     z_read = (\<lambda>p. ([], Some ErrNotExist)), z_machine = box, z_host = [], z_marshal = mar,
     z_save = \<lparr>mkdir_ok = True, write_ok = True, write_left = None, rename_ok = True\<rparr>, z_systemctl = (\<lambda>c. True)\<rparr>"

text \<open>Ports 1 and 0, policy by default, explicit sizes, two rules for one network, no tuning.\<close>

definition dupAnswers :: input where
  "dupAnswers = [''1'', ''0'', [], [], [], [], [], [], ''2048'', ''2048'', ''0'', ''y'', [], [],
     ''10.0.0.0/24'', ''1000'', [], ''10.0.0.0/24'', ''5'', [], [], ''n'']"

definition plainAnswers :: input where
  "plainAnswers = [''1'', ''0'', [], [], [], [], [], [], ''2048'', ''2048'', ''0'', ''n'', ''n'', ''n'', ''n'']"

definition plainConfig :: Config where
  "plainConfig = Default\<lparr>TrustedIface := ''eth0'', UntrustedIface := ''bond0'', XDPMode := ''auto'', FlowMax := 2048,
     UDPFlowMax := 2048, L1Size := 0, Tune := False\<rparr>"

lemma setup_names: "[] \<notin> Name ` set (z_nics (setupEnv mar))"
  by (simp add: setupEnv_def two_nics_def)

lemma setup_cpus: "PossibleCPUs (detectHostResources (z_read (setupEnv mar))) < 2 ^ 32"
proof -
  have "PossibleCPUs (detectHostResources (\<lambda>p. ([], Some ErrNotExist))) < 2 ^ 32" by code_simp
  then show ?thesis by (simp add: setupEnv_def)
qed

lemma dup_run: "map_option fst (WizardRun (setupEnv (\<lambda>c. Some [])) ''/c'' dupAnswers Map.empty) = Some (Some (BadConfig (DuplicateCIDR ''10.0.0.0/24'')))"
  by code_simp

lemma plain_run: "map_option (\<lambda>r. (fst r, snd (snd r) ''/c'')) (WizardRun (setupEnv (\<lambda>c. if c = plainConfig then Some ''x'' else None)) ''/c'' plainAnswers Map.empty) = Some (None, Some ''x'')"
  by code_simp

theorem wizard_rejections_witness:
  "\<exists>e cmds fs'. WizardRun (setupEnv (\<lambda>c. Some [])) ''/c'' dupAnswers Map.empty = Some (Some (BadConfig e), cmds, fs') \<and>
     ((\<exists>d. e = DuplicateCIDR d) \<or> (\<exists>k. e = BadMbps k))"
proof -
  obtain cmds fs' where r: "WizardRun (setupEnv (\<lambda>c. Some [])) ''/c'' dupAnswers Map.empty =
      Some (Some (BadConfig (DuplicateCIDR ''10.0.0.0/24'')), cmds, fs')"
    using dup_run unfolding map_option_eq_Some by (elim exE conjE) (rule that, simp add: prod_eq_iff)
  then show ?thesis using wizard_rejections [OF r setup_names setup_cpus] by blast
qed


end
