(* ===== verification/Controller.thy ===== *)
theory Controller
  imports Dataplane_Props
begin

text \<open>
  The controller of the operations console, \<open>internal/manage/controller.go\<close>: a staged
  copy of the configuration, conflict detection by the hash of the file, the live update
  followed by the atomic save, and the stop, detach, start sequence of a reattachment with
  its restore paths. The world is the file system, the objects pinned under every pin
  directory and the log of service commands. SHA-256, the YAML codec and the outcomes of
  system calls and of \<open>systemctl\<close> are parameters. What a started daemon does to the pinned
  objects is the loader of theory Dataplane and not part of a service command here.
\<close>

section \<open>State\<close>

record 'h Controller =
  CtlPath :: string
  Base :: "Config option"
  Staged :: "Config option"
  activePinDir :: string
  ctlHash :: "'h option"

record world =
  w_fs :: fsys
  w_hosts :: "string \<Rightarrow> host"
  w_service :: "string list"

record ApplyResult =
  Changes :: ChangeSet
  Previous :: "Config option"
  Active :: bool

datatype ctl_error =
    CtlLoad config_error | CtlHash | ErrConfigChanged | CtlInvalid config_error | CtlPolicy load_error | CtlSave
  | CtlUnsupported string | CtlCommand string | CtlStop ctl_error | CtlDetach | CtlRestoreConfig | CtlRestoreDatapath | CtlRestored

text \<open>The outcomes of one call: the codec, the hash, and what the system answers.\<close>

record 'h ctl_env =
  unmarshal :: "string \<Rightarrow> Config \<Rightarrow> Config option"
  marshal :: "Config \<Rightarrow> string option"
  sha :: "string \<Rightarrow> 'h"
  hash_read_ok :: bool
  rehash_read_ok :: bool
  save_os :: save_calls
  policy_sys :: sysenv
  restore_sys :: sysenv
  detach_gone :: "string \<Rightarrow> bool"
  service_ok :: "nat \<Rightarrow> bool"

definition fileHash :: "('h, 'z) ctl_env_scheme \<Rightarrow> bool \<Rightarrow> string \<Rightarrow> world \<Rightarrow> 'h option" where
  "fileHash env ok path w = (if ok then map_option (sha env) (w_fs w path) else None)"

section \<open>Reload and Apply\<close>

definition Reload :: "'h ctl_env \<Rightarrow> world \<Rightarrow> 'h Controller \<Rightarrow> ctl_error option \<times> 'h Controller" where
  "Reload env w c =
     (case Load (unmarshal env) (w_fs w) (CtlPath c) of
        Inl e \<Rightarrow> (Some (CtlLoad e), c)
      | Inr cfg \<Rightarrow>
          (case fileHash env (hash_read_ok env) (CtlPath c) w of
             None \<Rightarrow> (Some CtlHash, c)
           | Some h \<Rightarrow>
               (let c1 = c\<lparr>Base := Some (Clone cfg), ctlHash := Some h, Staged := Some (Clone cfg)\<rparr> in
                (None, if activePinDir c1 = [] then c1\<lparr>activePinDir := PinDir cfg\<rparr> else c1))))"

definition NewController :: "'h ctl_env \<Rightarrow> world \<Rightarrow> string \<Rightarrow> ctl_error + 'h Controller" where
  "NewController env w path =
     (case Reload env w \<lparr>CtlPath = path, Base = None, Staged = None, activePinDir = [], ctlHash = None\<rparr> of
        (Some e, _) \<Rightarrow> Inl e
      | (None, c) \<Rightarrow> Inr c)"

definition Dirty :: "'h Controller \<Rightarrow> bool" where
  "Dirty c \<longleftrightarrow> \<not> csEmpty (Diff (Base c) (Staged c))"

definition onHost :: "string \<Rightarrow> (dp \<Rightarrow> load_error option \<times> dp) \<Rightarrow> world \<Rightarrow> load_error option \<times> world" where
  "onHost pin f w = (case f (h_dp (w_hosts w pin)) of
     (e, d) \<Rightarrow> (e, w\<lparr>w_hosts := (w_hosts w)(pin := (w_hosts w pin)\<lparr>h_dp := d\<rparr>)\<rparr>))"

text \<open>
  The second half of \<open>Apply\<close>: persisting \<open>next\<close> in the world \<open>w\<close>, with the map state
  restored when the save fails and the data path is active.
\<close>

definition persist :: "'h ctl_env \<Rightarrow> ApplyResult \<Rightarrow> Config \<Rightarrow> 'h Controller \<Rightarrow> world
    \<Rightarrow> ApplyResult \<times> ctl_error option \<times> 'h Controller \<times> world" where
  "persist env res nxt c w =
     (case Save (marshal env) (save_os env) nxt (CtlPath c) (w_fs w) of
        (Some _, fs') \<Rightarrow>
          (let w1 = w\<lparr>w_fs := fs'\<rparr> in
           (res, Some CtlSave, c,
            if Active res then snd (onHost (activePinDir c) (ReloadPolicy (restore_sys env) (the (Base c))) w1) else w1))
      | (None, fs') \<Rightarrow>
          (let w1 = w\<lparr>w_fs := fs'\<rparr> in
           case fileHash env (rehash_read_ok env) (CtlPath c) w1 of
             None \<Rightarrow> (res, Some CtlHash, c, w1)
           | Some h \<Rightarrow>
               (let c1 = c\<lparr>Base := Some (Clone nxt), ctlHash := Some h, Staged := Some (Clone nxt)\<rparr> in
                (res, None,
                 if Impact (Changes res) < ImpactReattach then c1\<lparr>activePinDir := PinDir nxt\<rparr> else c1, w1))))"

definition Apply :: "'h ctl_env \<Rightarrow> 'h Controller \<Rightarrow> world \<Rightarrow> ApplyResult \<times> ctl_error option \<times> 'h Controller \<times> world" where
  "Apply env c w =
     (let changes = Diff (Base c) (Staged c);
          res = \<lparr>Changes = changes, Previous = map_option Clone (Base c), Active = False\<rparr> in
      if csEmpty changes then (res, None, c, w)
      else case fileHash env (hash_read_ok env) (CtlPath c) w of
        None \<Rightarrow> (res, Some CtlHash, c, w)
      | Some h \<Rightarrow>
          (if Some h \<noteq> ctlHash c then (res, Some ErrConfigChanged, c, w)
           else (case Validate (Clone (the (Staged c))) of
             (Some e, _) \<Rightarrow> (res, Some (CtlInvalid e), c, w)
           | (None, nxt) \<Rightarrow>
               (case OpenPinned (w_hosts w (activePinDir c)) of
                  Some _ \<Rightarrow> persist env res nxt c w
                | None \<Rightarrow>
                    (let res1 = res\<lparr>Active := True\<rparr> in
                     case onHost (activePinDir c) (ReloadPolicy (policy_sys env) nxt) w of
                       (Some e, w1) \<Rightarrow> (res1, Some (CtlPolicy e), c, w1)
                     | (None, w1) \<Rightarrow> persist env res1 nxt c w1)))))"

section \<open>The service and reattachment\<close>

text \<open>
  A service command is logged; \<open>service_ok n\<close> is the outcome of the \<open>n\<close>-th command the
  world has seen.
\<close>

definition ServiceAction :: "(nat \<Rightarrow> bool) \<Rightarrow> string \<Rightarrow> world \<Rightarrow> ctl_error option \<times> world" where
  "ServiceAction ok action w =
     (if action \<notin> set [''start'', ''stop'', ''restart'', ''reload'', ''enable'', ''disable''] then (Some (CtlUnsupported action), w)
      else (if ok (length (w_service w)) then None else Some (CtlCommand action),
            w\<lparr>w_service := w_service w @ [action]\<rparr>))"

definition ServiceState :: "string option \<Rightarrow> string" where
  "ServiceState out = (case out of
     None \<Rightarrow> ''unavailable''
   | Some s \<Rightarrow> (let parts = strFields s in if parts = [] then ''unknown'' else joinWith ''/'' parts))"

text \<open>The restore path that both failures of a reattachment share.\<close>

definition restoreOld :: "'h ctl_env \<Rightarrow> Config \<Rightarrow> 'h Controller \<Rightarrow> world \<Rightarrow> ctl_error \<times> 'h Controller \<times> world" where
  "restoreOld env previous c w =
     (case Save (marshal env) (save_os env) previous (CtlPath c) (w_fs w) of
        (Some _, fs') \<Rightarrow> (CtlRestoreConfig, c, w\<lparr>w_fs := fs'\<rparr>)
      | (None, fs') \<Rightarrow>
          (case ServiceAction (service_ok env) ''start'' (w\<lparr>w_fs := fs'\<rparr>) of
             (re, w1) \<Rightarrow> (if re \<noteq> None then CtlRestoreDatapath else CtlRestored, snd (Reload env w1 c), w1)))"

definition Reattach :: "'h ctl_env \<Rightarrow> Config \<Rightarrow> 'h Controller \<Rightarrow> world \<Rightarrow> ctl_error option \<times> 'h Controller \<times> world" where
  "Reattach env previous c w =
     (case ServiceAction (service_ok env) ''stop'' w of
        (Some e, w1) \<Rightarrow> (Some (CtlStop e), c, w1)
      | (None, w1) \<Rightarrow>
          (case Detach (detach_gone env) (w_hosts w1 (PinDir previous)) of
             (de, h) \<Rightarrow>
               (let w2 = w1\<lparr>w_hosts := (w_hosts w1)(PinDir previous := h)\<rparr> in
                if de \<noteq> None then (case restoreOld env previous c w2 of (e, c', w') \<Rightarrow> (Some e, c', w'))
                else (case ServiceAction (service_ok env) ''start'' w2 of
                        (None, w3) \<Rightarrow> (None, c\<lparr>activePinDir := PinDir (the (Base c))\<rparr>, w3)
                      | (Some _, w3) \<Rightarrow> (case restoreOld env previous c w3 of (e, c', w') \<Rightarrow> (Some e, c', w'))))))"

section \<open>Facts\<close>

lemma Save_ok: "Save mar os c path fs = (None, fs') \<Longrightarrow> \<exists>b. mar c = Some b \<and> fs' path = Some b"
  by (auto simp: Save_def Let_def split: if_splits option.splits)

lemma Save_err: "Save mar os c path fs = (Some e, fs') \<Longrightarrow> fs' path = fs path"
  by (auto simp: Save_def Let_def split: if_splits option.splits)

lemma wf_config_Clone [simp]: "wf_config (Clone c) \<longleftrightarrow> wf_config c"
  by (simp add: wf_config_def wf_monitoring_def Clone_def)

lemma Clone_idem [simp]: "Clone (Clone c) = Clone c"
  by (simp add: Clone_def)

lemma rulesDeepEqual_refl: "(\<And>r. r \<in> set (elems xs) \<Longrightarrow> \<not> f64_isNaN (MbpsThreshold r)) \<Longrightarrow> rulesDeepEqual xs xs"
  by (cases xs) (auto simp: rulesDeepEqual_def ruleDeepEqual_def f64_eq_def list_all2_same)

lemma Diff_same:
  assumes "wf_config c"
  shows "csEmpty (Diff (Some (Clone c)) (Some (Clone c)))"
proof -
  have "rulesDeepEqual (CIDRs (Flow_Monitoring (Clone c))) (CIDRs (Flow_Monitoring (Clone c)))"
    using assms by (intro rulesDeepEqual_refl) (auto simp: Clone_def wf_config_def wf_monitoring_def wf_rule_def)
  then show ?thesis unfolding csEmpty_def Diff_Fields by (simp add: diffTable_def)
qed

text \<open>A live update on the host of one pin directory.\<close>

lemma onHost_policy:
  assumes "onHost pin (ReloadPolicy sys cfg) w = (e, w')" and "maps_inv (h_dp (w_hosts w pin))"
    and "fair_order (allow_env sys)" and "fair_order (cidr_env sys)"
  shows "w_fs w' = w_fs w \<and> w_service w' = w_service w \<and> (\<forall>p. p \<noteq> pin \<longrightarrow> w_hosts w' p = w_hosts w p) \<and>
    h_pins (w_hosts w' pin) = h_pins (w_hosts w pin) \<and> h_links (w_hosts w' pin) = h_links (w_hosts w pin) \<and>
    ctl_only (h_dp (w_hosts w pin)) (h_dp (w_hosts w' pin)) \<and>
    (e = None \<longrightarrow> ctl_ok cfg (h_dp (w_hosts w' pin)) \<and> maps_inv (h_dp (w_hosts w' pin)))"
proof -
  obtain d where r: "ReloadPolicy sys cfg (h_dp (w_hosts w pin)) = (e, d)"
    and w': "w' = w\<lparr>w_hosts := (w_hosts w)(pin := (w_hosts w pin)\<lparr>h_dp := d\<rparr>)\<rparr>"
    using assms(1) by (auto simp: onHost_def split: prod.splits)
  from ReloadPolicy_frame [OF r assms(2-4)] show ?thesis by (simp add: w')
qed

lemma fst_prod: "fst p = a \<Longrightarrow> p = (a, snd p)"
  by (cases p) simp

text \<open>The ways through \<open>persist\<close>.\<close>

lemma persist_cases:
  assumes "persist env res nxt c w = (res', e, c', w')"
  obtains (save_failed) fs' where "Save (marshal env) (save_os env) nxt (CtlPath c) (w_fs w) = (Some SaveError, fs')"
      "e = Some CtlSave" "c' = c" "res' = res"
      "w' = (if Active res then snd (onHost (activePinDir c) (ReloadPolicy (restore_sys env) (the (Base c))) (w\<lparr>w_fs := fs'\<rparr>)) else w\<lparr>w_fs := fs'\<rparr>)"
    | (hash_failed) fs' where "Save (marshal env) (save_os env) nxt (CtlPath c) (w_fs w) = (None, fs')"
      "e = Some CtlHash" "c' = c" "res' = res" "w' = w\<lparr>w_fs := fs'\<rparr>"
    | (saved) fs' b where "Save (marshal env) (save_os env) nxt (CtlPath c) (w_fs w) = (None, fs')"
      "marshal env nxt = Some b" "fs' (CtlPath c) = Some b" "e = None" "res' = res" "w' = w\<lparr>w_fs := fs'\<rparr>"
      "Base c' = Some (Clone nxt)" "Staged c' = Some (Clone nxt)" "ctlHash c' = Some (sha env b)" "CtlPath c' = CtlPath c"
proof -
  obtain se fs' where s: "Save (marshal env) (save_os env) nxt (CtlPath c) (w_fs w) = (se, fs')" by fastforce
  show ?thesis
  proof (cases se)
    case (Some x)
    then have "x = SaveError" using s by (auto simp: Save_def Let_def split: if_splits option.splits)
    with Some s assms show ?thesis by (intro save_failed [of fs']) (auto simp: persist_def Let_def)
  next
    case None
    then obtain b where b: "marshal env nxt = Some b" "fs' (CtlPath c) = Some b" using Save_ok s by metis
    show ?thesis
    proof (cases "rehash_read_ok env")
      case True
      with None s b assms have "e = None" "res' = res" "w' = w\<lparr>w_fs := fs'\<rparr>" "Base c' = Some (Clone nxt)"
        "Staged c' = Some (Clone nxt)" "ctlHash c' = Some (sha env b)" "CtlPath c' = CtlPath c"
        by (auto simp: persist_def Let_def fileHash_def split: if_splits)
      with None s b show ?thesis by (intro saved [of fs' b]) simp_all
    next
      case False
      with None s assms show ?thesis by (intro hash_failed [of fs']) (auto simp: persist_def Let_def fileHash_def)
    qed
  qed
qed

text \<open>The ways through \<open>Apply\<close> with something to apply.\<close>

lemma Apply_cases:
  assumes "Apply env c w = (res, e, c', w')" and "\<not> csEmpty (Diff (Base c) (Staged c))"
  obtains (untouched) "e = Some CtlHash \<or> e = Some ErrConfigChanged \<or> (\<exists>x. e = Some (CtlInvalid x))" "c' = c" "w' = w"
    | (offline) nxt res0 where "Validate (Clone (the (Staged c))) = (None, nxt)" "\<not> Active res0"
        "fileHash env (hash_read_ok env) (CtlPath c) w = ctlHash c" "ctlHash c \<noteq> None"
        "persist env res0 nxt c w = (res, e, c', w')"
    | (policy_failed) nxt x where "Validate (Clone (the (Staged c))) = (None, nxt)" "c' = c" "Active res"
        "onHost (activePinDir c) (ReloadPolicy (policy_sys env) nxt) w = (Some x, w')" "e = Some (CtlPolicy x)"
    | (online) nxt res0 w1 where "Validate (Clone (the (Staged c))) = (None, nxt)" "Active res0"
        "fileHash env (hash_read_ok env) (CtlPath c) w = ctlHash c" "ctlHash c \<noteq> None"
        "onHost (activePinDir c) (ReloadPolicy (policy_sys env) nxt) w = (None, w1)"
        "persist env res0 nxt c w1 = (res, e, c', w')"
proof -
  let ?cs = "Diff (Base c) (Staged c)"
  let ?res = "\<lparr>Changes = ?cs, Previous = map_option Clone (Base c), Active = False\<rparr>"
  note a = assms(1) [unfolded Apply_def Let_def if_not_P [OF assms(2)]]
  show ?thesis
  proof (cases "fileHash env (hash_read_ok env) (CtlPath c) w")
    case None
    with a show ?thesis by (intro untouched) auto
  next
    case (Some h)
    note h = this
    obtain ve nxt where v: "Validate (Clone (the (Staged c))) = (ve, nxt)" by fastforce
    show ?thesis
    proof (cases "Some h = ctlHash c \<and> ve = None")
      case False
      with a h v show ?thesis by (intro untouched) (auto split: if_splits option.splits)
    next
      case True
      then have hv: "ctlHash c = Some h" "ve = None" by simp_all
      show ?thesis
      proof (cases "OpenPinned (w_hosts w (activePinDir c))")
        case (Some x)
        with a h v hv have "persist env ?res nxt c w = (res, e, c', w')" by simp
        with hv h v show ?thesis by (intro offline [of nxt ?res]) auto
      next
        case None
        obtain pe w1 where p: "onHost (activePinDir c) (ReloadPolicy (policy_sys env) nxt) w = (pe, w1)" by fastforce
        with None a h v hv have *: "(case pe of Some x \<Rightarrow> (?res\<lparr>Active := True\<rparr>, Some (CtlPolicy x), c, w1)
            | None \<Rightarrow> persist env (?res\<lparr>Active := True\<rparr>) nxt c w1) = (res, e, c', w')"
          by (cases pe) auto
        show ?thesis
        proof (cases pe)
          case None
          with * have "persist env (?res\<lparr>Active := True\<rparr>) nxt c w1 = (res, e, c', w')" by simp
          with hv h v p None show ?thesis by (intro online [of nxt "?res\<lparr>Active := True\<rparr>" w1]) auto
        next
          case (Some x)
          with * v hv p show ?thesis by (intro policy_failed [of nxt x]) auto
        qed
      qed
    qed
  qed
qed

section \<open>Properties\<close>

text \<open>The environment a live update needs: well-formed maps and Go's map iteration.\<close>

definition live_env :: "'h ctl_env \<Rightarrow> 'h Controller \<Rightarrow> world \<Rightarrow> bool" where
  "live_env env c w \<longleftrightarrow> maps_inv (h_dp (w_hosts w (activePinDir c))) \<and>
     fair_order (allow_env (policy_sys env)) \<and> fair_order (cidr_env (policy_sys env)) \<and>
     fair_order (allow_env (restore_sys env)) \<and> fair_order (cidr_env (restore_sys env))"

lemma ctl_only_trans: "ctl_only a b \<Longrightarrow> ctl_only b c \<Longrightarrow> ctl_only a c"
  unfolding ctl_only_def by (cases a; cases b; cases c) simp

lemma ctl_only_refl [simp]: "ctl_only a a"
  by (simp add: ctl_only_def)

text \<open>What an \<open>Apply\<close> can change in the world at all, whatever its outcome.\<close>

definition apply_frame :: "'h Controller \<Rightarrow> world \<Rightarrow> world \<Rightarrow> bool" where
  "apply_frame c w w' \<longleftrightarrow> w_service w' = w_service w \<and>
     (\<forall>p. p \<noteq> activePinDir c \<longrightarrow> w_hosts w' p = w_hosts w p) \<and>
     h_pins (w_hosts w' (activePinDir c)) = h_pins (w_hosts w (activePinDir c)) \<and>
     h_links (w_hosts w' (activePinDir c)) = h_links (w_hosts w (activePinDir c)) \<and>
     ctl_only (h_dp (w_hosts w (activePinDir c))) (h_dp (w_hosts w' (activePinDir c)))"

lemma apply_frame_refl [simp]: "apply_frame c w w" "apply_frame c w (w\<lparr>w_fs := fs\<rparr>)"
  by (simp_all add: apply_frame_def)

lemma apply_frame_fs [simp]: "apply_frame c (w\<lparr>w_fs := fs\<rparr>) w' = apply_frame c w w'"
  "apply_frame c w (w'\<lparr>w_fs := fs\<rparr>) = apply_frame c w w'"
  by (simp_all add: apply_frame_def)

lemma apply_frame_trans: "apply_frame c w w1 \<Longrightarrow> apply_frame c w1 w2 \<Longrightarrow> apply_frame c w w2"
  by (auto simp: apply_frame_def intro: ctl_only_trans)

lemma onHost_frame:
  assumes "onHost (activePinDir c) (ReloadPolicy sys cfg) w = (e, w')" and "maps_inv (h_dp (w_hosts w (activePinDir c)))"
    and "fair_order (allow_env sys)" and "fair_order (cidr_env sys)"
  shows "apply_frame c w w'" "w_fs w' = w_fs w"
    "e = None \<Longrightarrow> ctl_ok cfg (h_dp (w_hosts w' (activePinDir c)))"
    "e = None \<Longrightarrow> maps_inv (h_dp (w_hosts w' (activePinDir c)))"
  using onHost_policy [OF assms] by (simp_all add: apply_frame_def)

lemma persist_error:
  assumes "persist env res nxt c w = (res', Some e, c', w')" and "live_env env c w"
  shows "c' = c \<and> apply_frame c w w' \<and> (e = CtlSave \<or> e = CtlHash) \<and> (e \<noteq> CtlHash \<longrightarrow> w_fs w' (CtlPath c) = w_fs w (CtlPath c))"
  using assms(1)
proof (cases rule: persist_cases)
  case (save_failed fs')
  obtain r w2 where o: "onHost (activePinDir c) (ReloadPolicy (restore_sys env) (the (Base c))) (w\<lparr>w_fs := fs'\<rparr>) = (r, w2)"
    by fastforce
  have "apply_frame c w w2 \<and> w_fs w2 = fs'"
    using onHost_frame [OF o] assms(2) by (simp add: live_env_def)
  with save_failed Save_err [OF save_failed(1)] o show ?thesis by auto
qed auto

text \<open>C24: \<open>Apply\<close> fails cleanly: on every error the controller is as before, no service command
  was issued, every other pin directory is untouched and at the active one nothing but
  policy, allowlist and monitored networks can have changed. A conflicting edit of the file
  or an invalid configuration changes nothing at all, and the configuration file is as it
  was unless the error is the hash that is read after a completed save.\<close>

theorem Apply_error:
  assumes "Apply env c w = (res, Some e, c', w')" and "live_env env c w"
  shows "c' = c \<and> apply_frame c w w' \<and>
    (e = ErrConfigChanged \<or> (\<exists>x. e = CtlInvalid x) \<longrightarrow> w' = w) \<and>
    (e \<noteq> CtlHash \<longrightarrow> w_fs w' (CtlPath c) = w_fs w (CtlPath c))"
proof (cases "csEmpty (Diff (Base c) (Staged c))")
  case True
  with assms(1) show ?thesis by (simp add: Apply_def)
next
  case False
  note l = assms(2) [unfolded live_env_def]
  from assms(1) False show ?thesis
  proof (cases rule: Apply_cases)
    case (offline nxt res0)
    from persist_error [OF offline(5) assms(2)] show ?thesis by auto
  next
    case (policy_failed nxt x)
    from onHost_frame(1,2) [OF policy_failed(4)] l policy_failed show ?thesis by auto
  next
    case (online nxt res0 w1)
    note f = onHost_frame [OF online(5)]
    have "live_env env c w1" using f l by (simp add: live_env_def)
    from persist_error [OF online(6) this] f(1,2) l show ?thesis by (auto intro: apply_frame_trans)
  qed auto
qed

text \<open>C23: What a successful \<open>Apply\<close> of actual changes leaves: the validated staged configuration is
  base and staged copy, nothing is dirty, the stored hash is that of the file, the file
  holds the encoding of the configuration and loads back to it when the decoder inverts the
  encoder, and a running data path follows it.\<close>

theorem Apply_ok:
  assumes "Apply env c w = (res, None, c', w')" and "Dirty c" and "live_env env c w"
  shows "\<exists>nxt b. Validate (Clone (the (Staged c))) = (None, nxt) \<and> wf_config nxt \<and>
    Base c' = Some (Clone nxt) \<and> Staged c' = Some (Clone nxt) \<and> \<not> Dirty c' \<and>
    marshal env nxt = Some b \<and> w_fs w' (CtlPath c') = Some b \<and> ctlHash c' = Some (sha env b) \<and>
    (unmarshal env b Default = Some nxt \<longrightarrow> Load (unmarshal env) (w_fs w') (CtlPath c') = Inr nxt) \<and>
    apply_frame c w w' \<and> (Active res \<longrightarrow> ctl_ok nxt (h_dp (w_hosts w' (activePinDir c))))"
proof -
  have p: ?thesis if v: "Validate (Clone (the (Staged c))) = (None, nxt)" and ps: "persist env res nxt c w1 = (res, None, c', w')"
    and fr: "apply_frame c w w1" and ok: "Active res \<longrightarrow> ctl_ok nxt (h_dp (w_hosts w1 (activePinDir c)))" for nxt w1
  proof -
    have wf: "wf_config nxt" using Validate_wf v by blast
    from ps show ?thesis
    proof (cases rule: persist_cases)
      case (saved fs' b)
      have "\<not> Dirty c'" using Diff_same [OF wf] saved by (simp add: Dirty_def)
      moreover have "Load (unmarshal env) fs' (CtlPath c) = Inr nxt" if "unmarshal env b Default = Some nxt"
        using that saved Validate_id [OF wf] by (simp add: Load_def)
      ultimately show ?thesis using saved v wf fr ok by (intro exI [of _ nxt] exI [of _ b]) simp
    qed auto
  qed
  have res: "res0 = res" if "persist env res0 nxt c w1 = (res, None, c', w')" for res0 nxt w1
    using that by (cases rule: persist_cases) auto
  note l = assms(3) [unfolded live_env_def]
  from assms(1,2) [unfolded Dirty_def not_not] show ?thesis
  proof (cases rule: Apply_cases)
    case (offline nxt res0)
    with res [OF offline(5)] show ?thesis by (intro p [of nxt w]) auto
  next
    case (online nxt res0 w1)
    note f = onHost_frame [OF online(5)]
    with l online res [OF online(6)] show ?thesis by (intro p [of nxt w1]) auto
  qed auto
qed

text \<open>The rollback of a live update: when the save fails while the data path is active, and the
  map calls of the second reload pass, the running policy is again that of the base
  configuration.\<close>

theorem Apply_rollback:
  assumes "Apply env c w = (res, Some CtlSave, c', w')" and "live_env env c w" and "Active res"
    and "Base c = Some base" and "wf_config base" and "length (elems (ServerAllow base)) \<le> 1024"
    and "\<forall>r \<in> set (elems (CIDRs (Flow_Monitoring base))). trimSpace (CIDR r) = CIDR r"
    and "features_ok (restore_sys env)" and "sy_iter_ok (allow_env (restore_sys env))" and "\<And>x. sy_ok (allow_env (restore_sys env)) x"
    and "sy_iter_ok (cidr_env (restore_sys env))" and "\<And>x. sy_ok (cidr_env (restore_sys env)) x"
  shows "ctl_ok base (h_dp (w_hosts w' (activePinDir c)))"
proof -
  note l = assms(2) [unfolded live_env_def]
  let ?pin = "activePinDir c"
  have p: ?thesis if "persist env res0 nxt c w1 = (res, Some CtlSave, c', w')" and i: "maps_inv (h_dp (w_hosts w1 ?pin))" for res0 nxt w1
    using that(1)
  proof (cases rule: persist_cases)
    case (save_failed fs')
    obtain r w2 where o: "onHost ?pin (ReloadPolicy (restore_sys env) base) (w1\<lparr>w_fs := fs'\<rparr>) = (r, w2)" by fastforce
    have "fst (ReloadPolicy (restore_sys env) base (h_dp (w_hosts w1 ?pin))) = None"
      by (rule ReloadPolicy_passes) (use assms i l in auto)
    with o have "r = None" by (auto simp: onHost_def split: prod.splits)
    then show ?thesis using onHost_frame(3) [OF o] i l save_failed o assms(3,4) by simp
  qed auto
  have "\<not> csEmpty (Diff (Base c) (Staged c))" using assms(1) by (auto simp: Apply_def Let_def split: if_splits)
  from assms(1) this show ?thesis
  proof (cases rule: Apply_cases)
    case (offline nxt res0)
    then show ?thesis using l by (intro p) auto
  next
    case (online nxt res0 w1)
    from onHost_frame(4) [OF online(5)] l show ?thesis by (intro p [OF online(6)]) auto
  qed auto
qed

lemma ServiceAction_start_stop:
  "ServiceAction ok ''start'' w = (if ok (length (w_service w)) then None else Some (CtlCommand ''start''), w\<lparr>w_service := w_service w @ [''start'']\<rparr>)"
  "ServiceAction ok ''stop'' w = (if ok (length (w_service w)) then None else Some (CtlCommand ''stop''), w\<lparr>w_service := w_service w @ [''stop'']\<rparr>)"
  by (simp_all add: ServiceAction_def)

lemma Detach_ok: "Detach gone h = (None, h') \<Longrightarrow> n \<in> set sharedMapNames \<Longrightarrow> h_pins h' n = None"
  by (auto simp: Detach_def Let_def find_None_iff)

text \<open>What the restore path can end in.\<close>

lemma restoreOld_outcomes:
  assumes "restoreOld env previous c w = (e, c', w')"
  shows "w_hosts w' = w_hosts w \<and> CtlPath c' = CtlPath c \<and>
    ((e = CtlRestoreConfig \<and> c' = c \<and> w_service w' = w_service w \<and> w_fs w' (CtlPath c) = w_fs w (CtlPath c)) \<or>
     (e = (if service_ok env (length (w_service w)) then CtlRestored else CtlRestoreDatapath) \<and>
      w_service w' = w_service w @ [''start''] \<and>
      (\<exists>b. marshal env previous = Some b \<and> w_fs w' (CtlPath c) = Some b \<and>
         (unmarshal env b Default = Some previous \<and> wf_config previous \<and> hash_read_ok env \<longrightarrow>
            Base c' = Some (Clone previous) \<and> Staged c' = Some (Clone previous) \<and> ctlHash c' = Some (sha env b)))))"
proof -
  obtain se fs' where s: "Save (marshal env) (save_os env) previous (CtlPath c) (w_fs w) = (se, fs')" by fastforce
  show ?thesis
  proof (cases se)
    case (Some x)
    with s assms Save_err [of _ _ _ _ _ x fs'] show ?thesis by (auto simp: restoreOld_def)
  next
    case None
    with s obtain b where b: "marshal env previous = Some b" "fs' (CtlPath c) = Some b" using Save_ok by metis
    define w1 where "w1 = w\<lparr>w_fs := fs', w_service := w_service w @ [''start'']\<rparr>"
    have r: "e = (if service_ok env (length (w_service w)) then CtlRestored else CtlRestoreDatapath)" "c' = snd (Reload env w1 c)" "w' = w1"
      using assms s None by (auto simp: restoreOld_def ServiceAction_start_stop w1_def)
    have path: "CtlPath (snd (Reload env w1 c)) = CtlPath c"
      by (auto simp: Reload_def Let_def split: sum.splits option.splits)
    have "Base c' = Some (Clone previous) \<and> Staged c' = Some (Clone previous) \<and> ctlHash c' = Some (sha env b)"
      if "unmarshal env b Default = Some previous" "wf_config previous" "hash_read_ok env"
      using that b r Validate_id [OF that(2)] by (simp add: Reload_def Load_def fileHash_def w1_def Let_def)
    with r b path show ?thesis by (simp add: w1_def)
  qed
qed

text \<open>C25: The outcomes of a reattachment. A successful one stopped and started the service once, with
  every pinned map of the old data path gone in between and the file untouched. When the
  stop fails, nothing else happened. When it reports that the old configuration was
  restored, the file holds it, the last command was a start that succeeded, and the
  controller has read it back. On every error after the stop the last command is a start,
  except when the old configuration cannot be saved, and then the file is as it was.\<close>

theorem Reattach_outcomes:
  assumes "Reattach env previous c w = (e, c', w')"
  shows "(e = None \<longrightarrow> w_service w' = w_service w @ [''stop'', ''start''] \<and> w_fs w' = w_fs w \<and>
      (\<forall>n \<in> set sharedMapNames. h_pins (w_hosts w' (PinDir previous)) n = None) \<and>
      c' = c\<lparr>activePinDir := PinDir (the (Base c))\<rparr>) \<and>
    (\<forall>x. e = Some (CtlStop x) \<longrightarrow> c' = c \<and> w' = w\<lparr>w_service := w_service w @ [''stop'']\<rparr>) \<and>
    (e = Some CtlRestored \<longrightarrow> service_ok env (length (w_service w') - 1) \<and>
      (\<exists>b. marshal env previous = Some b \<and> w_fs w' (CtlPath c) = Some b \<and>
         (unmarshal env b Default = Some previous \<and> wf_config previous \<and> hash_read_ok env \<longrightarrow>
            Base c' = Some (Clone previous) \<and> Staged c' = Some (Clone previous) \<and> ctlHash c' = Some (sha env b)))) \<and>
    (e \<noteq> None \<and> (\<forall>x. e \<noteq> Some (CtlStop x)) \<and> e \<noteq> Some CtlRestoreConfig \<longrightarrow> last (w_service w') = ''start'') \<and>
    (e = Some CtlRestoreConfig \<longrightarrow> c' = c \<and> w_fs w' (CtlPath c) = w_fs w (CtlPath c)) \<and>
    (\<forall>p. p \<noteq> PinDir previous \<longrightarrow> w_hosts w' p = w_hosts w p)"
proof (cases "service_ok env (length (w_service w))")
  case False
  with assms show ?thesis by (auto simp: Reattach_def ServiceAction_start_stop)
next
  case True
  define w1 where "w1 = w\<lparr>w_service := w_service w @ [''stop'']\<rparr>"
  obtain de h where d: "Detach (detach_gone env) (w_hosts w (PinDir previous)) = (de, h)" by fastforce
  define w2 where "w2 = w1\<lparr>w_hosts := (w_hosts w1)(PinDir previous := h)\<rparr>"
  define w3 where "w3 = w2\<lparr>w_service := w_service w2 @ [''start'']\<rparr>"
  note ws = w1_def w2_def w3_def
  have R: "Reattach env previous c w =
      (if de \<noteq> None then (case restoreOld env previous c w2 of (e, c', w') \<Rightarrow> (Some e, c', w'))
       else if service_ok env (length (w_service w2)) then (None, c\<lparr>activePinDir := PinDir (the (Base c))\<rparr>, w3)
       else (case restoreOld env previous c w3 of (e, c', w') \<Rightarrow> (Some e, c', w')))"
    using True d by (simp add: Reattach_def ServiceAction_start_stop ws)
  consider "de = None" "service_ok env (length (w_service w2))" | w0 x where "w0 = w2 \<or> w0 = w3" "e = Some x" "restoreOld env previous c w0 = (x, c', w')"
    using R assms by (auto split: if_splits prod.splits)
  then show ?thesis
  proof cases
    case 1
    with R assms Detach_ok d show ?thesis by (auto simp: ws)
  next
    case (2 w0 x)
    then have "w_fs w0 = w_fs w" "\<And>p. p \<noteq> PinDir previous \<Longrightarrow> w_hosts w0 p = w_hosts w p" by (auto simp: ws)
    with 2 restoreOld_outcomes [OF 2(3)] show ?thesis by (auto split: if_splits)
  qed
qed

section \<open>Sample runs\<close>

definition sample_cfg :: "string \<Rightarrow> Config" where
  "sample_cfg m = Clone (load_config\<lparr>Mode := m\<rparr>)"

definition apply_env :: "string ctl_env" where
  "apply_env = \<lparr>unmarshal = (\<lambda>b d. Some (sample_cfg b)), marshal = (\<lambda>c. Some (Mode c)), sha = rev,
     hash_read_ok = True, rehash_read_ok = True,
     save_os = \<lparr>mkdir_ok = True, write_ok = True, write_left = None, rename_ok = True\<rparr>,
     policy_sys = sample_sys, restore_sys = sample_sys, detach_gone = (\<lambda>n. True), service_ok = (\<lambda>n. n \<noteq> 1)\<rparr>"

definition apply_ctl :: "string Controller" where
  "apply_ctl = \<lparr>CtlPath = ''/c'', Base = Some (sample_cfg ''enforce''), Staged = Some (sample_cfg ''monitor''),
     activePinDir = ''/p'', ctlHash = Some (rev ''enforce'')\<rparr>"

definition apply_world :: world where
  "apply_world = \<lparr>w_fs = [''/c'' \<mapsto> ''enforce''],
     w_hosts = (\<lambda>p. bare_host\<lparr>h_pins := (\<lambda>n. Some \<lparr>ms_type = 9, ms_key_size = 16, ms_value_size = 12, ms_max_entries = 4, ms_flags = 0\<rparr>)\<rparr>),
     w_service = []\<rparr>"

lemma sample_live: "policy_sys env = sample_sys \<Longrightarrow> restore_sys env = sample_sys \<Longrightarrow> live_env env c apply_world"
  by (simp add: live_env_def apply_world_def sample_sys_def ok_sync_fair bare_host_def bare_dp_def maps_inv_def kmap_inv_def)

lemma split4: "(case x of (a, b, c, d) \<Rightarrow> P a b) \<Longrightarrow> \<exists>a b c d. x = (a, b, c, d) \<and> P a b"
  by (cases x) auto

theorem Apply_ok_witness:
  "\<exists>res c' w'. Apply apply_env apply_ctl apply_world = (res, None, c', w') \<and> \<not> Dirty c' \<and>
     Load (unmarshal apply_env) (w_fs w') (CtlPath c') = Inr (sample_cfg ''monitor'') \<and>
     ctl_ok (sample_cfg ''monitor'') (h_dp (w_hosts w' ''/p''))"
proof -
  have "case Apply apply_env apply_ctl apply_world of (res, e, c', w') \<Rightarrow> e = None \<and> Active res" by code_simp
  from split4 [OF this] obtain res c' w' where r: "Apply apply_env apply_ctl apply_world = (res, None, c', w')" "Active res" by auto
  have "Dirty apply_ctl" by code_simp
  moreover have "live_env apply_env apply_ctl apply_world" by (rule sample_live) (simp_all add: apply_env_def)
  moreover have "Validate (Clone (the (Staged apply_ctl))) = (None, sample_cfg ''monitor'')" by code_simp
  ultimately show ?thesis using Apply_ok [OF r(1)] r
    by (auto simp: apply_env_def apply_ctl_def sample_cfg_def load_config_def Clone_def)
qed

definition failing_env :: "string ctl_env" where
  "failing_env = apply_env\<lparr>save_os := \<lparr>mkdir_ok = True, write_ok = False, write_left = Some ''mo'', rename_ok = True\<rparr>\<rparr>"

lemma failing_apply:
  "\<exists>res c' w'. Apply failing_env apply_ctl apply_world = (res, Some CtlSave, c', w') \<and> Active res"
proof -
  have "case Apply failing_env apply_ctl apply_world of (res, e, c', w') \<Rightarrow> e = Some CtlSave \<and> Active res" by code_simp
  from split4 [OF this] show ?thesis by auto
qed

lemma failing_live: "live_env failing_env apply_ctl apply_world"
  by (rule sample_live) (simp_all add: failing_env_def apply_env_def)

theorem Apply_error_witness:
  "\<exists>res w'. Apply failing_env apply_ctl apply_world = (res, Some CtlSave, apply_ctl, w') \<and> w_fs w' ''/c'' = Some ''enforce''"
proof -
  obtain res c' w' where r: "Apply failing_env apply_ctl apply_world = (res, Some CtlSave, c', w')"
    using failing_apply by blast
  from Apply_error [OF r failing_live] r show ?thesis by (auto simp: apply_ctl_def apply_world_def)
qed

lemma sample_cfg_wf: "wf_config (sample_cfg ''enforce'')"
proof -
  have "Validate (sample_cfg ''enforce'') = (None, sample_cfg ''enforce'')" by code_simp
  then show ?thesis using Validate_wf by blast
qed

lemma sample_cfg_fits: "length (elems (ServerAllow (sample_cfg m))) \<le> 1024" "elems (CIDRs (Flow_Monitoring (sample_cfg m))) = []"
  by (simp_all add: sample_cfg_def Clone_def load_config_def Default_def copySlice_def)

theorem Apply_rollback_witness:
  "\<exists>res c' w'. Apply failing_env apply_ctl apply_world = (res, Some CtlSave, c', w') \<and> ctl_ok (sample_cfg ''enforce'') (h_dp (w_hosts w' ''/p''))"
proof -
  obtain res c' w' where r: "Apply failing_env apply_ctl apply_world = (res, Some CtlSave, c', w')" "Active res"
    using failing_apply by blast
  have "ctl_ok (sample_cfg ''enforce'') (h_dp (w_hosts w' (activePinDir apply_ctl)))"
    by (rule Apply_rollback [OF r(1) failing_live r(2)])
      (simp_all add: sample_cfg_wf sample_cfg_fits apply_ctl_def failing_env_def apply_env_def sample_sys_def ok_sync_def)
  with r(1) show ?thesis by (auto simp: apply_ctl_def)
qed

theorem Reattach_outcomes_witness:
  "\<exists>c' w'. Reattach apply_env (sample_cfg ''enforce'') apply_ctl apply_world = (Some CtlRestored, c', w') \<and>
     w_fs w' ''/c'' = Some ''enforce'' \<and> Base c' = Some (sample_cfg ''enforce'') \<and> last (w_service w') = ''start''"
proof -
  obtain e c' w' where r: "Reattach apply_env (sample_cfg ''enforce'') apply_ctl apply_world = (e, c', w')" by (metis prod_cases3)
  have "fst (Reattach apply_env (sample_cfg ''enforce'') apply_ctl apply_world) = Some CtlRestored" by code_simp
  with r have e: "e = Some CtlRestored" by simp
  from Reattach_outcomes [OF r] e sample_cfg_wf r show ?thesis
    by (auto simp: apply_env_def apply_ctl_def) (auto simp: sample_cfg_def load_config_def Clone_def)
qed

text \<open>The error of the second hash is not clean: the save and the live update are complete, while
  the controller still holds the old base and reports an error.\<close>

lemma Apply_late_hash:
  "case Apply (apply_env\<lparr>rehash_read_ok := False\<rparr>) apply_ctl apply_world of
     (res, e, c', w') \<Rightarrow> e = Some CtlHash \<and> w_fs w' ''/c'' = Some ''monitor'' \<and> Dirty c'"
  by code_simp

text \<open>A reload that fails half-way is not undone: the features are those of the new
  configuration, the file and the controller keep the old one.\<close>

lemma Apply_half_policy:
  "case Apply (apply_env\<lparr>policy_sys := sample_sys\<lparr>cidr_env := ok_sync\<lparr>sy_iter_ok := False\<rparr>\<rparr>\<rparr>) apply_ctl apply_world of
     (res, e, c', w') \<Rightarrow> e \<noteq> None \<and> w_fs w' ''/c'' = Some ''enforce'' \<and>
       map_option mode (features (h_dp (w_hosts w' ''/p''))) = Some MODE_MONITOR"
  by code_simp

end
