(* ===== verification/Daemon.thy ===== *)
theory Daemon
  imports Controller Gc_Flows Bpf_Frame
begin

text \<open>
  The daemon of \<open>cmd/xdpfilter/main.go\<close>: start, live reload with its rollbacks, the
  collector worker, and the step relation that interleaves them with packets and with mode
  switches from the command line. The YAML codec and the outcomes of system calls are
  parameters. A worker's turn is one step; what packets do during a sweep is the subject of
  theory Gc_Flows. Signals, tickers and log output have no state of their own.
\<close>

section \<open>State and start\<close>

record daemon =
  cfgPtr :: Config
  d_host :: host
  d_live :: int

datatype start_error = StartConfig config_error | StartNotRoot | StartLoad load_error

text \<open>
  \<open>cmdDaemon\<close> up to the workers; the host is returned with whatever a failed start left.
  The tuning in between is best-effort, its error is only logged, and it touches none of
  the state here.
\<close>

definition startDaemon :: "(string \<Rightarrow> Config \<Rightarrow> Config option) \<Rightarrow> fsys \<Rightarrow> string \<Rightarrow> bool \<Rightarrow> sysenv \<Rightarrow> host
    \<Rightarrow> (start_error + daemon) \<times> host" where
  "startDaemon unm fs path is_root env h =
     (case Load unm fs path of
        Inl e \<Rightarrow> (Inl (StartConfig e), h)
      | Inr cfg \<Rightarrow>
          (if \<not> is_root then (Inl StartNotRoot, h)
           else case LoadDatapath env cfg h of
             (Some e, h') \<Rightarrow> (Inl (StartLoad e), h')
           | (None, h') \<Rightarrow> (Inr \<lparr>cfgPtr = cfg, d_host = h', d_live = 0\<rparr>, h')))"

section \<open>Live reload\<close>

text \<open>
  The outcomes of one reload: the file, the monitoring variables and the policy maps, and
  the calls of the two rollbacks.
\<close>

record reload_env =
  r_unmarshal :: "string \<Rightarrow> Config \<Rightarrow> Config option"
  r_fs :: fsys
  r_path :: string
  r_monitor :: "string \<Rightarrow> bool"
  r_policy :: sysenv
  r_monitor_back :: "string \<Rightarrow> bool"
  r_policy_back :: sysenv

datatype reload_result =
    ReloadKept config_error | ReloadMonitor load_error | ReloadPolicyFailed load_error | Reloaded

definition setMonitor :: "(string \<Rightarrow> bool) \<Rightarrow> Config \<Rightarrow> dp \<Rightarrow> load_error option \<times> dp" where
  "setMonitor ok cfg d =
     (case ApplyFlowMonitorControl ok cfg (FLOW_MONITOR_ENABLED d, FLOW_MONITOR_SAMPLE_MASK d) of
        (e, ps) \<Rightarrow> (e, d\<lparr>FLOW_MONITOR_ENABLED := fst (last ps), FLOW_MONITOR_SAMPLE_MASK := snd (last ps)\<rparr>))"

text \<open>
  The map and variable updates of \<open>reload\<close>; the list holds the states of the data path
  between the calls, the present one first.
\<close>

definition reloadMaps :: "reload_env \<Rightarrow> Config \<Rightarrow> Config \<Rightarrow> dp \<Rightarrow> reload_result \<times> dp list" where
  "reloadMaps env cur merged d =
     (case (if \<not> Enabled (Flow_Monitoring merged) then setMonitor (r_monitor env) merged d else (None, d)) of
        (Some e, d1) \<Rightarrow> (ReloadMonitor e, [d, d1])
      | (None, d1) \<Rightarrow>
          (case ReloadPolicy (r_policy env) merged d1 of
             (Some e, d2) \<Rightarrow> (ReloadPolicyFailed e, [d, d1, d2, snd (setMonitor (r_monitor_back env) cur d2)])
           | (None, d2) \<Rightarrow>
               (if Enabled (Flow_Monitoring merged) then
                  (case setMonitor (r_monitor env) merged d2 of
                     (Some e, d3) \<Rightarrow>
                       (let d4 = snd (ReloadPolicy (r_policy_back env) cur d3) in
                        (ReloadMonitor e, [d, d1, d2, d3, d4, snd (setMonitor (r_monitor_back env) cur d4)]))
                   | (None, d3) \<Rightarrow> (Reloaded, [d, d1, d2, d3]))
                else (Reloaded, [d, d1, d2]))))"

text \<open>\<open>reload\<close>: the outcome, the structural changes it warns of, and the daemon.\<close>

definition reload :: "reload_env \<Rightarrow> daemon \<Rightarrow> reload_result \<times> string \<times> daemon" where
  "reload env st =
     (case Load (r_unmarshal env) (r_fs env) (r_path env) of
        Inl e \<Rightarrow> (ReloadKept e, [], st)
      | Inr newCfg \<Rightarrow>
          (let cur = cfgPtr st; merged = ApplyLiveFrom cur newCfg in
           case reloadMaps env cur merged (h_dp (d_host st)) of
             (res, tr) \<Rightarrow>
               (res, StructuralDiff cur newCfg,
                st\<lparr>d_host := (d_host st)\<lparr>h_dp := last tr\<rparr>, cfgPtr := if res = Reloaded then merged else cur\<rparr>)))"

section \<open>The collector\<close>

record gc_env =
  gc_clk_tcp :: "(u64 \<times> u64) option"
  gc_clk_udp :: "(u64 \<times> u64) option"
  gc_ok :: "flow_key \<Rightarrow> bool"
  gc_read_ok :: bool
  gc_publish_ok :: bool
  gc_now :: int

definition gcTick :: "gc_env \<Rightarrow> daemon \<Rightarrow> daemon" where
  "gcTick env st =
     (let c = cfgPtr st; h = d_host st; d = h_dp h in
      case GCOnce (gc_clk_tcp env) (gc_ok env) c (flows d) (flows d) of (lt, _, tcp) \<Rightarrow>
      (case GCOnce (gc_clk_udp env) (gc_ok env) c (udp_flows d) (udp_flows d) of (lu, _, udp) \<Rightarrow>
        (let h1 = h\<lparr>h_dp := d\<lparr>flows := tcp, udp_flows := udp\<rparr>\<rparr>;
             rs = (case ReadRuntimeState (gc_read_ok env) h1 of
                     Some r \<Rightarrow> r
                   | None \<Rightarrow> \<lparr>TCPLive = 0, UDPLive = 0, LastGCUnixNano = 0, DaemonStartUnixNano = 0\<rparr>);
             rs1 = rs\<lparr>TCPLive := of_int lt, UDPLive := of_int lu, LastGCUnixNano := gc_now env\<rparr>
         in st\<lparr>d_live := lt + lu, d_host := snd (PublishRuntimeState (gc_publish_ok env) rs1 h1)\<rparr>)))"

text \<open>The capacity the statistics compare the live flows with: a sum of two 32-bit sizes.\<close>

definition occ :: "daemon \<Rightarrow> u32 \<Rightarrow> u32 \<Rightarrow> int \<times> int" where
  "occ st tcp_max udp_max = (d_live st, uint (tcp_max + udp_max))"

section \<open>The step relation\<close>

abbreviation d_dp :: "daemon \<Rightarrow> dp" where
  "d_dp st \<equiv> h_dp (d_host st)"

definition fair_reload :: "reload_env \<Rightarrow> bool" where
  "fair_reload env \<longleftrightarrow> fair_order (allow_env (r_policy env)) \<and> fair_order (cidr_env (r_policy env)) \<and>
     fair_order (allow_env (r_policy_back env)) \<and> fair_order (cidr_env (r_policy_back env))"

text \<open>
  One turn of the system: a packet on either port, a collection, a reload that does not stop
  in the middle of the policy, or a mode switch by another process.
\<close>

inductive daemon_step :: "daemon \<Rightarrow> daemon \<Rightarrow> bool" where
  packet: "daemon_step st (st\<lparr>d_host := (d_host st)\<lparr>h_dp := snd (xdp_filter ro env fr (d_dp st))\<rparr>\<rparr>)"
| collect: "daemon_step st (gcTick genv st)"
| reload: "reload renv st = (res, note, st') \<Longrightarrow> fair_reload renv \<Longrightarrow> features_ok (r_policy_back renv) \<Longrightarrow>
    (\<And>e. res = ReloadPolicyFailed e \<Longrightarrow> e = ErrFeatures) \<Longrightarrow> daemon_step st st'"
| switch: "SetModePinned rd wr enforce (d_host st) = (e, h') \<Longrightarrow> daemon_step st (st\<lparr>d_host := h'\<rparr>)"

inductive_cases daemon_stepE: "daemon_step st st'"

section \<open>Facts on the monitoring variables\<close>

lemma setMonitor_frame:
  assumes "setMonitor ok cfg d = (e, d')"
  shows "d' = d\<lparr>FLOW_MONITOR_ENABLED := FLOW_MONITOR_ENABLED d', FLOW_MONITOR_SAMPLE_MASK := FLOW_MONITOR_SAMPLE_MASK d'\<rparr>"
  using assms by (auto simp: setMonitor_def split: prod.splits)

lemma setMonitor_value:
  assumes "setMonitor ok cfg d = (e, d')"
  shows "e = None \<Longrightarrow> FLOW_MONITOR_ENABLED d' = boolU32 (Enabled (Flow_Monitoring cfg)) \<and>
      FLOW_MONITOR_SAMPLE_MASK d' = SampleEvery (Flow_Monitoring cfg) - 1"
    and "\<not> Enabled (Flow_Monitoring cfg) \<Longrightarrow> FLOW_MONITOR_ENABLED d' \<noteq> 0 \<Longrightarrow> FLOW_MONITOR_ENABLED d' = FLOW_MONITOR_ENABLED d"
    and "Enabled (Flow_Monitoring cfg) \<Longrightarrow> e \<noteq> None \<Longrightarrow> FLOW_MONITOR_ENABLED d' = FLOW_MONITOR_ENABLED d"
    and "(\<And>v. ok v) \<Longrightarrow> e = None"
  using assms
  by (auto simp: setMonitor_def ApplyFlowMonitorControl_def setVarStep_def Let_def boolU32_def split: if_splits)

text \<open>Switching accounting off can fail at the first variable, or at the second with the first written.\<close>

lemma setMonitor_off_failed:
  "setMonitor ok cfg d = (Some e, d') \<Longrightarrow> \<not> Enabled (Flow_Monitoring cfg) \<Longrightarrow>
     e = ErrNoVar ''FLOW_MONITOR_SAMPLE_MASK'' \<or> d' = d"
  by (auto simp: setMonitor_def ApplyFlowMonitorControl_def setVarStep_def Let_def boolU32_def split: if_splits)

section \<open>What a reload can change\<close>

definition reload_only :: "dp \<Rightarrow> dp \<Rightarrow> bool" where
  "reload_only d d' \<longleftrightarrow> d' = d\<lparr>features := features d', server_allow := server_allow d', flow_monitor_cidrs := flow_monitor_cidrs d',
     FLOW_MONITOR_ENABLED := FLOW_MONITOR_ENABLED d', FLOW_MONITOR_SAMPLE_MASK := FLOW_MONITOR_SAMPLE_MASK d'\<rparr>"

lemma reload_only_refl [simp]: "reload_only d d"
  by (simp add: reload_only_def)

lemma reload_only_trans: "reload_only a b \<Longrightarrow> reload_only b c \<Longrightarrow> reload_only a c"
  unfolding reload_only_def by (cases a; cases b; cases c) simp

lemma reload_only_ctl: "ctl_only a b \<Longrightarrow> reload_only a b"
  unfolding reload_only_def ctl_only_def by (cases a; cases b) simp

lemma reload_only_monitor: "setMonitor ok cfg a = (e, b) \<Longrightarrow> reload_only a b"
  using setMonitor_frame [of ok cfg a e b] unfolding reload_only_def by (cases a; cases b) simp

lemma ctl_only_monitor: "ctl_only a b \<Longrightarrow> FLOW_MONITOR_ENABLED b = FLOW_MONITOR_ENABLED a \<and> FLOW_MONITOR_SAMPLE_MASK b = FLOW_MONITOR_SAMPLE_MASK a"
  unfolding ctl_only_def by (cases a; cases b) simp

lemma monitor_ctl:
  assumes "setMonitor ok cfg a = (e, b)"
  shows "maps_inv b = maps_inv a" "ctl_ok c b = ctl_ok c a" "features b = features a" "flow_monitor_cidrs b = flow_monitor_cidrs a"
proof -
  obtain x y where b: "b = a\<lparr>FLOW_MONITOR_ENABLED := x, FLOW_MONITOR_SAMPLE_MASK := y\<rparr>" using setMonitor_frame [OF assms] by blast
  show "maps_inv b = maps_inv a" "ctl_ok c b = ctl_ok c a" "features b = features a" "flow_monitor_cidrs b = flow_monitor_cidrs a"
    by (simp_all add: b maps_inv_def ctl_ok_def)
qed

text \<open>A policy update keeps the maps well-formed on every outcome.\<close>

lemma syncKeys_inv:
  assumes "kmap_inv m" "syncKeys env cap ks m = (e, ms)"
  shows "kmap_inv (last ms)"
proof (cases "sy_iter_ok env")
  case True
  let ?ks = "sy_order env (remdups ks)"
  obtain e' where r: "reconcile (hash_put cap) kdel kkeys 1 (sy_ok env) ?ks m = (e', ms)"
    using assms(2) True by (auto simp: syncKeys_def split: prod.splits)
  have "\<forall>m' \<in> set ms. kmap_inv m' \<and> dom (kget m) \<inter> set ?ks \<subseteq> dom (kget m') \<and> dom (kget m') \<subseteq> dom (kget m) \<union> set ?ks"
    by (rule hash_map.run_ops_between [OF assms(1) r [unfolded reconcile_def]]) auto
  moreover have "ms \<noteq> []" using hash_map.run_ops_nonempty [OF r [unfolded reconcile_def]] by simp
  ultimately show ?thesis by simp
next
  case False
  then show ?thesis using assms by (auto simp: syncKeys_def)
qed

lemma ReloadPolicy_inv:
  assumes "maps_inv d"
  shows "maps_inv (snd (ReloadPolicy env cfg d))"
proof -
  have a: "maps_inv (snd (applyAllow env cfg x))" if "maps_inv x" for x
    using that syncKeys_inv [of "server_allow x" "allow_env env" allow_cap]
    by (auto simp: applyAllow_def SyncServerAllow_def maps_inv_def split: prod.splits sum.splits)
  have c: "maps_inv (snd (applyCIDRs env cfg x))" if "maps_inv x" for x
    using that syncKeys_inv [of "flow_monitor_cidrs x" "cidr_env env" cidr_cap]
    by (auto simp: applyCIDRs_def SyncFlowMonitorCIDRs_def maps_inv_def split: prod.splits sum.splits)
  have f: "maps_inv (snd (ApplyFeatures ok cfg d))" for ok
    using assms by (simp add: ApplyFeatures_def maps_inv_def)
  show ?thesis
    using a c f [of "features_ok env"] unfolding ReloadPolicy_def andThen_def
    by (auto split: prod.splits option.splits) (metis snd_conv)+
qed

text \<open>The ways through a reload of the maps.\<close>

lemma reloadMaps_cases:
  assumes "reloadMaps env cur merged d = (res, tr)"
  obtains (off_failed) e d1 where "\<not> Enabled (Flow_Monitoring merged)" "setMonitor (r_monitor env) merged d = (Some e, d1)"
      "res = ReloadMonitor e" "tr = [d, d1]"
    | (policy_failed) e d1 d2 e3 d3 where
      "if Enabled (Flow_Monitoring merged) then d1 = d else setMonitor (r_monitor env) merged d = (None, d1)"
      "ReloadPolicy (r_policy env) merged d1 = (Some e, d2)" "setMonitor (r_monitor_back env) cur d2 = (e3, d3)"
      "res = ReloadPolicyFailed e" "tr = [d, d1, d2, d3]"
    | (on_failed) e d2 d3 e4 d4 e5 d5 where "Enabled (Flow_Monitoring merged)"
      "ReloadPolicy (r_policy env) merged d = (None, d2)" "setMonitor (r_monitor env) merged d2 = (Some e, d3)"
      "ReloadPolicy (r_policy_back env) cur d3 = (e4, d4)" "setMonitor (r_monitor_back env) cur d4 = (e5, d5)"
      "res = ReloadMonitor e" "tr = [d, d, d2, d3, d4, d5]"
    | (off) d1 d2 where "\<not> Enabled (Flow_Monitoring merged)" "setMonitor (r_monitor env) merged d = (None, d1)"
      "ReloadPolicy (r_policy env) merged d1 = (None, d2)" "res = Reloaded" "tr = [d, d1, d2]"
    | (on) d2 d3 where "Enabled (Flow_Monitoring merged)" "ReloadPolicy (r_policy env) merged d = (None, d2)"
      "setMonitor (r_monitor env) merged d2 = (None, d3)" "res = Reloaded" "tr = [d, d, d2, d3]"
proof (cases "Enabled (Flow_Monitoring merged)")
  case en: True
  obtain e2 d2 where p: "ReloadPolicy (r_policy env) merged d = (e2, d2)" by fastforce
  obtain e3 d3 where b: "setMonitor (r_monitor_back env) cur d2 = (e3, d3)" by fastforce
  obtain e4 d4 where m: "setMonitor (r_monitor env) merged d2 = (e4, d4)" by fastforce
  obtain e5 d5 where q: "ReloadPolicy (r_policy_back env) cur d4 = (e5, d5)" by fastforce
  obtain e6 d6 where r: "setMonitor (r_monitor_back env) cur d5 = (e6, d6)" by fastforce
  note d = assms [unfolded reloadMaps_def]
  show ?thesis
  proof (cases e2)
    case (Some x)
    with d en p b show ?thesis by (intro policy_failed [of d x d2 e3 d3]) auto
  next
    case e2: None
    show ?thesis
    proof (cases e4)
      case None
      with d en p m e2 show ?thesis by (intro on [of d2 d4]) auto
    next
      case (Some x)
      with d en p m q r e2 show ?thesis by (intro on_failed [of d2 x d4 e5 d5 e6 d6]) (auto simp: Let_def)
    qed
  qed
next
  case en: False
  obtain e1 d1 where m: "setMonitor (r_monitor env) merged d = (e1, d1)" by fastforce
  obtain e2 d2 where p: "ReloadPolicy (r_policy env) merged d1 = (e2, d2)" by fastforce
  obtain e3 d3 where b: "setMonitor (r_monitor_back env) cur d2 = (e3, d3)" by fastforce
  note d = assms [unfolded reloadMaps_def]
  show ?thesis
  proof (cases e1)
    case (Some x)
    with d en m show ?thesis by (intro off_failed [of x d1]) auto
  next
    case e1: None
    show ?thesis
    proof (cases e2)
      case None
      with d en m p e1 show ?thesis by (intro off [of d1 d2]) auto
    next
      case (Some x)
      with d en m p b e1 show ?thesis by (intro policy_failed [of d1 x d2 e3 d3]) auto
    qed
  qed
qed

lemma reloadMaps_last_frame:
  assumes "reloadMaps env cur merged d = (res, tr)" and "maps_inv d" and "fair_reload env"
  shows "reload_only d (last tr) \<and> maps_inv (last tr)"
proof -
  have P: "reload_only a b \<and> maps_inv b" if "ReloadPolicy sys c a = (e, b)" "maps_inv a"
    "fair_order (allow_env sys)" "fair_order (cidr_env sys)" for sys c a b e
    using ReloadPolicy_frame [OF that] ReloadPolicy_inv [OF that(2), of sys c] that(1) reload_only_ctl by simp
  have M: "reload_only a b \<and> maps_inv b = maps_inv a" if "setMonitor ok c a = (e, b)" for ok c a b e
    using reload_only_monitor [OF that] monitor_ctl(1) [OF that] by simp
  note f = assms(3) [unfolded fair_reload_def]
  from assms(1) show ?thesis
  proof (cases rule: reloadMaps_cases)
    case (off_failed e d1)
    with M assms(2) show ?thesis by fastforce
  next
    case (policy_failed e d1 d2 e3 d3)
    have 1: "reload_only d d1 \<and> maps_inv d1" using policy_failed(1) M [of "r_monitor env" merged d] assms(2) by (auto split: if_splits)
    with P [OF policy_failed(2)] f have 2: "reload_only d1 d2 \<and> maps_inv d2" by simp
    from 1 2 M [OF policy_failed(3)] policy_failed(5) show ?thesis by (auto intro: reload_only_trans)
  next
    case (on_failed e d2 d3 e4 d4 e5 d5)
    have 1: "reload_only d d2 \<and> maps_inv d2" using P [OF on_failed(2)] f assms(2) by simp
    with M [OF on_failed(3)] have 2: "reload_only d d3 \<and> maps_inv d3" by (auto intro: reload_only_trans)
    with P [OF on_failed(4)] f have 3: "reload_only d d4 \<and> maps_inv d4" by (auto intro: reload_only_trans)
    with M [OF on_failed(5)] on_failed(7) show ?thesis by (auto intro: reload_only_trans)
  next
    case (off d1 d2)
    have 1: "reload_only d d1 \<and> maps_inv d1" using M [OF off(2)] assms(2) by simp
    with P [OF off(3)] f off(5) show ?thesis by (auto intro: reload_only_trans)
  next
    case (on d2 d3)
    have 1: "reload_only d d2 \<and> maps_inv d2" using P [OF on(2)] f assms(2) by simp
    with M [OF on(3)] on(5) show ?thesis by (auto intro: reload_only_trans)
  qed
qed

section \<open>Properties of the reload\<close>

lemma reload_cases:
  assumes "reload env st = (res, note, st')"
  obtains (kept) e where "Load (r_unmarshal env) (r_fs env) (r_path env) = Inl e" "res = ReloadKept e" "st' = st"
    | (run) newCfg tr where "Load (r_unmarshal env) (r_fs env) (r_path env) = Inr newCfg"
      "reloadMaps env (cfgPtr st) (ApplyLiveFrom (cfgPtr st) newCfg) (d_dp st) = (res, tr)"
      "note = StructuralDiff (cfgPtr st) newCfg"
      "st' = st\<lparr>d_host := (d_host st)\<lparr>h_dp := last tr\<rparr>,
         cfgPtr := if res = Reloaded then ApplyLiveFrom (cfgPtr st) newCfg else cfgPtr st\<rparr>"
  using assms by (auto simp: reload_def Let_def split: sum.splits prod.splits)

lemma reloadMaps_not_kept: "reloadMaps env cur merged d = (res, tr) \<Longrightarrow> res \<noteq> ReloadKept e"
  by (erule reloadMaps_cases) auto

text \<open>C21: A reload that reports success: the daemon runs the live part of the new file on top of its
  structural settings, the policy maps and the monitoring variables are those of that
  configuration, and nothing else on the host has changed, the flow tables and the L1 cache
  in particular. Without a structural warning the daemon's configuration is the file's.\<close>

theorem reload_success:
  assumes "reload env st = (Reloaded, note, st')" and "maps_inv (d_dp st)" and "fair_reload env"
  shows "\<exists>newCfg. Load (r_unmarshal env) (r_fs env) (r_path env) = Inr newCfg \<and>
    cfgPtr st' = ApplyLiveFrom (cfgPtr st) newCfg \<and> (note = [] \<longrightarrow> cfgPtr st' = Clone newCfg) \<and>
    ctl_ok (cfgPtr st') (d_dp st') \<and>
    FLOW_MONITOR_ENABLED (d_dp st') = boolU32 (Enabled (Flow_Monitoring newCfg)) \<and>
    FLOW_MONITOR_SAMPLE_MASK (d_dp st') = SampleEvery (Flow_Monitoring newCfg) - 1 \<and>
    reload_only (d_dp st) (d_dp st') \<and> d_host st' = (d_host st)\<lparr>h_dp := d_dp st'\<rparr> \<and> d_live st' = d_live st"
  using assms(1)
proof (cases rule: reload_cases)
  case (run newCfg tr)
  let ?m = "ApplyLiveFrom (cfgPtr st) newCfg"
  have mon: "Enabled (Flow_Monitoring ?m) = Enabled (Flow_Monitoring newCfg)"
    "SampleEvery (Flow_Monitoring ?m) = SampleEvery (Flow_Monitoring newCfg)" by (simp_all add: ApplyLiveFrom_def)
  note f = assms(3) [unfolded fair_reload_def]
  note fr = reloadMaps_last_frame [OF run(2) assms(2,3)]
  have "ctl_ok ?m (last tr) \<and> FLOW_MONITOR_ENABLED (last tr) = boolU32 (Enabled (Flow_Monitoring ?m)) \<and>
      FLOW_MONITOR_SAMPLE_MASK (last tr) = SampleEvery (Flow_Monitoring ?m) - 1"
    using run(2)
  proof (cases rule: reloadMaps_cases)
    case (off d1 d2)
    have "maps_inv d1" using monitor_ctl(1) [OF off(2)] assms(2) by simp
    note p = ReloadPolicy_frame [OF off(3) this] f
    then show ?thesis using off setMonitor_value(1) [OF off(2)] ctl_only_monitor by fastforce
  next
    case (on d2 d3)
    note p = ReloadPolicy_frame [OF on(2) assms(2)] f
    then show ?thesis using on setMonitor_value(1) [OF on(3)] monitor_ctl(2) [OF on(3)] by auto
  qed auto
  with run fr mon ApplyLive_complete_aux [of "cfgPtr st" newCfg] show ?thesis by auto
qed auto

text \<open>A reload that fails keeps the running configuration: nothing changes when the file does not
  load, the control maps at most change otherwise, and a change of the monitoring variables
  that fails is undone. If the rollback calls pass and the maps followed the running
  configuration before, they follow it again after any failure of the monitoring variables;
  after a failure of the policy the monitoring variables are back as well.\<close>

theorem reload_failure:
  assumes "reload env st = (res, note, st')" and "res \<noteq> Reloaded" and "maps_inv (d_dp st)" and "fair_reload env"
    and before: "ctl_ok (cfgPtr st) (d_dp st)"
      "FLOW_MONITOR_ENABLED (d_dp st) = boolU32 (Enabled (Flow_Monitoring (cfgPtr st)))"
      "FLOW_MONITOR_SAMPLE_MASK (d_dp st) = SampleEvery (Flow_Monitoring (cfgPtr st)) - 1"
    and fits: "wf_config (cfgPtr st)" "length (elems (ServerAllow (cfgPtr st))) \<le> 1024"
      "\<forall>r \<in> set (elems (CIDRs (Flow_Monitoring (cfgPtr st)))). trimSpace (CIDR r) = CIDR r"
    and rollback: "\<And>v. r_monitor_back env v" "features_ok (r_policy_back env)"
      "sy_iter_ok (allow_env (r_policy_back env))" "\<And>x. sy_ok (allow_env (r_policy_back env)) x"
      "sy_iter_ok (cidr_env (r_policy_back env))" "\<And>x. sy_ok (cidr_env (r_policy_back env)) x"
  shows "cfgPtr st' = cfgPtr st \<and> d_live st' = d_live st \<and> d_host st' = (d_host st)\<lparr>h_dp := d_dp st'\<rparr> \<and>
    reload_only (d_dp st) (d_dp st') \<and>
    (\<forall>e. res = ReloadKept e \<longrightarrow> st' = st) \<and>
    (\<forall>e. res = ReloadMonitor e \<longrightarrow> ctl_ok (cfgPtr st) (d_dp st')) \<and>
    (res \<noteq> ReloadMonitor (ErrNoVar ''FLOW_MONITOR_SAMPLE_MASK'') \<longrightarrow>
       FLOW_MONITOR_ENABLED (d_dp st') = boolU32 (Enabled (Flow_Monitoring (cfgPtr st))) \<and>
       FLOW_MONITOR_SAMPLE_MASK (d_dp st') = SampleEvery (Flow_Monitoring (cfgPtr st)) - 1)"
  using assms(1)
proof (cases rule: reload_cases)
  case (kept e)
  then show ?thesis using before by simp
next
  case (run newCfg tr)
  let ?d = "d_dp st"
  note f = assms(4) [unfolded fair_reload_def]
  note fr = reloadMaps_last_frame [OF run(2) assms(3,4)]
  have mon: "FLOW_MONITOR_ENABLED b = boolU32 (Enabled (Flow_Monitoring (cfgPtr st))) \<and>
      FLOW_MONITOR_SAMPLE_MASK b = SampleEvery (Flow_Monitoring (cfgPtr st)) - 1"
    if "setMonitor (r_monitor_back env) (cfgPtr st) a = (e, b)" for a b e
    using setMonitor_value(1,4) [OF that] rollback(1) by blast
  have "(\<forall>e. res = ReloadMonitor e \<longrightarrow> ctl_ok (cfgPtr st) (last tr)) \<and>
    (res \<noteq> ReloadMonitor (ErrNoVar ''FLOW_MONITOR_SAMPLE_MASK'') \<longrightarrow>
       FLOW_MONITOR_ENABLED (last tr) = boolU32 (Enabled (Flow_Monitoring (cfgPtr st))) \<and>
       FLOW_MONITOR_SAMPLE_MASK (last tr) = SampleEvery (Flow_Monitoring (cfgPtr st)) - 1)"
    using run(2)
  proof (cases rule: reloadMaps_cases)
    case (off_failed e d1)
    have "e = ErrNoVar ''FLOW_MONITOR_SAMPLE_MASK'' \<or> d1 = ?d" using setMonitor_off_failed [OF off_failed(2,1)] .
    then show ?thesis using off_failed monitor_ctl(2) [OF off_failed(2)] before by auto
  next
    case (policy_failed e d1 d2 e3 d3)
    then show ?thesis using mon [OF policy_failed(3)] by simp
  next
    case (on_failed e d2 d3 e4 d4 e5 d5)
    have i3: "maps_inv d3"
      using ReloadPolicy_inv [OF assms(3), of "r_policy env" "ApplyLiveFrom (cfgPtr st) newCfg"] on_failed(2) monitor_ctl(1) [OF on_failed(3)] by simp
    have "fst (ReloadPolicy (r_policy_back env) (cfgPtr st) d3) = None"
      by (rule ReloadPolicy_passes) (use fits rollback i3 f in auto)
    then have "ctl_ok (cfgPtr st) d4" using ReloadPolicy_frame [OF on_failed(4) i3] on_failed(4) f by simp
    then show ?thesis using on_failed mon [OF on_failed(5)] monitor_ctl(2) [OF on_failed(5)] by simp
  qed (use assms(2) in auto)
  then show ?thesis using run fr assms(2) reloadMaps_not_kept [OF run(2)] by auto
qed

text \<open>While a successful reload is under way no packet is accounted against a half-written trie:
  accounting that was off is on only once policy, allowlist and networks of the new
  configuration are in place, and accounting that is to be off is so before they change.\<close>

theorem reload_monitor_order:
  assumes "reloadMaps env cur merged d = (Reloaded, tr)" and "maps_inv d" and "fair_reload env" and "x \<in> set tr"
    and "FLOW_MONITOR_ENABLED x \<noteq> 0"
  shows "(FLOW_MONITOR_ENABLED d = 0 \<longrightarrow> ctl_ok merged x) \<and> (\<not> Enabled (Flow_Monitoring merged) \<longrightarrow> x = d)"
proof -
  note f = assms(3) [unfolded fair_reload_def]
  from assms(1) show ?thesis
  proof (cases rule: reloadMaps_cases)
    case (off d1 d2)
    have "maps_inv d1" using monitor_ctl(1) [OF off(2)] assms(2) by simp
    with ReloadPolicy_frame [OF off(3)] f have "FLOW_MONITOR_ENABLED d2 = FLOW_MONITOR_ENABLED d1" using ctl_only_monitor by blast
    moreover have "FLOW_MONITOR_ENABLED d1 = 0" using setMonitor_value(1) [OF off(2)] off(1) by (simp add: boolU32_def)
    ultimately have "x = d" using assms(4,5) off(5) by auto
    then show ?thesis using assms(5) by simp
  next
    case (on d2 d3)
    note p = ReloadPolicy_frame [OF on(2) assms(2)]
    have "FLOW_MONITOR_ENABLED d2 = FLOW_MONITOR_ENABLED d" using p f ctl_only_monitor by blast
    moreover have "ctl_ok merged d3" using p f monitor_ctl(2) [OF on(3)] by simp
    ultimately show ?thesis using assms(4,5) on by auto
  qed auto
qed

section \<open>The invariant of the daemon\<close>

definition same_ttls :: "feature_set \<Rightarrow> feature_set \<Rightarrow> bool" where
  "same_ttls f g \<longleftrightarrow> ttl_syn f = ttl_syn g \<and> ttl_est f = ttl_est g \<and> ttl_closing f = ttl_closing g \<and> ttl_udp f = ttl_udp g"

lemma same_ttls_expired: "same_ttls f g \<Longrightarrow> expired f = expired g"
proof -
  assume "same_ttls f g"
  then have "ttl_for f = ttl_for g" by (intro ext) (simp add: same_ttls_def ttl_for_def)
  then show ?thesis by (intro ext) (simp add: expired_def)
qed

definition daemon_inv :: "daemon \<Rightarrow> bool" where
  "daemon_inv st \<longleftrightarrow> dp_inv (d_dp st) \<and>
     (\<exists>f. features (d_dp st) = Some f \<and> same_ttls f (featuresFrom (cfgPtr st)))"

text \<open>Starting establishes it.\<close>

lemma fresh_map_dp_inv: "dp_inv (h_dp h) \<Longrightarrow> dp_inv (h_dp (fresh_map name ms h))"
  by (simp add: fresh_map_def dp_inv_def Let_def kmap_inv_def)

lemma adopt_dp_inv: "dp_inv (h_dp h) \<Longrightarrow> dp_inv (h_dp (snd (adoptOrCreateMap env name ms h)))"
  by (simp add: adoptOrCreateMap_def Let_def fresh_map_dp_inv)

lemma adoptAll_dp_inv: "dp_inv (h_dp h) \<Longrightarrow> dp_inv (h_dp (snd (adoptAll env specs names h)))"
proof (induction names arbitrary: h)
  case (Cons n ns)
  then show ?case
    using adopt_dp_inv [OF Cons.prems, of env n] by (auto simp: andThen_def split: option.splits prod.splits) (metis snd_conv)+
qed simp

lemma ctl_only_dp_inv: "ctl_only a b \<Longrightarrow> dp_inv a \<Longrightarrow> maps_inv b \<Longrightarrow> dp_inv b"
  unfolding ctl_only_def dp_inv_def maps_inv_def by (cases a; cases b) simp

lemma reload_only_dp_inv: "reload_only a b \<Longrightarrow> dp_inv a \<Longrightarrow> maps_inv b \<Longrightarrow> dp_inv b"
  unfolding reload_only_def dp_inv_def maps_inv_def by (cases a; cases b) simp

lemma dp_inv_maps: "dp_inv d \<Longrightarrow> maps_inv d"
  by (simp add: dp_inv_def maps_inv_def)

lemma Load_inv:
  assumes "LoadDatapath env cfg h = (None, h')" "dp_inv (h_dp h)" "fair_order (allow_env env)" "fair_order (cidr_env env)"
  shows "dp_inv (h_dp h') \<and> ctl_ok cfg (h_dp h') \<and>
    FLOW_MONITOR_ENABLED (h_dp h') = boolU32 (Enabled (Flow_Monitoring cfg)) \<and>
    FLOW_MONITOR_SAMPLE_MASK (h_dp h') = SampleEvery (Flow_Monitoring cfg) - 1"
proof -
  from assms(1) obtain iT mT iU mU sp specs h1 h2 where "ifaces env (TrustedIface cfg) = Some (iT, mT)"
    "ifaces env (UntrustedIface cfg) = Some (iU, mU)" "bpf_object env = Some sp" "overrideSpec cfg sp = Some specs"
    and c: "createOrAdoptShared env specs h = (None, h1)"
    and p: "populate env cfg iT iU h1 = (None, h2)" and a: "attachBoth env cfg iT iU (mT > 1500 \<or> mU > 1500) h2 = (None, h')"
    by (rule LoadDatapath_None)
  from c obtain h0 where h0: "adoptAll env specs sharedMapNames h = (None, h0)"
    "adoptOrCreateMap env runtimeMapName runtimeSpec h0 = (None, h1)" by (auto simp: createOrAdoptShared_def andThen_None)
  have i0: "dp_inv (h_dp h0)" using adoptAll_dp_inv [OF assms(2), of env specs sharedMapNames] h0(1) by simp
  have i1: "dp_inv (h_dp h1)" using adopt_dp_inv [OF i0, of env runtimeMapName runtimeSpec] h0(2) by simp
  note r = ReloadPolicy_frame [OF populate_ok [OF p, THEN conjunct1] dp_inv_maps [OF i1] assms(3,4)]
  then have "dp_inv (h_dp h2)" using ctl_only_dp_inv i1 by blast
  then show ?thesis using r attachBoth_ok [OF a] by (simp add: dp_inv_def ctl_ok_def)
qed

lemma start_inv:
  assumes "startDaemon unm fs path r env h = (Inr st, h')" "dp_inv (h_dp h)" "fair_order (allow_env env)" "fair_order (cidr_env env)"
  shows "daemon_inv st \<and> ctl_ok (cfgPtr st) (d_dp st) \<and>
    FLOW_MONITOR_ENABLED (d_dp st) = boolU32 (Enabled (Flow_Monitoring (cfgPtr st))) \<and>
    FLOW_MONITOR_SAMPLE_MASK (d_dp st) = SampleEvery (Flow_Monitoring (cfgPtr st)) - 1"
proof -
  from assms(1) obtain cfg where l: "LoadDatapath env cfg h = (None, h')" and s: "st = \<lparr>cfgPtr = cfg, d_host = h', d_live = 0\<rparr>"
    by (auto simp: startDaemon_def split: sum.splits if_splits prod.splits option.splits)
  show ?thesis using Load_inv [OF l assms(2-4)] by (simp add: daemon_inv_def s same_ttls_def ctl_ok_def)
qed

text \<open>What a turn of the collector does to the tables.\<close>

lemma GCOnce_map: "kmap_inv m \<Longrightarrow> kmap_inv (snd (snd (GCOnce clk ok cfg m' m)))"
  by (auto simp: GCOnce_def Let_def gcDelete_map [symmetric] split: prod.splits) (metis gcDelete_map kmap_inv_kevict snd_conv)

lemma gcTick_sel:
  "cfgPtr (gcTick env st) = cfgPtr st"
  "d_dp (gcTick env st) = (d_dp st)\<lparr>flows := snd (snd (GCOnce (gc_clk_tcp env) (gc_ok env) (cfgPtr st) (flows (d_dp st)) (flows (d_dp st)))),
     udp_flows := snd (snd (GCOnce (gc_clk_udp env) (gc_ok env) (cfgPtr st) (udp_flows (d_dp st)) (udp_flows (d_dp st))))\<rparr>"
  by (simp_all add: gcTick_def Let_def PublishRuntimeState_def split: prod.splits)

text \<open>Every step keeps it.\<close>

lemma ReloadPolicy_features:
  assumes "ReloadPolicy env cfg d = (e, d')"
  shows "features d' = (if features_ok env then Some (featuresFrom cfg) else features d)"
    and "\<not> features_ok env \<Longrightarrow> e = Some ErrFeatures" and "e = None \<Longrightarrow> features_ok env"
    and "features_ok env \<Longrightarrow> e \<noteq> Some ErrFeatures"
  using assms
  by (auto simp: ReloadPolicy_def ApplyFeatures_def andThen_def applyAllow_def applyCIDRs_def
      split: if_splits prod.splits option.splits)

lemma reloadMaps_features:
  assumes "reloadMaps env cur merged d = (res, tr)" and "features_ok (r_policy_back env)"
    and "\<And>e. res = ReloadPolicyFailed e \<Longrightarrow> e = ErrFeatures" and "features d \<noteq> None"
  shows "features (last tr) = (if res = Reloaded then Some (featuresFrom merged)
     else if features (last tr) = features d then features d else Some (featuresFrom cur))"
  using assms(1)
proof (cases rule: reloadMaps_cases)
  case (off_failed e d1)
  then show ?thesis using monitor_ctl(3) [OF off_failed(2)] by simp
next
  case (policy_failed e d1 d2 e3 d3)
  have "features d1 = features d" using policy_failed(1) monitor_ctl(3) by (auto split: if_splits)
  moreover have "e = ErrFeatures" using assms(3) policy_failed(4) .
  then have "features d2 = features d1"
    using ReloadPolicy_features(1,4) [OF policy_failed(2)] by auto
  ultimately show ?thesis using policy_failed monitor_ctl(3) [OF policy_failed(3)] by simp
next
  case (on_failed e d2 d3 e4 d4 e5 d5)
  then show ?thesis
    using ReloadPolicy_features(1) [OF on_failed(4)] monitor_ctl(3) [OF on_failed(5)] assms(2) by simp
next
  case (off d1 d2)
  then show ?thesis using ReloadPolicy_features(1,3) [OF off(3)] by simp
next
  case (on d2 d3)
  then show ?thesis using ReloadPolicy_features(1,3) [OF on(2)] monitor_ctl(3) [OF on(3)] by simp
qed

lemma daemon_step_inv:
  assumes "daemon_step st st'" and "daemon_inv st"
  shows "daemon_inv st'"
  using assms
proof (induction rule: daemon_step.induct)
  case (packet st ro env fr)
  then show ?case using xdp_filter_pkt_ok [of "d_dp st" ro env fr] by (simp add: daemon_inv_def pkt_ok_def same_ctl_def)
next
  case (collect st genv)
  then show ?case using GCOnce_map by (simp add: daemon_inv_def gcTick_sel dp_inv_def)
next
  case (reload renv st res warn st')
  from reload(1) show ?case
  proof (cases rule: reload_cases)
    case (kept e)
    then show ?thesis using reload.prems by simp
  next
    case (run newCfg tr)
    have i: "dp_inv (d_dp st)" using reload.prems by (simp add: daemon_inv_def)
    note fr = reloadMaps_last_frame [OF run(2) dp_inv_maps [OF i] reload(2)]
    have "dp_inv (last tr)" using fr reload_only_dp_inv i by blast
    moreover have "\<exists>f. features (last tr) = Some f \<and>
        same_ttls f (featuresFrom (if res = Reloaded then ApplyLiveFrom (cfgPtr st) newCfg else cfgPtr st))"
      using reloadMaps_features [OF run(2) reload(3) reload(4)] reload.prems
      by (auto simp: daemon_inv_def same_ttls_def split: if_splits)
    ultimately show ?thesis by (simp add: daemon_inv_def run(4))
  qed
next
  case (switch rd wr enforce st e h')
  then show ?case
    by (auto simp: SetModePinned_def daemon_inv_def dp_inv_def same_ttls_def split: option.splits if_splits)
qed

lemma daemon_reachable_inv: "daemon_step\<^sup>*\<^sup>* st st' \<Longrightarrow> daemon_inv st \<Longrightarrow> daemon_inv st'"
  by (induction rule: rtranclp_induct) (auto intro: daemon_step_inv)


section \<open>Sample runs\<close>

definition new_config :: Config where
  "new_config = load_config\<lparr>TTLEst := 600, Flow_Monitoring := (Flow_Monitoring load_config)\<lparr>Enabled := True\<rparr>\<rparr>"

definition good_reload :: reload_env where
  "good_reload = \<lparr>r_unmarshal = (\<lambda>b d. if b = ''new'' then Some new_config else if b = ''old'' then Some load_config else None),
     r_fs = [''/c'' \<mapsto> ''new''], r_path = ''/c'', r_monitor = (\<lambda>v. True), r_policy = sample_sys,
     r_monitor_back = (\<lambda>v. True), r_policy_back = sample_sys\<rparr>"

definition started :: daemon where
  "started = (case startDaemon (r_unmarshal good_reload) [''/c'' \<mapsto> ''old''] ''/c'' True sample_sys bare_host of
     (Inr st, _) \<Rightarrow> st | _ \<Rightarrow> \<lparr>cfgPtr = Default, d_host = bare_host, d_live = 0\<rparr>)"

lemma started_eq: "\<exists>h. startDaemon (r_unmarshal good_reload) [''/c'' \<mapsto> ''old''] ''/c'' True sample_sys bare_host = (Inr started, h)"
proof -
  have "case startDaemon (r_unmarshal good_reload) [''/c'' \<mapsto> ''old''] ''/c'' True sample_sys bare_host of (Inr st, _) \<Rightarrow> True | _ \<Rightarrow> False"
    by code_simp
  then show ?thesis by (auto simp: started_def split: sum.splits prod.splits)
qed

lemma bare_dp_inv: "dp_inv (h_dp bare_host)"
  by (simp add: dp_inv_def bare_host_def bare_dp_def kmap_inv_def)

lemma sample_fair: "fair_order (allow_env sample_sys)" "fair_order (cidr_env sample_sys)"
  by (simp_all add: sample_sys_def ok_sync_fair)

lemma good_fair: "fair_reload good_reload"
  by (simp add: fair_reload_def good_reload_def sample_fair)

lemma started_inv: "daemon_inv started"
  using started_eq start_inv [OF _ bare_dp_inv sample_fair] by blast

lemma started_maps: "maps_inv (d_dp started)"
  using started_inv dp_inv_maps by (simp add: daemon_inv_def)

theorem reload_success_witness:
  "\<exists>warn st'. reload good_reload started = (Reloaded, warn, st') \<and> TTLEst (cfgPtr st') = 600 \<and>
     FLOW_MONITOR_ENABLED (d_dp st') = 1 \<and> ctl_ok (cfgPtr st') (d_dp st')"
proof -
  have "fst (reload good_reload started) = Reloaded" by code_simp
  then obtain warn st' where r: "reload good_reload started = (Reloaded, warn, st')" by (cases "reload good_reload started") auto
  have "Load (r_unmarshal good_reload) (r_fs good_reload) (r_path good_reload) = Inr new_config" by code_simp
  with reload_success [OF r started_maps good_fair] r show ?thesis
    by (auto simp: new_config_def ApplyLiveFrom_def boolU32_def)
qed

theorem reload_failure_witness:
  "\<exists>e warn st'. reload (good_reload\<lparr>r_monitor := (\<lambda>v. v \<noteq> ''FLOW_MONITOR_ENABLED'')\<rparr>) started = (ReloadMonitor e, warn, st') \<and>
     cfgPtr st' = load_config \<and> ctl_ok load_config (d_dp st') \<and> FLOW_MONITOR_ENABLED (d_dp st') = 0"
proof -
  let ?env = "good_reload\<lparr>r_monitor := (\<lambda>v. v \<noteq> ''FLOW_MONITOR_ENABLED'')\<rparr>"
  have "fst (reload ?env started) = ReloadMonitor (ErrNoVar ''FLOW_MONITOR_ENABLED'')" by code_simp
  then obtain warn st' where r: "reload ?env started = (ReloadMonitor (ErrNoVar ''FLOW_MONITOR_ENABLED''), warn, st')"
    by (cases "reload ?env started") auto
  have c: "cfgPtr started = load_config" by code_simp
  have s: "ctl_ok (cfgPtr started) (d_dp started)"
    "FLOW_MONITOR_ENABLED (d_dp started) = boolU32 (Enabled (Flow_Monitoring (cfgPtr started)))"
    "FLOW_MONITOR_SAMPLE_MASK (d_dp started) = SampleEvery (Flow_Monitoring (cfgPtr started)) - 1"
    using started_eq start_inv [OF _ bare_dp_inv sample_fair] by blast+
  have "Validate load_config = (None, load_config)" by code_simp
  then have w: "wf_config (cfgPtr started)" using Validate_wf c by simp
  have "\<not> Enabled (Flow_Monitoring load_config)" by code_simp
  moreover have "fair_reload ?env" using good_fair by (simp add: fair_reload_def)
  ultimately show ?thesis
    using reload_failure [OF r _ started_maps _ s w] r
    by (auto simp: c good_reload_def sample_sys_def ok_sync_def boolU32_def load_config_def Default_def)
qed

definition gc_pass :: gc_env where
  "gc_pass = \<lparr>gc_clk_tcp = Some (1000, 0), gc_clk_udp = Some (1000, 0), gc_ok = (\<lambda>k. True), gc_read_ok = True,
     gc_publish_ok = True, gc_now = 0\<rparr>"


text \<open>
  The excluded case. A reload whose last part fails after the features were written leaves
  the data path with the new TTLs and the collector with the old ones: a flow that is idle
  for 400 seconds is live for the data path and deleted by the collector.
\<close>

definition half_reload :: reload_env where
  "half_reload = good_reload\<lparr>r_policy := sample_sys\<lparr>cidr_env := ok_sync\<lparr>sy_iter_ok := False\<rparr>\<rparr>\<rparr>"

lemma half_reload_diverges:
  "case reload half_reload started of (res, _, st) \<Rightarrow>
     (case features (d_dp st) of
        None \<Rightarrow> False
      | Some f \<Rightarrow>
          (let m = [(sample_key, \<lparr>client_isn = 0, last_seen = 500, fstate = ST_EST, fflags = 0\<rparr>)] in
           res \<noteq> Reloaded \<and> MonotonicTick (Some (1000, 0)) = 931 \<and> live_flow f sample_key 931 m \<noteq> None \<and>
           snd (snd (GCOnce (Some (1000, 0)) (\<lambda>k. True) (cfgPtr st) m m)) = []))"
  by code_simp

text \<open>
  Switching accounting off is not undone when the second variable cannot be written: the
  daemon keeps a configuration that monitors, the program does not.
\<close>

lemma off_not_undone:
  "let on = \<lparr>cfgPtr = new_config, d_host = bare_host\<lparr>h_dp := bare_dp\<lparr>FLOW_MONITOR_ENABLED := 1\<rparr>\<rparr>, d_live = 0\<rparr>;
       env = good_reload\<lparr>r_fs := [''/c'' \<mapsto> ''old''], r_monitor := (\<lambda>v. v \<noteq> ''FLOW_MONITOR_SAMPLE_MASK'')\<rparr> in
   case reload env on of (res, _, st) \<Rightarrow>
     res \<noteq> Reloaded \<and> Enabled (Flow_Monitoring (cfgPtr st)) \<and> FLOW_MONITOR_ENABLED (d_dp st) = 0"
  by code_simp

end
