(* ===== verification/Watch.thy ===== *)
theory Watch
  imports Gc_Flows
begin

text \<open>
  The configuration watch of \<open>cmd/xdpfilter/main.go\<close>: \<open>watchConfig\<close> parses the events of
  an inotify descriptor, restarts a debounce timer, and posts to a channel of capacity one
  that the main loop drains by reloading. The parser is modelled on the bytes of the read
  buffer; the rest is a step relation whose invariant says that no edit is lost. The queue
  of the kernel is unbounded here (an overflow event carries no name).
\<close>

section \<open>Parsing\<close>

definition strBytes :: "string \<Rightarrow> bytes" where
  "strBytes s = map of_char s"

definition trimNul :: "bytes \<Rightarrow> bytes" where
  "trimNul b = rev (dropWhile (\<lambda>x. x = 0) (rev b))"

definition SizeofInotifyEvent :: nat where "SizeofInotifyEvent = 16"

text \<open>
  \<open>filepath.Base\<close>: without trailing separators, behind the last one left.
\<close>

definition pathBase :: "string \<Rightarrow> string" where
  "pathBase p =
     (if p = [] then ''.''
      else (let q = rev (dropWhile (\<lambda>c. c = CHR ''/'') (rev p));
                r = rev (takeWhile (\<lambda>c. c \<noteq> CHR ''/'') (rev q))
            in if r = [] then ''/'' else r))"

function inotifyLoop :: "bytes \<Rightarrow> bytes \<Rightarrow> nat \<Rightarrow> nat \<Rightarrow> bool \<Rightarrow> bool" where
  "inotifyLoop base buf n off changed =
     (if off + SizeofInotifyEvent \<le> n then
        (let start = off + SizeofInotifyEvent;
             nameLen = unat (ld32 buf (off + 12));
             changed1 = (if 0 < nameLen \<and> start + nameLen \<le> n \<and> trimNul (take nameLen (drop start buf)) = base
                         then True else changed)
         in inotifyLoop base buf n (start + nameLen) changed1)
      else changed)"
  by pat_completeness auto
termination
  by (relation "measure (\<lambda>(base, buf, n, off, changed). n - off)") (auto simp: SizeofInotifyEvent_def)

declare inotifyLoop.simps [simp del]

definition inotifyChanged :: "string \<Rightarrow> bytes \<Rightarrow> nat \<Rightarrow> bool" where
  "inotifyChanged path buf n = inotifyLoop (strBytes (pathBase path)) buf n 0 False"

section \<open>The watch as a state machine\<close>

text \<open>
  \<open>unread\<close> counts the events of the file that the kernel holds, \<open>timers\<close> the debounce
  timers that run or have fired without having posted yet, \<open>queued\<close> is the channel, and
  \<open>stale\<close> says that the file changed after the daemon read it last.
\<close>

record watch =
  watching :: bool
  unread :: nat
  timers :: nat
  queued :: bool
  stale :: bool

inductive watch_turn :: "watch \<Rightarrow> watch \<Rightarrow> bool" where
  read: "0 < k \<Longrightarrow> k \<le> unread s \<Longrightarrow> (stopped \<longrightarrow> 0 < timers s) \<Longrightarrow>
    watch_turn s (s\<lparr>unread := unread s - k, timers := Suc (if stopped then timers s - 1 else timers s)\<rparr>)"
| fire: "0 < timers s \<Longrightarrow> watch_turn s (s\<lparr>timers := timers s - 1, queued := True\<rparr>)"
| drain: "queued s \<Longrightarrow> watch_turn s (s\<lparr>queued := False, stale := False\<rparr>)"

inductive watch_step :: "watch \<Rightarrow> watch \<Rightarrow> bool" where
  turn: "watch_turn s s' \<Longrightarrow> watch_step s s'"
| edit: "watch_step s (s\<lparr>stale := True, unread := if watching s then Suc (unread s) else unread s\<rparr>)"
| begin_watch: "watch_step s (s\<lparr>watching := True\<rparr>)"
| hangup: "watch_step s (s\<lparr>stale := False\<rparr>)"

inductive_cases watch_turnE: "watch_turn s s'"
inductive_cases watch_stepE: "watch_step s s'"

section \<open>Properties\<close>

text \<open>One event as the kernel writes it: four words, the name, and padding with NUL bytes.\<close>

record inotify_event =
  ev_head :: "u32 \<times> u32 \<times> u32"
  ev_name :: bytes
  ev_pad :: nat

definition eventBytes :: "inotify_event \<Rightarrow> bytes" where
  "eventBytes e = (case ev_head e of (wd, msk, cookie) \<Rightarrow>
     mem32 wd @ mem32 msk @ mem32 cookie @ mem32 (of_nat (length (ev_name e) + ev_pad e)) @ ev_name e @ replicate (ev_pad e) 0)"

definition event_ok :: "inotify_event \<Rightarrow> bool" where
  "event_ok e \<longleftrightarrow> length (ev_name e) + ev_pad e < 2 ^ 32 \<and> 0 \<notin> set (ev_name e)"

lemma mem32_length [simp]: "length (mem32 x) = 4"
  by (simp add: mem32_def)

lemma ld32_mem32: "ld32 (xs @ mem32 x @ ys) (length xs) = x"
proof -
  have "byteAt (xs @ mem32 x @ ys) (length xs + i) = mem32 x ! i" if "i < 4" for i
    using that by (simp add: byteAt_def nth_append)
  from this [of 0] this [of 1] this [of 2] this [of 3] show ?thesis
    by (simp add: ld32_def mem32_def join32)
qed

lemma trimNul_pad: "0 \<notin> set b \<Longrightarrow> trimNul (b @ replicate p 0) = b"
proof -
  assume a: "0 \<notin> set b"
  have "dropWhile (\<lambda>x. x = 0) (replicate p 0 @ rev b) = dropWhile (\<lambda>x. x = 0) (rev b)" by (induction p) auto
  also have "\<dots> = rev b" using a by (cases b rule: rev_cases) auto
  finally show ?thesis by (simp add: trimNul_def)
qed

lemma inotifyLoop_event:
  assumes "event_ok e" and "base \<noteq> []" and "buf = pre @ eventBytes e @ post"
  shows "inotifyLoop base buf (length buf) (length pre) c =
     inotifyLoop base buf (length buf) (length pre + length (eventBytes e)) (c \<or> ev_name e = base)"
proof -
  obtain wd msk cookie where h: "ev_head e = (wd, msk, cookie)" by (metis prod_cases3)
  define len where "len = length (ev_name e) + ev_pad e"
  have "len < 2 ^ 32" using assms(1) by (simp add: event_ok_def len_def)
  then have len: "unat (of_nat len :: u32) = len" by (simp add: unat_of_nat take_bit_nat_eq_self del: of_nat_add)
  define hd3 where "hd3 = mem32 wd @ mem32 msk @ mem32 cookie"
  have b: "buf = (pre @ hd3) @ mem32 (of_nat len) @ (ev_name e @ replicate (ev_pad e) 0 @ post)"
    by (simp add: assms(3) eventBytes_def h hd3_def len_def)
  have "ld32 buf (length (pre @ hd3)) = of_nat len" unfolding b by (rule ld32_mem32)
  then have l: "unat (ld32 buf (length pre + 12)) = len" by (simp add: hd3_def len)
  have d: "drop (length pre + 16) buf = ev_name e @ replicate (ev_pad e) 0 @ post" by (simp add: b hd3_def)
  have t: "take len (drop (length pre + 16) buf) = ev_name e @ replicate (ev_pad e) 0" by (simp add: d len_def)
  have n: "length buf = length pre + 16 + len + length post" by (simp add: b hd3_def len_def)
  have e: "length (eventBytes e) = 16 + len" by (simp add: eventBytes_def h len_def)
  have "0 < len \<and> trimNul (take len (drop (length pre + 16) buf)) = base \<longleftrightarrow> ev_name e = base"
    using assms(1,2) trimNul_pad [of "ev_name e" "ev_pad e"] unfolding t by (auto simp: event_ok_def len_def)
  then show ?thesis
    by (subst inotifyLoop.simps) (simp add: SizeofInotifyEvent_def Let_def l n e add.assoc)
qed

lemma inotifyLoop_events:
  assumes "\<forall>e \<in> set es. event_ok e" and "base \<noteq> []" and "buf = pre @ concat (map eventBytes es)"
  shows "inotifyLoop base buf (length buf) (length pre) c = (c \<or> (\<exists>e \<in> set es. ev_name e = base))"
  using assms
proof (induction es arbitrary: pre c)
  case Nil
  then show ?case by (subst inotifyLoop.simps) (simp add: SizeofInotifyEvent_def)
next
  case (Cons e es)
  have "inotifyLoop base buf (length buf) (length pre) c =
      inotifyLoop base buf (length buf) (length (pre @ eventBytes e)) (c \<or> ev_name e = base)"
    using inotifyLoop_event [of e base buf pre "concat (map eventBytes es)" c] Cons.prems by simp
  also have "\<dots> = ((c \<or> ev_name e = base) \<or> (\<exists>e \<in> set es. ev_name e = base))"
    using Cons.prems by (intro Cons.IH) simp_all
  finally show ?case by auto
qed

lemma pathBase_nonempty: "pathBase p \<noteq> []"
  by (simp add: pathBase_def Let_def)

lemma strBytes_Nil_iff [simp]: "strBytes s = [] \<longleftrightarrow> s = []"
  by (simp add: strBytes_def)

text \<open>The parser finds the configuration file exactly when the kernel reported it: for every
  sequence of well-formed events that fills the bytes read, and whatever the rest of the
  buffer still holds from earlier reads, a change is noted exactly when one of the events
  carries the base name of the path.\<close>

theorem inotifyChanged_correct:
  assumes "\<forall>e \<in> set es. event_ok e" and "n = length (concat (map eventBytes es))"
  shows "inotifyChanged path (concat (map eventBytes es) @ old) n \<longleftrightarrow> (\<exists>e \<in> set es. ev_name e = strBytes (pathBase path))"
proof -
  have "inotifyLoop base buf n off c = inotifyLoop base (take n buf) n off c" if "n \<le> length buf" for base buf off c and n :: nat
    using that
  proof (induction base buf n off c rule: inotifyLoop.induct)
    case (1 base buf n off c)
    show ?case
    proof (cases "off + SizeofInotifyEvent \<le> n")
      case True
      have l: "ld32 (take n buf) (off + 12) = ld32 buf (off + 12)"
        using True 1(2) by (simp add: ld32_def byteAt_def SizeofInotifyEvent_def)
      have t: "take k (drop s (take n buf)) = take k (drop s buf)" if "s + k \<le> n" for k s
        using that by (simp add: drop_take min_def)
      show ?thesis
        using True 1(1) [OF True refl refl refl 1(2)] t
        unfolding inotifyLoop.simps [of base buf n off c] inotifyLoop.simps [of base "take n buf" n off c]
        by (simp add: Let_def l if_bool_eq_conj cong: conj_cong)
    next
      case False
      then show ?thesis by (subst (1 2) inotifyLoop.simps) simp
    qed
  qed
  note stale = this
  have "inotifyChanged path (concat (map eventBytes es) @ old) n = inotifyChanged path (concat (map eventBytes es)) n"
    unfolding inotifyChanged_def using assms(2) by (subst stale) simp_all
  also have "\<dots> = (\<exists>e \<in> set es. ev_name e = strBytes (pathBase path))"
    unfolding inotifyChanged_def
    using inotifyLoop_events [of es "strBytes (pathBase path)" "concat (map eventBytes es)" "[]" False] assms
    by (simp add: pathBase_nonempty)
  finally show ?thesis .
qed

theorem inotifyChanged_correct_witness:
  "inotifyChanged ''/etc/c'' (eventBytes \<lparr>ev_head = (1, 8, 0), ev_name = strBytes ''c'', ev_pad = 15\<rparr> @ [7]) 32"
proof -
  let ?e = "\<lparr>ev_head = (1, 8, 0), ev_name = strBytes ''c'', ev_pad = 15\<rparr>"
  have "event_ok ?e" by (simp add: event_ok_def strBytes_def)
  moreover have "32 = length (concat (map eventBytes [?e]))" by (simp add: eventBytes_def strBytes_def)
  moreover have "pathBase ''/etc/c'' = ''c''" by code_simp
  ultimately show ?thesis using inotifyChanged_correct [of "[?e]" 32 "''/etc/c''" "[7]"] by simp
qed

text \<open>A pending reload: the edit is in the kernel's queue, a timer runs, or the channel is full.\<close>

definition pending :: "watch \<Rightarrow> bool" where
  "pending s \<longleftrightarrow> 0 < unread s \<or> 0 < timers s \<or> queued s"

definition watch_inv :: "watch \<Rightarrow> bool" where
  "watch_inv s \<longleftrightarrow> watching s \<and> (stale s \<longrightarrow> pending s)"

lemma watch_turn_inv: "watch_turn s s' \<Longrightarrow> watch_inv s \<Longrightarrow> watch_inv s'"
  by (induction rule: watch_turn.induct) (auto simp: watch_inv_def pending_def)

lemma watch_step_inv: "watch_step s s' \<Longrightarrow> watch_inv s \<Longrightarrow> watch_inv s'"
proof (induction rule: watch_step.induct)
  case (turn s s')
  then show ?case using watch_turn_inv by blast
qed (auto simp: watch_inv_def pending_def)

lemma watch_reachable_inv: "watch_step\<^sup>*\<^sup>* s s' \<Longrightarrow> watch_inv s \<Longrightarrow> watch_inv s'"
  by (induction rule: rtranclp_induct) (auto intro: watch_step_inv)

lemma drain_reload: "queued s \<Longrightarrow> \<exists>s'. watch_turn\<^sup>*\<^sup>* s s' \<and> \<not> stale s'"
  using watch_turn.drain [of s] by (intro exI [of _ "s\<lparr>queued := False, stale := False\<rparr>"]) auto

lemma fire_reload: "0 < timers s \<Longrightarrow> \<exists>s'. watch_turn\<^sup>*\<^sup>* s s' \<and> \<not> stale s'"
  using drain_reload [of "s\<lparr>timers := timers s - 1, queued := True\<rparr>"] watch_turn.fire [of s]
  by (auto intro: converse_rtranclp_into_rtranclp)

lemma read_reload: "0 < unread s \<Longrightarrow> \<exists>s'. watch_turn\<^sup>*\<^sup>* s s' \<and> \<not> stale s'"
  using fire_reload [of "s\<lparr>unread := unread s - 1, timers := Suc (timers s)\<rparr>"]
    watch_turn.read [of 1 s False]
  by (auto intro: converse_rtranclp_into_rtranclp)


definition quiet_watch :: watch where
  "quiet_watch = \<lparr>watching = True, unread = 0, timers = 0, queued = False, stale = False\<rparr>"


text \<open>
  Before the watch is installed an edit is lost: the daemon reads the file first, tunes the
  host and attaches the data path, and adds the watch last.
\<close>

lemma edit_before_watch:
  "\<exists>s. watch_step\<^sup>*\<^sup>* (quiet_watch\<lparr>watching := False\<rparr>) s \<and> watching s \<and> stale s \<and> \<not> pending s"
proof -
  let ?s1 = "quiet_watch\<lparr>watching := False, stale := True\<rparr>"
  have "watch_step (quiet_watch\<lparr>watching := False\<rparr>) ?s1"
    using watch_step.edit [of "quiet_watch\<lparr>watching := False\<rparr>"] by (simp add: quiet_watch_def)
  moreover have "watch_step ?s1 (?s1\<lparr>watching := True\<rparr>)" by (rule watch_step.begin_watch)
  ultimately have "watch_step\<^sup>*\<^sup>* (quiet_watch\<lparr>watching := False\<rparr>) (?s1\<lparr>watching := True\<rparr>)" by (metis rtranclp.rtrancl_into_rtrancl rtranclp.rtrancl_refl)
  then show ?thesis by (intro exI [of _ "?s1\<lparr>watching := True\<rparr>"]) (simp add: quiet_watch_def pending_def)
qed

end
