(* ===== verification/Cli.thy ===== *)
theory Cli
  imports Controller Gc_Flows Resources
begin

text \<open>
  The subcommands of \<open>cmd/xdpfilter/main.go\<close> that act on a running instance: argument
  parsing as the standard \<open>flag\<close> package does it for string and boolean flags, \<open>mode\<close>,
  \<open>stop\<close>, the row selection of \<open>flows\<close>, \<open>check\<close>, and the small helpers of the daemon. The
  world is that of theory Controller. Printed text is not modelled.
\<close>

section \<open>Flags\<close>

datatype flag_kind = StringFlag | BoolFlag

text \<open>With \<open>ExitOnError\<close> a bad command line ends the process, with 0 for \<open>-help\<close>.\<close>

datatype flag_result = Parsed "string \<rightharpoonup> string" "string list" | Exit int

definition parseBool :: "string \<Rightarrow> bool option" where
  "parseBool s =
     (if s \<in> set [''1'', ''t'', ''T'', ''true'', ''TRUE'', ''True''] then Some True
      else if s \<in> set [''0'', ''f'', ''F'', ''false'', ''FALSE'', ''False''] then Some False
      else None)"

definition boolText :: "bool \<Rightarrow> string" where
  "boolText b = (if b then ''true'' else ''false'')"

fun parseFlags :: "(string \<rightharpoonup> flag_kind) \<Rightarrow> (string \<rightharpoonup> string) \<Rightarrow> string list \<Rightarrow> flag_result" where
  "parseFlags spec vals [] = Parsed vals []"
| "parseFlags spec vals (s # args) =
     (if length s < 2 \<or> hd s \<noteq> CHR ''-'' then Parsed vals (s # args)
      else if s = ''--'' then Parsed vals args
      else
        (let body = (if s ! 1 = CHR ''-'' then drop 2 s else drop 1 s) in
         if hd body = CHR ''-'' \<or> hd body = CHR ''='' then Exit 2
         else
           (let nv = (case cutOn (CHR ''='') body of None \<Rightarrow> (body, None) | Some (n, v) \<Rightarrow> (n, Some v)) in
            case spec (fst nv) of
              None \<Rightarrow> Exit (if fst nv = ''help'' \<or> fst nv = ''h'' then 0 else 2)
            | Some BoolFlag \<Rightarrow>
                (case snd nv of
                   None \<Rightarrow> parseFlags spec (vals(fst nv \<mapsto> boolText True)) args
                 | Some v \<Rightarrow> (case parseBool v of
                     None \<Rightarrow> Exit 2
                   | Some b \<Rightarrow> parseFlags spec (vals(fst nv \<mapsto> boolText b)) args))
            | Some StringFlag \<Rightarrow>
                (case snd nv of
                   Some v \<Rightarrow> parseFlags spec (vals(fst nv \<mapsto> v)) args
                 | None \<Rightarrow> (case args of [] \<Rightarrow> Exit 2 | v # rest \<Rightarrow> parseFlags spec (vals(fst nv \<mapsto> v)) rest)))))"

definition DefaultPath :: string where "DefaultPath = ''/etc/xdpfilter/config.yaml''"

definition configPath :: "(string \<rightharpoonup> string) \<Rightarrow> string" where
  "configPath vals = (case vals ''config'' of None \<Rightarrow> DefaultPath | Some p \<Rightarrow> p)"

definition isSet :: "string \<Rightarrow> (string \<rightharpoonup> string) \<Rightarrow> bool" where
  "isSet name vals \<longleftrightarrow> vals name = Some (boolText True)"

text \<open>The pin directory of the instance: that of the configuration, or the default if it does not load.\<close>

definition pinDirOf :: "(string \<Rightarrow> Config \<Rightarrow> Config option) \<Rightarrow> fsys \<Rightarrow> string \<Rightarrow> string" where
  "pinDirOf unm fs path = (case Load unm fs path of Inr cfg \<Rightarrow> PinDir cfg | Inl _ \<Rightarrow> DefaultPinDir)"

section \<open>mode\<close>

fun modeArgs :: "string list \<Rightarrow> string \<times> string list" where
  "modeArgs [] = ([], [])"
| "modeArgs (a # as) =
     (case modeArgs as of (m, rest) \<Rightarrow>
        if a = ''monitor'' \<or> a = ''enforce'' then (if m = [] then a else m, rest) else (m, a # rest))"

record mode_env =
  m_unmarshal :: "string \<Rightarrow> Config \<Rightarrow> Config option"
  m_marshal :: "Config \<Rightarrow> string option"
  m_save_os :: save_calls
  m_lookup_ok :: bool
  m_put_ok :: bool

datatype mode_result = ModeExit int | ModeUsage | ModeFailed load_error | ModeSet | ModeNotSaved

definition cmdMode :: "mode_env \<Rightarrow> string list \<Rightarrow> world \<Rightarrow> mode_result \<times> world" where
  "cmdMode env args w =
     (case modeArgs args of (md, flagArgs) \<Rightarrow>
      (case parseFlags [''config'' \<mapsto> StringFlag] Map.empty flagArgs of
         Exit n \<Rightarrow> (ModeExit n, w)
       | Parsed vals rest \<Rightarrow>
           (let path = configPath vals; pin = pinDirOf (m_unmarshal env) (w_fs w) path in
            if md = [] then (ModeUsage, w)
            else (case SetModePinned (m_lookup_ok env) (m_put_ok env) (md = ''enforce'') (w_hosts w pin) of
              (Some e, h) \<Rightarrow> (ModeFailed e, w\<lparr>w_hosts := (w_hosts w)(pin := h)\<rparr>)
            | (None, h) \<Rightarrow>
                (let w1 = w\<lparr>w_hosts := (w_hosts w)(pin := h)\<rparr> in
                 case Load (m_unmarshal env) (w_fs w1) path of
                   Inl _ \<Rightarrow> (ModeSet, w1)
                 | Inr cfg \<Rightarrow>
                     (case Save (m_marshal env) (m_save_os env) (cfg\<lparr>Mode := md\<rparr>) path (w_fs w1) of
                        (None, fs') \<Rightarrow> (ModeSet, w1\<lparr>w_fs := fs'\<rparr>)
                      | (Some _, fs') \<Rightarrow> (ModeNotSaved, w1\<lparr>w_fs := fs'\<rparr>)))))))"

section \<open>stop\<close>

record stop_env =
  st_unmarshal :: "string \<Rightarrow> Config \<Rightarrow> Config option"
  st_answer :: string
  st_gone :: "string \<Rightarrow> bool"

datatype stop_result = StopExit int | StopAborted | Stopped "load_error option"

text \<open>\<open>cmdStop\<close>; the last component says whether the tuning snapshot is restored.\<close>

definition cmdStop :: "stop_env \<Rightarrow> string list \<Rightarrow> world \<Rightarrow> stop_result \<times> world \<times> bool" where
  "cmdStop env args w =
     (case parseFlags [''detach'' \<mapsto> BoolFlag, ''restore'' \<mapsto> BoolFlag, ''yes'' \<mapsto> BoolFlag, ''config'' \<mapsto> StringFlag]
             Map.empty args of
        Exit n \<Rightarrow> (StopExit n, w, False)
      | Parsed vals rest \<Rightarrow>
          (let pin = pinDirOf (st_unmarshal env) (w_fs w) (configPath vals);
               w1 = snd (ServiceAction (\<lambda>n. True) ''stop'' w) in
           if isSet ''detach'' vals then
             (if \<not> isSet ''yes'' vals \<and> toLower (trimSpace (st_answer env)) \<noteq> ''y'' then (StopAborted, w1, False)
              else (case Detach (st_gone env) (w_hosts w1 pin) of
                      (e, h) \<Rightarrow> (Stopped e, w1\<lparr>w_hosts := (w_hosts w1)(pin := h)\<rparr>, isSet ''restore'' vals)))
           else (Stopped None, w1, isSet ''restore'' vals)))"

section \<open>flows and check\<close>

text \<open>The rows \<open>cmdFlows\<close> prints, and their number.\<close>

fun showFlows :: "int \<Rightarrow> int \<Rightarrow> int \<Rightarrow> FlowInfo list \<Rightarrow> FlowInfo list \<times> int" where
  "showFlows limit vlan n [] = ([], n)"
| "showFlows limit vlan n (f # fs) =
     (if vlan \<ge> 0 \<and> uint (OuterVID f) \<noteq> vlan then showFlows limit vlan n fs
      else if limit > 0 \<and> n + 1 \<ge> limit then ([f], n + 1)
      else (case showFlows limit vlan (n + 1) fs of (rows, k) \<Rightarrow> (f # rows, k)))"

definition cmdFlows :: "(string \<Rightarrow> Config \<Rightarrow> Config option) \<Rightarrow> (u64 \<times> u64) option \<Rightarrow> int \<Rightarrow> int \<Rightarrow> string \<Rightarrow> world
    \<Rightarrow> load_error + FlowInfo list \<times> int" where
  "cmdFlows unm clk limit vlan path w =
     (let h = w_hosts w (pinDirOf unm (w_fs w) path) in
      case OpenPinned h of
        Some e \<Rightarrow> Inl e
      | None \<Rightarrow> Inr (showFlows limit vlan 0
          (DumpFlows clk (flows (h_dp h)) ''TCP'' 0 @ DumpFlows clk (udp_flows (h_dp h)) ''UDP'' 0)))"

text \<open>\<open>cmdCheck\<close>: the labelled results in the order they are printed.\<close>

definition mountsContain :: "string option \<Rightarrow> string \<Rightarrow> bool" where
  "mountsContain mounts path = (case mounts of
     None \<Rightarrow> False
   | Some b \<Rightarrow> list_ex (\<lambda>line. let f = strFields line in
       3 \<le> length f \<and> f ! 1 = path \<and> hasPrefix (f ! 2) ''bpf'') (splitOn newline b))"

definition checkItems :: "config_error + Config \<Rightarrow> (string \<Rightarrow> bool) \<Rightarrow> string option \<Rightarrow> bool \<Rightarrow> bool \<Rightarrow> (string \<times> bool) list" where
  "checkItems cfg present mounts memlock is_root =
     [(''config'', \<not> isl cfg)] @
     (case cfg of Inl _ \<Rightarrow> []
      | Inr c \<Rightarrow> map (\<lambda>ifc. (''interface '' @ ifc, present ifc)) [TrustedIface c, UntrustedIface c]) @
     [(''bpffs mounted'', mountsContain mounts ''/sys/fs/bpf''), (''memlock'', memlock), (''root'', is_root)]"

definition cmdCheck :: "config_error + Config \<Rightarrow> (string \<Rightarrow> bool) \<Rightarrow> string option \<Rightarrow> bool \<Rightarrow> bool \<Rightarrow> bool" where
  "cmdCheck cfg present mounts memlock is_root = fold (\<lambda>(label, ok) acc. if ok then acc else False)
     (checkItems cfg present mounts memlock is_root) True"

section \<open>Helpers of the daemon\<close>

text \<open>The watchdog period in nanoseconds, an \<open>int64\<close>; 0 means no watchdog.\<close>

definition watchdogInterval :: "string \<Rightarrow> int" where
  "watchdogInterval usec = (case atoi usec of (n, e) \<Rightarrow>
     if e \<noteq> None \<or> n \<le> 0 then 0 else wrapInt ((n div 2) * 1000))"

text \<open>The period of a worker: \<open>time.Duration(s) * time.Second\<close> in an \<open>int64\<close>, at least a nanosecond.\<close>

definition loopPeriod :: "int \<Rightarrow> int" where
  "loopPeriod d = (if d \<le> 0 then 1000000000 else d)"

definition workerPeriod :: "int \<Rightarrow> int" where
  "workerPeriod secs = loopPeriod (wrapInt (secs * 1000000000))"

section \<open>Properties\<close>

lemma modeArgs_word: "fst (modeArgs as) = [] \<or> fst (modeArgs as) = ''monitor'' \<or> fst (modeArgs as) = ''enforce''"
  by (induction as) (auto split: prod.splits)

text \<open>The mode may stand anywhere on the command line, before, between and behind the flags.\<close>

lemma modeArgs_position:
  assumes "m = ''monitor'' \<or> m = ''enforce''" and "\<forall>a \<in> set (xs @ ys). a \<noteq> ''monitor'' \<and> a \<noteq> ''enforce''"
  shows "modeArgs (xs @ m # ys) = (m, xs @ ys)"
proof -
  have "modeArgs ys = ([], ys)" using assms(2) by (induction ys) auto
  then have "modeArgs (m # ys) = (m, ys)" using assms(1) by auto
  then show ?thesis using assms(2) by (induction xs) auto
qed

lemma SetModePinned_ok:
  assumes "SetModePinned a b enf h = (None, h')"
  shows "\<exists>f. features (h_dp h) = Some f \<and> h' = h\<lparr>h_dp := (h_dp h)\<lparr>features := Some (f\<lparr>mode := if enf then 1 else 0\<rparr>)\<rparr>\<rparr>"
  using assms by (auto simp: SetModePinned_def split: option.splits if_splits)

lemma wf_config_Mode: "wf_config c \<Longrightarrow> md = ''monitor'' \<or> md = ''enforce'' \<Longrightarrow> wf_config (c\<lparr>Mode := md\<rparr>)"
  by (auto simp: wf_config_def)

lemma Load_wf: "Load unm fs path = Inr c \<Longrightarrow> wf_config c"
  using Validate_wf by (auto simp: Load_def split: option.splits prod.splits)

text \<open>What \<open>xdpfilter mode\<close> achieves when it reports the mode set: the running instance has the
  mode and is otherwise unchanged, no service command was issued, and a configuration that
  loaded before loads back with the new mode and nothing else changed, so that the mode
  survives a restart. When only the save failed, the file is as it was.\<close>

theorem cmdMode_effect:
  assumes "cmdMode env args w = (r, w')" and "r = ModeSet \<or> r = ModeNotSaved"
  shows "\<exists>md rest vals rest' f. modeArgs args = (md, rest) \<and> (md = ''monitor'' \<or> md = ''enforce'') \<and>
    parseFlags [''config'' \<mapsto> StringFlag] Map.empty rest = Parsed vals rest' \<and>
    (let path = configPath vals; pin = pinDirOf (m_unmarshal env) (w_fs w) path; h = w_hosts w pin in
     features (h_dp h) = Some f \<and> w_service w' = w_service w \<and>
     w_hosts w' = (w_hosts w)(pin := h\<lparr>h_dp := (h_dp h)\<lparr>features := Some (f\<lparr>mode := if md = ''enforce'' then MODE_ENFORCE else MODE_MONITOR\<rparr>)\<rparr>\<rparr>) \<and>
     (r = ModeNotSaved \<longrightarrow> w_fs w' path = w_fs w path) \<and>
     (\<forall>cfg b. r = ModeSet \<longrightarrow> Load (m_unmarshal env) (w_fs w) path = Inr cfg \<longrightarrow> m_marshal env (cfg\<lparr>Mode := md\<rparr>) = Some b \<longrightarrow>
        m_unmarshal env b Default = Some (cfg\<lparr>Mode := md\<rparr>) \<longrightarrow>
        Load (m_unmarshal env) (w_fs w') path = Inr (cfg\<lparr>Mode := md\<rparr>)))"
proof -
  obtain md rest where a: "modeArgs args = (md, rest)" by fastforce
  from assms a obtain vals rest' where p: "parseFlags [''config'' \<mapsto> StringFlag] Map.empty rest = Parsed vals rest'"
    by (auto simp: cmdMode_def split: flag_result.splits)
  define path where "path = configPath vals"
  define pin where "pin = pinDirOf (m_unmarshal env) (w_fs w) path"
  from assms a p have md: "md \<noteq> []" by (auto simp: cmdMode_def Let_def)
  then have word: "md = ''monitor'' \<or> md = ''enforce''" using modeArgs_word [of args] a by simp
  obtain se h' where s0: "SetModePinned (m_lookup_ok env) (m_put_ok env) (md = ''enforce'') (w_hosts w pin) = (se, h')" by fastforce
  have c: "cmdMode env args w = (case se of Some e \<Rightarrow> (ModeFailed e, w\<lparr>w_hosts := (w_hosts w)(pin := h')\<rparr>) | None \<Rightarrow>
      (case Load (m_unmarshal env) (w_fs w) path of Inl _ \<Rightarrow> (ModeSet, w\<lparr>w_hosts := (w_hosts w)(pin := h')\<rparr>)
      | Inr cfg \<Rightarrow> (case Save (m_marshal env) (m_save_os env) (cfg\<lparr>Mode := md\<rparr>) path (w_fs w) of
          (None, fs') \<Rightarrow> (ModeSet, w\<lparr>w_hosts := (w_hosts w)(pin := h'), w_fs := fs'\<rparr>)
        | (Some _, fs') \<Rightarrow> (ModeNotSaved, w\<lparr>w_hosts := (w_hosts w)(pin := h'), w_fs := fs'\<rparr>))))"
    using a p md s0 by (simp add: cmdMode_def Let_def path_def [symmetric] pin_def [symmetric] split: option.split sum.split)
  then have s: "SetModePinned (m_lookup_ok env) (m_put_ok env) (md = ''enforce'') (w_hosts w pin) = (None, h')"
    using assms s0 by (cases se) auto
  with s0 c assms(1) have r: "(case Load (m_unmarshal env) (w_fs w) path of Inl _ \<Rightarrow> (ModeSet, w\<lparr>w_hosts := (w_hosts w)(pin := h')\<rparr>)
      | Inr cfg \<Rightarrow> (case Save (m_marshal env) (m_save_os env) (cfg\<lparr>Mode := md\<rparr>) path (w_fs w) of
          (None, fs') \<Rightarrow> (ModeSet, w\<lparr>w_hosts := (w_hosts w)(pin := h'), w_fs := fs'\<rparr>)
        | (Some _, fs') \<Rightarrow> (ModeNotSaved, w\<lparr>w_hosts := (w_hosts w)(pin := h'), w_fs := fs'\<rparr>))) = (r, w')"
    by simp
  obtain f where f: "features (h_dp (w_hosts w pin)) = Some f"
    "h' = (w_hosts w pin)\<lparr>h_dp := (h_dp (w_hosts w pin))\<lparr>features := Some (f\<lparr>mode := if md = ''enforce'' then 1 else 0\<rparr>)\<rparr>\<rparr>"
    using SetModePinned_ok [OF s] by blast
  have w': "w_hosts w' = (w_hosts w)(pin := h')" "w_service w' = w_service w"
    using r by (auto split: sum.splits prod.splits option.splits)
  have ns: "r = ModeNotSaved \<longrightarrow> w_fs w' path = w_fs w path"
    using r Save_err by (auto split: sum.splits prod.splits option.splits)
  have ld: "Load (m_unmarshal env) (w_fs w') path = Inr (cfg\<lparr>Mode := md\<rparr>)"
    if "r = ModeSet" "Load (m_unmarshal env) (w_fs w) path = Inr cfg" "m_marshal env (cfg\<lparr>Mode := md\<rparr>) = Some b"
      "m_unmarshal env b Default = Some (cfg\<lparr>Mode := md\<rparr>)" for cfg b
  proof -
    from that r obtain fs' where "Save (m_marshal env) (m_save_os env) (cfg\<lparr>Mode := md\<rparr>) path (w_fs w) = (None, fs')" "w_fs w' = fs'"
      by (auto split: prod.splits option.splits)
    with Save_ok that(3) have "w_fs w' path = Some b" by fastforce
    with that(4) Validate_id [OF wf_config_Mode [OF Load_wf [OF that(2)] word]] show ?thesis by (simp add: Load_def)
  qed
  show ?thesis
    using a p word f w' ns ld
    by (intro exI [of _ md] exI [of _ rest] exI [of _ vals] exI [of _ rest'] exI [of _ f])
      (simp add: Let_def path_def [symmetric] pin_def [symmetric] MODE_ENFORCE_def MODE_MONITOR_def)
qed

text \<open>Stopping keeps the wire up: unless detaching was asked for and confirmed, no pinned object
  of any instance is touched, and the only service command is a stop.\<close>

theorem cmdStop_keeps_datapath:
  assumes "cmdStop env args w = (r, w', restored)"
    and "parseFlags [''detach'' \<mapsto> BoolFlag, ''restore'' \<mapsto> BoolFlag, ''yes'' \<mapsto> BoolFlag, ''config'' \<mapsto> StringFlag] Map.empty args = Parsed vals rest"
    and "\<not> isSet ''detach'' vals \<or> \<not> isSet ''yes'' vals \<and> toLower (trimSpace (st_answer env)) \<noteq> ''y''"
  shows "w_hosts w' = w_hosts w \<and> w_fs w' = w_fs w \<and> w_service w' = w_service w @ [''stop'']"
  using assms by (auto simp: cmdStop_def ServiceAction_def Let_def split: if_splits)

text \<open>The rows of \<open>xdpfilter flows\<close>: the first \<open>limit\<close> of those with the wanted outer VLAN.\<close>

lemma showFlows_eq:
  assumes "limit \<le> 0 \<or> n < limit"
  shows "showFlows limit vlan n fs =
    (let rows = filter (\<lambda>f. vlan < 0 \<or> uint (OuterVID f) = vlan) fs;
         shown = (if limit > 0 then take (nat (limit - n)) rows else rows)
     in (shown, n + int (length shown)))"
  using assms
proof (induction fs arbitrary: n)
  case (Cons f fs)
  have s: "limit > 0 \<Longrightarrow> nat (limit - n) = Suc (nat (limit - (n + 1)))" using Cons.prems by linarith
  show ?case
  proof (cases "limit > 0 \<and> n + 1 \<ge> limit")
    case True
    then have "limit = n + 1" using Cons.prems by linarith
    with True Cons.IH [OF Cons.prems] show ?thesis by (auto simp: Let_def)
  next
    case False
    then have "limit \<le> 0 \<or> n + 1 < limit" by linarith
    from Cons.IH [OF this] Cons.IH [OF Cons.prems] False s show ?thesis by (auto simp: Let_def)
  qed
qed (auto simp: Let_def)

lemma cmdCheck_iff: "cmdCheck cfg present mounts memlock is_root \<longleftrightarrow> (\<forall>(label, ok) \<in> set (checkItems cfg present mounts memlock is_root). ok)"
proof -
  have "fold (\<lambda>(label, ok) acc. if ok then acc else False) xs b \<longleftrightarrow> b \<and> (\<forall>(label, ok) \<in> set xs. ok)" for xs b
    by (induction xs arbitrary: b) auto
  from this [of "checkItems cfg present mounts memlock is_root" True] show ?thesis unfolding cmdCheck_def by blast
qed

text \<open>The watchdog is notified at least twice per period for every period the manager can set
  that fits the duration type.\<close>

lemma watchdogInterval_half:
  assumes "atoi usec = (n, None)" and "2 \<le> n" and "n < 2 ^ 54"
  shows "0 < watchdogInterval usec \<and> 2 * watchdogInterval usec \<le> n * 1000"
  using assms by (auto simp: watchdogInterval_def wrapInt_def)

lemma workerPeriod_pos: "0 < workerPeriod secs"
  by (simp add: workerPeriod_def loopPeriod_def)

section \<open>Sample runs\<close>

definition mode_sample :: mode_env where
  "mode_sample = \<lparr>m_unmarshal = (\<lambda>b d. Some (sample_cfg b)), m_marshal = (\<lambda>c. Some (Mode c)),
     m_save_os = \<lparr>mkdir_ok = True, write_ok = True, write_left = None, rename_ok = True\<rparr>, m_lookup_ok = True, m_put_ok = True\<rparr>"

definition mode_world :: world where
  "mode_world = apply_world\<lparr>w_hosts := (\<lambda>p. (w_hosts apply_world p)\<lparr>h_dp := bare_dp\<lparr>features := Some zero_features\<rparr>\<rparr>)\<rparr>"

theorem cmdMode_effect_witness:
  "\<exists>w'. cmdMode mode_sample [''--config'', ''/c'', ''monitor''] mode_world = (ModeSet, w') \<and>
     Load (m_unmarshal mode_sample) (w_fs w') ''/c'' = Inr (sample_cfg ''monitor'')"
proof -
  let ?args = "[''--config'', ''/c'', ''monitor'']"
  have "fst (cmdMode mode_sample ?args mode_world) = ModeSet" by code_simp
  then obtain w' where r: "cmdMode mode_sample ?args mode_world = (ModeSet, w')" by (cases "cmdMode mode_sample ?args mode_world") auto
  have m: "modeArgs ?args = (''monitor'', [''--config'', ''/c''])" by code_simp
  have "case parseFlags [''config'' \<mapsto> StringFlag] Map.empty [''--config'', ''/c''] of Parsed v r \<Rightarrow> configPath v = ''/c'' | Exit n \<Rightarrow> False" by code_simp
  then obtain v rest where p: "parseFlags [''config'' \<mapsto> StringFlag] Map.empty [''--config'', ''/c''] = Parsed v rest" "configPath v = ''/c''"
    by (auto split: flag_result.splits)
  have l: "Load (m_unmarshal mode_sample) (w_fs mode_world) ''/c'' = Inr (sample_cfg ''enforce'')" by code_simp
  have e: "(sample_cfg ''enforce'')\<lparr>Mode := ''monitor''\<rparr> = sample_cfg ''monitor''" by (simp add: sample_cfg_def Clone_def)
  have mm: "m_marshal mode_sample (sample_cfg ''monitor'') = Some ''monitor''" "m_unmarshal mode_sample ''monitor'' Default = Some (sample_cfg ''monitor'')"
    by (simp_all add: mode_sample_def sample_cfg_def Clone_def)
  from cmdMode_effect [OF r] m p l mm show ?thesis using r by (auto simp: Let_def e)
qed

theorem cmdStop_keeps_datapath_witness:
  "w_hosts (fst (snd (cmdStop \<lparr>st_unmarshal = (\<lambda>b d. None), st_answer = ''n'', st_gone = (\<lambda>n. True)\<rparr> [''-detach''] apply_world))) =
   w_hosts apply_world"
proof -
  let ?env = "\<lparr>st_unmarshal = (\<lambda>b d. None), st_answer = ''n'', st_gone = (\<lambda>n. True)\<rparr>"
  let ?spec = "[''detach'' \<mapsto> BoolFlag, ''restore'' \<mapsto> BoolFlag, ''yes'' \<mapsto> BoolFlag, ''config'' \<mapsto> StringFlag]"
  obtain r w' b where c: "cmdStop ?env [''-detach''] apply_world = (r, w', b)" by (metis prod_cases3)
  have "case parseFlags ?spec Map.empty [''-detach''] of Parsed v rest \<Rightarrow> \<not> isSet ''yes'' v | Exit n \<Rightarrow> False" by code_simp
  then obtain v rest where p: "parseFlags ?spec Map.empty [''-detach''] = Parsed v rest" "\<not> isSet ''yes'' v"
    by (auto split: flag_result.splits)
  have "toLower (trimSpace ''n'') \<noteq> ''y''" by code_simp
  with cmdStop_keeps_datapath [OF c p(1)] p(2) c show ?thesis by simp
qed

end
