(* ===== verification/Dashboard.thy ===== *)
theory Dashboard
  imports Controller Flow_Monitor Stats
begin

text \<open>
  What the operations console shows of the running filter, \<open>internal/manage/manage.go\<close>: the numbers
  of the dashboard, the table of flow alerts and the sampler that ticks every second. A float is
  printed by \<open>fmt n v\<close>, which is \<open>fmt.Sprintf\<close> of \<open>v\<close> with \<open>n\<close> decimals; layout is left out.
\<close>

section \<open>Numbers as text\<close>

text \<open>The loop of \<open>comma\<close> inserts from the right; \<open>i\<close> is its index.\<close>

function insertCommas :: "int \<Rightarrow> string \<Rightarrow> string" where
  "insertCommas i s = (if 0 < i then insertCommas (i - 3) (take (nat i) s @ '','' @ drop (nat i) s) else s)"
  by pat_completeness auto
termination by (relation "measure (\<lambda>(i, s). nat i)") auto

declare insertCommas.simps [simp del]

definition consoleComma :: "u64 \<Rightarrow> string" where
  "consoleComma n = (let s = decimal (uint n) in insertCommas (int (length s) - 3) s)"

definition rate :: "(nat \<Rightarrow> rat \<Rightarrow> string) \<Rightarrow> rat \<Rightarrow> string" where
  "rate fmt v =
     (if v \<ge> 1000000 then fmt 2 (f64_round (v / 1000000)) @ '' M''
      else if v \<ge> 1000 then fmt 1 (f64_round (v / 1000)) @ '' K''
      else fmt 0 v)"

definition bits :: "(nat \<Rightarrow> rat \<Rightarrow> string) \<Rightarrow> rat \<Rightarrow> string" where
  "bits fmt v =
     (if v \<ge> 1000000000 then fmt 2 (f64_round (v / 1000000000)) @ '' Gbit/s''
      else if v \<ge> 1000000 then fmt 0 (f64_round (v / 1000000)) @ '' Mbit/s''
      else if v \<ge> 1000 then fmt 0 (f64_round (v / 1000)) @ '' Kbit/s''
      else fmt 0 v @ '' bit/s'')"

section \<open>The dashboard\<close>

record dashboard_text =
  d_service :: string
  d_mode :: string
  d_flows :: "(string \<times> string \<times> int) option"
  d_updated :: int
  d_rows :: "(string \<times> string \<times> string \<times> string) list"
  d_reasons :: "(string \<times> string) list"
  d_vlans :: "(nat \<times> string \<times> string) list"

datatype dashboard = NotYet | Unavailable string load_error | Dashboard dashboard_text

definition orZero :: "rat option \<Rightarrow> rat" where
  "orZero v = (case v of None \<Rightarrow> 0 | Some r \<Rightarrow> r)"

text \<open>
  The age of the last collection is in nanoseconds; the row of the level-1 hits has no bit rate.
  The rates of a VLAN are keyed by the ids of the statistics maps, which are below 4096.
\<close>

definition renderDashboard :: "(nat \<Rightarrow> rat \<Rightarrow> string) \<Rightarrow> int \<Rightarrow> string \<Rightarrow> LivePolicy option \<Rightarrow> RuntimeState option \<Rightarrow> RateSample
    \<Rightarrow> dashboard_text" where
  "renderDashboard fmt now service p r s =
     \<lparr>d_service = service,
      d_mode = toUpper (case p of None \<Rightarrow> ''unknown'' | Some lp \<Rightarrow> LpMode lp),
      d_flows = map_option (\<lambda>rt. (consoleComma (TCPLive rt), consoleComma (UDPLive rt), now - LastGCUnixNano rt)) r,
      d_updated = RWhen s,
      d_rows = [(''processed'', consoleComma (rx_pkts (Totals s)), rate fmt (ProcessedPPS s), bits fmt (ProcessedBPS s)),
        (''redirected'', consoleComma (redir_pkts (Totals s)), rate fmt (RedirectedPPS s), bits fmt (RedirectedBPS s)),
        (''dropped'', consoleComma (drop_pkts (Totals s)), rate fmt (DroppedPPS s), bits fmt (DroppedBPS s)),
        (''L1 hits'', consoleComma (l1_hits (Totals s)), rate fmt (L1PPS s), [])],
      d_reasons = map (\<lambda>(i, v). (reasonLabels ! i, rate fmt v)) (filter (\<lambda>(i, v). v > 0) (enumerate 0 (ReasonPPS s))),
      d_vlans = map (\<lambda>v. (v, rate fmt (orZero (VLANPPS s (of_nat v))), rate fmt (orZero (VLANDropPPS s (of_nat v)))))
        (filter (\<lambda>v. VLANPPS s (of_nat v) \<noteq> None \<and> (orZero (VLANPPS s (of_nat v)) > 0 \<or> orZero (VLANDropPPS s (of_nat v)) > 0))
          [0..<4096])\<rparr>"

section \<open>The table of alerts\<close>

definition alertRow :: "(nat \<Rightarrow> rat \<Rightarrow> string) \<Rightarrow> Alert \<Rightarrow> string list" where
  "alertRow fmt a =
     (let f = AlertFlow a in
      [toUpper (FlowProtocol f),
       joinHostPort (ProtectedIP f) (itoa (uint (ProtectedPort f))),
       joinHostPort (InternetIP f) (itoa (uint (InternetPort f))),
       itoa (uint (OuterVLAN f)) @ ''/'' @ itoa (uint (InnerVLAN f)),
       fmt 0 (EstimatedPPS a) @ '' / '' @ decimal (uint (ThresholdPPS a)),
       fmt 2 (EstimatedMbps a) @ '' / '' @ fmt 2 (f64_value (ThresholdMbps a)),
       MatchedCIDR a])"

text \<open>The title is the error, or the number of alerts with the age of the first one.\<close>

datatype alert_title = AlertsWaiting | AlertsError read_result | AlertsCount nat "int option"

definition alertHeaders :: "string list" where
  "alertHeaders = [''Proto'', ''Protected'', ''Internet'', ''VLAN'', ''PPS / limit'', ''Mbps / limit'', ''CIDR'']"

definition refreshFlowMonitorAlerts :: "(nat \<Rightarrow> rat \<Rightarrow> string) \<Rightarrow> (string \<Rightarrow> Alert option) \<Rightarrow> int \<Rightarrow> fsys \<Rightarrow> string
    \<Rightarrow> string list list \<times> alert_title" where
  "refreshFlowMonitorAlerts fmt dec now fs statsDir =
     (case ReadAlerts dec fs (pathJoin [statsDir, alertsFile]) of
        ReadOk alerts \<Rightarrow>
          (alertHeaders # map (alertRow fmt) alerts,
           AlertsCount (length alerts) (case alerts of [] \<Rightarrow> None | a # _ \<Rightarrow> Some (now - ObservedAt a)))
      | err \<Rightarrow> ([alertHeaders], AlertsError err))"

section \<open>The sampler\<close>

record sampler =
  s_prev :: "StatsSnapshot option"
  s_ticks :: nat

text \<open>What the system answers to one tick.\<close>

record tick_answers =
  t_service :: "string option"
  t_calls :: collect_calls
  t_policy_ok :: bool
  t_runtime_ok :: bool
  t_now :: int
  t_fmt :: "nat \<Rightarrow> rat \<Rightarrow> string"
  t_dec :: "string \<Rightarrow> Alert option"

text \<open>
  One tick: the next state of the sampler, the new dashboard if there is one, and whether the flows are
  asked for. A tick whose collection fails shows nothing and keeps the previous snapshot.
\<close>

definition samplerTick :: "tick_answers \<Rightarrow> host \<Rightarrow> sampler \<Rightarrow> sampler \<times> dashboard option \<times> bool" where
  "samplerTick env h st =
     (let n = Suc (s_ticks st) in
      case OpenPinned h of
        Some e \<Rightarrow> (\<lparr>s_prev = None, s_ticks = n\<rparr>, Some (Unavailable (ServiceState (t_service env)) e), False)
      | None \<Rightarrow>
          (case CollectStats (t_calls env) (h_dp h) of
             (False, _) \<Rightarrow> (st\<lparr>s_ticks := n\<rparr>, None, False)
           | (True, cur) \<Rightarrow>
               (\<lparr>s_prev = Some cur, s_ticks = n\<rparr>,
                Some (Dashboard (renderDashboard (t_fmt env) (t_now env) (ServiceState (t_service env))
                  (ReadLivePolicy (t_policy_ok env) (h_dp h)) (ReadRuntimeState (t_runtime_ok env) h) (Rates (s_prev st) cur))),
                even n)))"

section \<open>Facts\<close>

lemma insertCommas_stop [simp]: "i \<le> 0 \<Longrightarrow> insertCommas i s = s"
  by (subst insertCommas.simps) simp

lemma insertCommas_append:
  "i \<le> int (length s) \<Longrightarrow> insertCommas i (s @ t) = insertCommas i s @ t"
proof (induction i s rule: insertCommas.induct)
  case (1 i s)
  show ?case
  proof (cases "0 < i")
    case True
    with 1 have "nat i \<le> length s" "i - 3 \<le> int (length (take (nat i) s @ '','' @ drop (nat i) s))" by auto
    with 1 True show ?thesis by (subst (1 2) insertCommas.simps) simp
  qed simp
qed

lemma commaGroups_short: "length s \<le> 3 \<Longrightarrow> commaGroups s = s"
  by (subst commaGroups.simps) (auto simp: commaGroups.simps)

lemma commaGroups_snoc:
  "s \<noteq> [] \<Longrightarrow> length s mod 3 = 0 \<Longrightarrow> length t = 3 \<Longrightarrow> commaGroups (s @ t) = commaGroups s @ '','' @ t"
proof (induction s rule: commaGroups.induct)
  case (1 s)
  then have l: "3 \<le> length s" by (cases "length s < 3") auto
  show ?case
  proof (cases "length s = 3")
    case True
    with 1 show ?thesis by (subst commaGroups.simps) (simp add: commaGroups_short)
  next
    case False
    with l 1 have "drop 3 s \<noteq> []" "length (drop 3 s) mod 3 = 0" by (auto simp: le_mod_geq)
    with 1 l False show ?thesis by (subst (1 2) commaGroups.simps) simp
  qed
qed

text \<open>The grouping that the statistics page computes from the left, on the digits.\<close>

definition groupDigits :: "string \<Rightarrow> string" where
  "groupDigits s =
     (let pre = length s mod 3 in
      if length s \<le> 3 then s
      else (if pre > 0 then take pre s @ (if length s > pre then '','' else []) else []) @ commaGroups (drop pre s))"

lemma comma_groupDigits: "comma n = groupDigits (decimal (uint n))"
  by (simp add: comma_def groupDigits_def Let_def)

lemma groupDigits_snoc:
  assumes "s \<noteq> []" "length t = 3"
  shows "groupDigits (s @ t) = groupDigits s @ '','' @ t"
proof (cases "length s \<le> 3")
  case True
  then consider "length s = 3" | "length s < 3" by linarith
  then show ?thesis
  proof cases
    case 1
    then show ?thesis using assms commaGroups_snoc [of s t] by (simp add: groupDigits_def commaGroups_short)
  next
    case 2
    then have "length (s @ t) mod 3 = length s" using assms by simp
    then show ?thesis using assms 2 by (simp add: groupDigits_def Let_def commaGroups_short)
  qed
next
  case False
  let ?p = "length s mod 3"
  have p: "?p < length s" "?p < 3" using False by (auto intro: le_less_trans [of _ 2])
  have "commaGroups (drop ?p s @ t) = commaGroups (drop ?p s) @ '','' @ t"
    using assms p by (intro commaGroups_snoc) (auto simp: minus_mod_eq_mult_div)
  then show ?thesis using False assms p by (simp add: groupDigits_def Let_def)
qed

lemma insertCommas_groupDigits: "insertCommas (int (length s) - 3) s = groupDigits s"
proof (induction "length s" arbitrary: s rule: less_induct)
  case less
  show ?case
  proof (cases "length s \<le> 3")
    case True
    then show ?thesis by (simp add: groupDigits_def)
  next
    case False
    define a t where "a = take (length s - 3) s" and "t = drop (length s - 3) s"
    have s: "s = a @ t" "length t = 3" "a \<noteq> []" using False by (auto simp: a_def t_def)
    have "insertCommas (int (length s) - 3) s = insertCommas (int (length a) - 3) (a @ '','' @ t)"
      using s by (subst insertCommas.simps) simp
    also have "\<dots> = insertCommas (int (length a) - 3) a @ '','' @ t"
      by (rule insertCommas_append) simp
    also have "\<dots> = groupDigits a @ '','' @ t" using less [of a] s by simp
    finally show ?thesis using groupDigits_snoc [OF s(3,2)] s(1) by simp
  qed
qed

lemma consoleComma_groupDigits: "consoleComma n = groupDigits (decimal (uint n))"
  by (simp add: consoleComma_def Let_def insertCommas_groupDigits)

text \<open>
  The loop of the console that inserts commas from the right prints every count as the routine of the
  statistics page does, which groups from the left.
\<close>

theorem consoleComma_comma: "consoleComma n = comma n"
  by (simp add: consoleComma_groupDigits comma_groupDigits)

text \<open>The rates of the console are those of the statistics page.\<close>

lemma rate_humanRate: "rate fmt v = (case humanRate v of Dash \<Rightarrow> ''-'' | Shown x n unit \<Rightarrow> fmt n x @ unit)"
  by (simp add: rate_def humanRate_def)

lemma no_reasons: "filter (\<lambda>(i, v). v > 0) (enumerate k (replicate n (0 :: rat))) = []"
  by (induction n arbitrary: k) simp_all

text \<open>
  Rates never reach over an outage: after a tick that found the data path gone, the next dashboard
  shows the totals with every rate zero.
\<close>

theorem sampler_outage:
  assumes "samplerTick env h st = (st1, Some (Unavailable sv e), b)"
    and "samplerTick env' h' st1 = (st2, Some (Dashboard d), b')"
  shows "\<exists>cur. s_prev st2 = Some cur \<and> d_rows d =
      [(''processed'', comma (rx_pkts (SG cur)), t_fmt env' 0 0, t_fmt env' 0 0 @ '' bit/s''),
       (''redirected'', comma (redir_pkts (SG cur)), t_fmt env' 0 0, t_fmt env' 0 0 @ '' bit/s''),
       (''dropped'', comma (drop_pkts (SG cur)), t_fmt env' 0 0, t_fmt env' 0 0 @ '' bit/s''),
       (''L1 hits'', comma (l1_hits (SG cur)), t_fmt env' 0 0, [])] \<and>
     d_reasons d = [] \<and> d_vlans d = []"
proof -
  have "s_prev st1 = None"
    using assms(1) by (auto simp: samplerTick_def Let_def split: option.splits prod.splits bool.splits)
  then obtain cur where "s_prev st2 = Some cur"
    "d = renderDashboard (t_fmt env') (t_now env') (ServiceState (t_service env'))
       (ReadLivePolicy (t_policy_ok env') (h_dp h')) (ReadRuntimeState (t_runtime_ok env') h') (Rates None cur)"
    using assms(2) by (auto simp: samplerTick_def Let_def split: option.splits prod.splits bool.splits)
  then show ?thesis
    by (simp add: renderDashboard_def Rates_def rate_def bits_def consoleComma_groupDigits comma_groupDigits no_reasons)
qed

end
