(* ===== verification/Console.thy ===== *)
theory Console
  imports Dashboard Wizard Gc_Flows
begin

text \<open>
  The operations console, \<open>internal/manage/manage.go\<close>, as a machine over user events. The
  widgets are a library; the state is what the program keeps: the controller with the staged
  configuration its form callbacks write through, the text and selection of the editors, the
  invalid fields, the page shown in front of the forms (\<open>modal\<close>) and the operations started in
  the background. A background operation is one step that may come at any later time; what the
  operating system answers is chosen anew at every step. Printed text is left out, except
  where it is data (tables, the dashboard).
\<close>

section \<open>State\<close>

datatype confirm = RestoreTuning | DetachDatapath | ReattachDatapath "Config option"

datatype modal =
    Notice string
  | Working string
  | AskReload
  | AskRestart
  | AskReattach "Config option"
  | AskQuit
  | TypedWord string confirm

datatype job =
    JobService string
  | JobTuneApply Config
  | JobTuneRestore
  | JobDetach
  | JobReattach "Config option"
  | JobFlows FlowQuery

record ('h, 'e) ui =
  u_ctrl :: "'h Controller"
  u_world :: world
  u_host :: 'e
  u_validation :: "(string, string) kmap"
  allowSelected :: int
  allowInput :: string
  fmSelected :: int
  fmCIDR :: string
  fmPPS :: string
  fmMbps :: string
  u_current :: string
  flowProto :: string
  flowVLAN :: string
  flowText :: string
  flowRefreshing :: bool
  flowTable :: "string list list"
  flowTitle :: "(nat \<times> int \<times> bool) option"
  alertTable :: "string list list"
  alertTitle :: alert_title
  u_dashboard :: dashboard
  u_sampler :: sampler
  u_modal :: "modal option"
  u_jobs :: "job list"
  u_stopped :: bool

text \<open>The answers of the system to one step, and the printing and parsing of floating-point numbers.\<close>

record ('h, 'e) console_env =
  e_ctl :: "'h ctl_env"
  e_machine :: "'e machine"
  e_parseFloat :: "string \<Rightarrow> f64 option"
  e_formatFloat :: "f64 \<Rightarrow> string"
  e_sample :: tick_answers
  e_clockTCP :: "(u64 \<times> u64) option"
  e_clockUDP :: "(u64 \<times> u64) option"
  e_badTCP :: bool
  e_badUDP :: bool

definition startUi :: "'h Controller \<Rightarrow> world \<Rightarrow> 'e \<Rightarrow> ('h, 'e) ui" where
  "startUi c w e = \<lparr>u_ctrl = c, u_world = w, u_host = e, u_validation = [], allowSelected = -1, allowInput = [],
     fmSelected = -1, fmCIDR = [], fmPPS = ''0'', fmMbps = ''0'', u_current = ''dashboard'', flowProto = ''ALL'',
     flowVLAN = [], flowText = [], flowRefreshing = False,
     flowTable = [], flowTitle = None, alertTable = [], alertTitle = AlertsWaiting,
     u_dashboard = NotYet, u_sampler = \<lparr>s_prev = None, s_ticks = 0\<rparr>, u_modal = None, u_jobs = [], u_stopped = False\<rparr>"

datatype console_error = NeedRoot | NeedTerminal | ControllerFailed ctl_error

definition ManageRun :: "bool \<Rightarrow> bool \<Rightarrow> 'h ctl_env \<Rightarrow> world \<Rightarrow> 'e \<Rightarrow> string \<Rightarrow> console_error + ('h, 'e) ui" where
  "ManageRun isroot terminal env w e path =
     (if \<not> isroot then Inl NeedRoot
      else if \<not> terminal then Inl NeedTerminal
      else (case NewController env w path of
              Inl err \<Rightarrow> Inl (ControllerFailed err)
            | Inr c \<Rightarrow> Inr (startUi c w e)))"

abbreviation staged :: "('h, 'e) ui \<Rightarrow> Config" where
  "staged u \<equiv> the (Staged (u_ctrl u))"

definition onStaged :: "(Config \<Rightarrow> Config) \<Rightarrow> ('h, 'e) ui \<Rightarrow> ('h, 'e) ui" where
  "onStaged f u = u\<lparr>u_ctrl := (u_ctrl u)\<lparr>Staged := map_option f (Staged (u_ctrl u))\<rparr>\<rparr>"

definition message :: "modal \<Rightarrow> ('h, 'e) ui \<Rightarrow> ('h, 'e) ui" where
  "message md u = u\<lparr>u_modal := Some md\<rparr>"

definition runAsync :: "string \<Rightarrow> job \<Rightarrow> ('h, 'e) ui \<Rightarrow> ('h, 'e) ui" where
  "runAsync title j u = message (Working title) (u\<lparr>u_jobs := u_jobs u @ [j]\<rparr>)"

section \<open>Fields of the forms\<close>

definition valid :: "string \<Rightarrow> bool \<Rightarrow> ('h, 'e) ui \<Rightarrow> ('h, 'e) ui" where
  "valid name ok u =
     u\<lparr>u_validation := (if ok then kdel name (u_validation u) else kset name ''invalid'' (u_validation u))\<rparr>"

text \<open>The header and the footer: the staged marker (a bullet in UTF-8) and the invalid fields in order.\<close>

definition sortedKeys :: "(string, string) kmap \<Rightarrow> string list" where
  "sortedKeys m = sort (kkeys m)"

definition updateChrome :: "string \<Rightarrow> ('h, 'e) ui \<Rightarrow> string \<times> string" where
  "updateChrome version u =
     (''[::b] xdpfilter '' @ version @ ''[-]  config: '' @ CtlPath (u_ctrl u) @
        (if Dirty (u_ctrl u) then '' [yellow]'' @ [CHR 0xE2, CHR 0x97, CHR 0x8F] @ '' STAGED[-]'' else []),
      '' [yellow]1-8[-] sections  [yellow]Ctrl-S[-] Apply  [yellow]?[-] help  [yellow]q[-] quit'' @
        (if u_validation u \<noteq> [] then ''  [red]invalid fields: '' @ joinWith '', '' (sortedKeys (u_validation u)) @ ''[-]'' else []))"

datatype u32_field = FTtlSyn | FTtlEst | FTtlClosing | FTtlUdp | FSampleEvery | FMaxFlows | FFlowMax | FUdpFlowMax
  | FL1Size | FRingSize | FChannels | FNetdevBacklog | FNetdevBudget

primrec u32Name :: "u32_field \<Rightarrow> string" where
  "u32Name FTtlSyn = ''ttl_syn''"
| "u32Name FTtlEst = ''ttl_est''"
| "u32Name FTtlClosing = ''ttl_closing''"
| "u32Name FTtlUdp = ''ttl_udp''"
| "u32Name FSampleEvery = ''flow_monitoring.sample_every''"
| "u32Name FMaxFlows = ''flow_monitoring.max_flows''"
| "u32Name FFlowMax = ''flow_max''"
| "u32Name FUdpFlowMax = ''udp_flow_max''"
| "u32Name FL1Size = ''l1_size''"
| "u32Name FRingSize = ''ring_size''"
| "u32Name FChannels = ''channels''"
| "u32Name FNetdevBacklog = ''netdev_max_backlog''"
| "u32Name FNetdevBudget = ''netdev_budget''"

primrec setU32 :: "u32_field \<Rightarrow> u32 \<Rightarrow> Config \<Rightarrow> Config" where
  "setU32 FTtlSyn v c = c\<lparr>TTLSyn := v\<rparr>"
| "setU32 FTtlEst v c = c\<lparr>TTLEst := v\<rparr>"
| "setU32 FTtlClosing v c = c\<lparr>TTLClosing := v\<rparr>"
| "setU32 FTtlUdp v c = c\<lparr>TTLUdp := v\<rparr>"
| "setU32 FSampleEvery v c = c\<lparr>Flow_Monitoring := (Flow_Monitoring c)\<lparr>SampleEvery := v\<rparr>\<rparr>"
| "setU32 FMaxFlows v c = c\<lparr>Flow_Monitoring := (Flow_Monitoring c)\<lparr>MaxFlows := v\<rparr>\<rparr>"
| "setU32 FFlowMax v c = c\<lparr>FlowMax := v\<rparr>"
| "setU32 FUdpFlowMax v c = c\<lparr>UDPFlowMax := v\<rparr>"
| "setU32 FL1Size v c = c\<lparr>L1Size := v\<rparr>"
| "setU32 FRingSize v c = c\<lparr>Tuning_Cfg := (Tuning_Cfg c)\<lparr>RingSize := v\<rparr>\<rparr>"
| "setU32 FChannels v c = c\<lparr>Tuning_Cfg := (Tuning_Cfg c)\<lparr>Channels := v\<rparr>\<rparr>"
| "setU32 FNetdevBacklog v c = c\<lparr>Tuning_Cfg := (Tuning_Cfg c)\<lparr>NetdevBacklog := v\<rparr>\<rparr>"
| "setU32 FNetdevBudget v c = c\<lparr>Tuning_Cfg := (Tuning_Cfg c)\<lparr>NetdevBudget := v\<rparr>\<rparr>"

definition addU32 :: "u32_field \<Rightarrow> string \<Rightarrow> ('h, 'e) ui \<Rightarrow> ('h, 'e) ui" where
  "addU32 f s u =
     (case parseUint 32 (trimSpace s) of
        (v, None) \<Rightarrow> onStaged (setU32 f (of_int v)) (valid (u32Name f) True u)
      | (v, Some err) \<Rightarrow> valid (u32Name f) False u)"

datatype int_field = FStatsInterval | FGCInterval | FHousekeepingCore

primrec intName :: "int_field \<Rightarrow> string" where
  "intName FStatsInterval = ''stats_interval''"
| "intName FGCInterval = ''gc_interval''"
| "intName FHousekeepingCore = ''housekeeping_core''"

primrec setInt :: "int_field \<Rightarrow> int \<Rightarrow> Config \<Rightarrow> Config" where
  "setInt FStatsInterval v c = c\<lparr>StatsInterval := v\<rparr>"
| "setInt FGCInterval v c = c\<lparr>GCInterval := v\<rparr>"
| "setInt FHousekeepingCore v c = c\<lparr>HousekeepingCore := v\<rparr>"

definition addInt :: "int_field \<Rightarrow> string \<Rightarrow> ('h, 'e) ui \<Rightarrow> ('h, 'e) ui" where
  "addInt f s u =
     (case atoi (trimSpace s) of
        (v, None) \<Rightarrow> onStaged (setInt f v) (valid (intName f) True u)
      | (v, Some err) \<Rightarrow> valid (intName f) False u)"

datatype str_field = FTrusted | FUntrusted | FPinDir | FStatsDir

primrec strName :: "str_field \<Rightarrow> string" where
  "strName FTrusted = ''trusted_iface''"
| "strName FUntrusted = ''untrusted_iface''"
| "strName FPinDir = ''pin_dir''"
| "strName FStatsDir = ''stats_dir''"

primrec setStr :: "str_field \<Rightarrow> string \<Rightarrow> Config \<Rightarrow> Config" where
  "setStr FTrusted v c = c\<lparr>TrustedIface := v\<rparr>"
| "setStr FUntrusted v c = c\<lparr>UntrustedIface := v\<rparr>"
| "setStr FPinDir v c = c\<lparr>PinDir := v\<rparr>"
| "setStr FStatsDir v c = c\<lparr>StatsDir := v\<rparr>"

definition addString :: "str_field \<Rightarrow> string \<Rightarrow> ('h, 'e) ui \<Rightarrow> ('h, 'e) ui" where
  "addString f s u = valid (strName f) (trimSpace s \<noteq> []) (onStaged (setStr f (trimSpace s)) u)"

definition addOptionalString :: "string \<Rightarrow> ('h, 'e) ui \<Rightarrow> ('h, 'e) ui" where
  "addOptionalString s u = onStaged (\<lambda>c. c\<lparr>Tuning_Cfg := (Tuning_Cfg c)\<lparr>Governor := trimSpace s\<rparr>\<rparr>) u"

datatype check_field = FOosStrict | FAllowServers | FAllowSYN | FFilterUDP | FDropFrags | FDropBadFlags | FDropVlanDeep
  | FDropUDPFrags | FRejectRST | FMonitorEnabled | FLRUPerCPU | FTune

primrec setCheck :: "check_field \<Rightarrow> bool \<Rightarrow> Config \<Rightarrow> Config" where
  "setCheck FOosStrict v c = c\<lparr>OosStrict := v\<rparr>"
| "setCheck FAllowServers v c = c\<lparr>AllowInboundServers := v\<rparr>"
| "setCheck FAllowSYN v c = c\<lparr>AllowInboundSYN := v\<rparr>"
| "setCheck FFilterUDP v c = c\<lparr>FilterUDP := v\<rparr>"
| "setCheck FDropFrags v c = c\<lparr>DropFrags := v\<rparr>"
| "setCheck FDropBadFlags v c = c\<lparr>DropBadFlags := v\<rparr>"
| "setCheck FDropVlanDeep v c = c\<lparr>DropVlanDeep := v\<rparr>"
| "setCheck FDropUDPFrags v c = c\<lparr>DropUDPFrags := v\<rparr>"
| "setCheck FRejectRST v c = c\<lparr>RejectWithRST := v\<rparr>"
| "setCheck FMonitorEnabled v c = c\<lparr>Flow_Monitoring := (Flow_Monitoring c)\<lparr>Enabled := v\<rparr>\<rparr>"
| "setCheck FLRUPerCPU v c = c\<lparr>LRUPerCPU := v\<rparr>"
| "setCheck FTune v c = c\<lparr>Tune := v\<rparr>"

datatype tri_field = FSymmetricRSS | FCQECompress | FDisableLRO | FDisableVLANHW | FDisableIRQBal

primrec setTri :: "tri_field \<Rightarrow> bool option \<Rightarrow> Tuning \<Rightarrow> Tuning" where
  "setTri FSymmetricRSS v t = t\<lparr>SymmetricRSS := v\<rparr>"
| "setTri FCQECompress v t = t\<lparr>CQECompress := v\<rparr>"
| "setTri FDisableLRO v t = t\<lparr>DisableLRO := v\<rparr>"
| "setTri FDisableVLANHW v t = t\<lparr>DisableVLANHW := v\<rparr>"
| "setTri FDisableIRQBal v t = t\<lparr>DisableIRQBal := v\<rparr>"

text \<open>The options of the three-valued drop-down are \<open>auto\<close>, \<open>on\<close> and \<open>off\<close>.\<close>

definition addTri :: "tri_field \<Rightarrow> nat \<Rightarrow> ('h, 'e) ui \<Rightarrow> ('h, 'e) ui" where
  "addTri f n u = onStaged (\<lambda>c. c\<lparr>Tuning_Cfg := setTri f (if n = 0 then None else Some (n = 1)) (Tuning_Cfg c)\<rparr>) u"

definition triIndex :: "bool option \<Rightarrow> nat" where
  "triIndex v = (case v of None \<Rightarrow> 0 | Some b \<Rightarrow> if b then 1 else 2)"

definition modeOptions :: "string list" where "modeOptions = [''monitor'', ''enforce'']"
definition xdpOptions :: "string list" where "xdpOptions = [''native'', ''generic'', ''auto'']"

fun indexLoop :: "nat \<Rightarrow> string list \<Rightarrow> string \<Rightarrow> nat" where
  "indexLoop i [] s = 0"
| "indexLoop i (x # xs) s = (if x = s then i else indexLoop (Suc i) xs s)"

definition indexOf :: "string list \<Rightarrow> string \<Rightarrow> nat" where
  "indexOf v s = indexLoop 0 v s"

section \<open>The allowlist\<close>

definition inRange :: "int \<Rightarrow> 'a slice \<Rightarrow> bool" where
  "inRange i s \<longleftrightarrow> 0 \<le> i \<and> i < int (length (elems s))"

definition setAt :: "int \<Rightarrow> 'a \<Rightarrow> 'a slice \<Rightarrow> 'a slice" where
  "setAt i x s = map_option (\<lambda>xs. xs[nat i := x]) s"

definition deleteAt :: "int \<Rightarrow> 'a slice \<Rightarrow> 'a slice" where
  "deleteAt i s = map_option (\<lambda>xs. take (nat i) xs @ drop (Suc (nat i)) xs) s"

definition selectAllow :: "int \<Rightarrow> ('h, 'e) ui \<Rightarrow> ('h, 'e) ui" where
  "selectAllow row u =
     (let u1 = u\<lparr>allowSelected := row - 1\<rparr>; l = ServerAllow (staged u1) in
      if inRange (row - 1) l then u1\<lparr>allowInput := elems l ! nat (row - 1)\<rparr> else u1)"

definition clearAllow :: "('h, 'e) ui \<Rightarrow> ('h, 'e) ui" where
  "clearAllow u = u\<lparr>allowSelected := -1, allowInput := []\<rparr>"

definition allowEntry :: "string \<Rightarrow> string option" where
  "allowEntry text =
     (case ParseHostPort (trimSpace text) of
        Inl err \<Rightarrow> None
      | Inr (a, port) \<Rightarrow> Some (joinHostPort (ipString a) (itoa (uint port))))"

definition saveAllowEntry :: "('h, 'e) ui \<Rightarrow> ('h, 'e) ui" where
  "saveAllowEntry u =
     (case allowEntry (allowInput u) of
        None \<Rightarrow> message (Notice ''Invalid allowlist entry'') u
      | Some entry \<Rightarrow>
          (let l = ServerAllow (staged u); sel = allowSelected u in
           if \<exists>i < length (elems l). elems l ! i = entry \<and> int i \<noteq> sel then message (Notice ''Duplicate'') u
           else clearAllow (onStaged (\<lambda>c. c\<lparr>ServerAllow := (if inRange sel l then setAt sel entry l else appendSlice l entry)\<rparr>) u)))"

definition deleteAllowEntry :: "('h, 'e) ui \<Rightarrow> ('h, 'e) ui" where
  "deleteAllowEntry u =
     (if \<not> inRange (allowSelected u) (ServerAllow (staged u)) then u
      else clearAllow (onStaged (\<lambda>c. c\<lparr>ServerAllow := deleteAt (allowSelected u) (ServerAllow c)\<rparr>) u))"

definition allowRows :: "('h, 'e) ui \<Rightarrow> (string \<times> string) list" where
  "allowRows u = map (\<lambda>(i, v). (itoa (int i + 1), v)) (enumerate 0 (elems (ServerAllow (staged u))))"

section \<open>Monitoring rules\<close>

definition selectRule :: "(f64 \<Rightarrow> string) \<Rightarrow> int \<Rightarrow> ('h, 'e) ui \<Rightarrow> ('h, 'e) ui" where
  "selectRule formatFloat row u =
     (let u1 = u\<lparr>fmSelected := row - 1\<rparr>; l = CIDRs (Flow_Monitoring (staged u1)) in
      if inRange (row - 1) l
      then (let rule = elems l ! nat (row - 1) in
            u1\<lparr>fmCIDR := CIDR rule, fmPPS := decimal (uint (PPSThreshold rule)), fmMbps := formatFloat (MbpsThreshold rule)\<rparr>)
      else u1)"

definition clearRule :: "('h, 'e) ui \<Rightarrow> ('h, 'e) ui" where
  "clearRule u = u\<lparr>fmSelected := -1, fmCIDR := [], fmPPS := ''0'', fmMbps := ''0''\<rparr>"

definition canonicalCIDR :: "string \<Rightarrow> bool" where
  "canonicalCIDR cidr \<longleftrightarrow>
     (case parseCIDR cidr of None \<Rightarrow> False | Some (a, network) \<Rightarrow> to4 a \<noteq> None \<and> ipnetString network = cidr)"

definition thresholds :: "(string \<Rightarrow> f64 option) \<Rightarrow> string \<Rightarrow> string \<Rightarrow> (u64 \<times> f64) option" where
  "thresholds parseFloat pps mbps =
     (case (parseUint 64 (trimSpace pps), parseFloat (trimSpace mbps)) of
        ((p, None), Some f) \<Rightarrow>
          (if f64_negative f \<or> f64_isNaN f \<or> f64_isInf f \<or> (of_int p = (0 :: u64) \<and> f64_isZero f) then None
           else Some (of_int p, f))
      | _ \<Rightarrow> None)"

text \<open>The loop that finds the rule to replace; \<open>None\<close> is the report of a duplicate.\<close>

fun replaceLoop :: "string \<Rightarrow> nat \<Rightarrow> FlowMonitorCIDR list \<Rightarrow> int \<Rightarrow> int option" where
  "replaceLoop cidr i [] rep = Some rep"
| "replaceLoop cidr i (r # rs) rep =
     (if CIDR r \<noteq> cidr then replaceLoop cidr (Suc i) rs rep
      else if 0 \<le> rep \<and> int i \<noteq> rep then None
      else replaceLoop cidr (Suc i) rs (int i))"

definition withRules :: "FlowMonitorCIDR slice \<Rightarrow> Config \<Rightarrow> Config" where
  "withRules rs c = c\<lparr>Flow_Monitoring := (Flow_Monitoring c)\<lparr>CIDRs := rs\<rparr>\<rparr>"

definition saveFlowMonitorRule :: "(string \<Rightarrow> f64 option) \<Rightarrow> ('h, 'e) ui \<Rightarrow> ('h, 'e) ui" where
  "saveFlowMonitorRule parseFloat u =
     (let cidr = trimSpace (fmCIDR u); l = CIDRs (Flow_Monitoring (staged u)) in
      if \<not> canonicalCIDR cidr then message (Notice ''Invalid CIDR'') u
      else (case thresholds parseFloat (fmPPS u) (fmMbps u) of
        None \<Rightarrow> message (Notice ''Invalid thresholds'') u
      | Some (pps, mbps) \<Rightarrow>
          (case replaceLoop cidr 0 (elems l) (fmSelected u) of
             None \<Rightarrow> message (Notice ''Duplicate'') u
           | Some replace \<Rightarrow>
               (let rule = \<lparr>CIDR = cidr, PPSThreshold = pps, MbpsThreshold = mbps\<rparr> in
                clearRule (onStaged (withRules (if inRange replace l then setAt replace rule l else appendSlice l rule)) u)))))"

fun findRule :: "string \<Rightarrow> nat \<Rightarrow> FlowMonitorCIDR list \<Rightarrow> int \<Rightarrow> int" where
  "findRule cidr i [] d = d"
| "findRule cidr i (r # rs) d = (if CIDR r = cidr then int i else findRule cidr (Suc i) rs d)"

definition deleteFlowMonitorRule :: "('h, 'e) ui \<Rightarrow> ('h, 'e) ui" where
  "deleteFlowMonitorRule u =
     (let l = CIDRs (Flow_Monitoring (staged u));
          i = (if inRange (fmSelected u) l then fmSelected u
               else findRule (trimSpace (fmCIDR u)) 0 (elems l) (fmSelected u))
      in if \<not> inRange i l then message (Notice ''CIDR not found'') u
         else clearRule (onStaged (withRules (deleteAt i l)) u))"

definition ruleRows :: "(f64 \<Rightarrow> string) \<Rightarrow> ('h, 'e) ui \<Rightarrow> (string \<times> string \<times> string) list" where
  "ruleRows formatFloat u =
     map (\<lambda>r. (CIDR r, decimal (uint (PPSThreshold r)), formatFloat (MbpsThreshold r))) (elems (CIDRs (Flow_Monitoring (staged u))))"

text \<open>
  The two forms of the monitoring page are linked: their captures move the focus from the last element of one to
  the first of the other and back. Elements are numbered items first, then buttons; \<open>None\<close> leaves the key to
  the form.
\<close>

datatype tab_key = Tab | Backtab
datatype focus = Engine nat | Editor nat

definition engineItems :: nat where "engineItems = 3"
definition editorItems :: nat where "editorItems = 3"
definition editorButtons :: nat where "editorButtons = 2"

definition linkFlowMonitorForms :: "tab_key \<Rightarrow> focus \<Rightarrow> focus option" where
  "linkFlowMonitorForms k f =
     (case f of
        Engine i \<Rightarrow>
          (if k = Tab \<and> i = engineItems - 1 then Some (Editor 0)
           else if k = Backtab \<and> i = 0 then Some (Editor (editorItems + editorButtons - 1))
           else None)
      | Editor i \<Rightarrow>
          (if k = Tab \<and> i = editorItems + editorButtons - 1 then Some (Engine 0)
           else if k = Backtab \<and> i = 0 then Some (Engine (engineItems - 1))
           else None))"

section \<open>Flows\<close>

definition flowQuery :: "('h, 'e) ui \<Rightarrow> FlowQuery" where
  "flowQuery u =
     \<lparr>Protocol = flowProto u,
      VLAN = (let s = trimSpace (flowVLAN u) in
              if s \<noteq> [] then (case atoi s of (v, None) \<Rightarrow> v | (v, Some err) \<Rightarrow> -1) else -1),
      QueryText = flowText u, Limit = 500, ScanLimit = 10000\<rparr>"

definition requestFlowRefresh :: "('h, 'e) ui \<Rightarrow> ('h, 'e) ui" where
  "requestFlowRefresh u =
     (if flowRefreshing u then u
      else u\<lparr>flowRefreshing := True, u_jobs := u_jobs u @ [JobFlows (flowQuery u)]\<rparr>)"

definition flowRow :: "FlowInfo \<Rightarrow> string list" where
  "flowRow f = [Proto f, joinHostPort (ipString (HostIP f)) (itoa (uint (HostPort f))),
     joinHostPort (ipString (InetIP f)) (itoa (uint (InetPort f))), itoa (uint (OuterVID f)), StateText f,
     itoa (uint (AgeSec f)) @ ''s'']"

definition flowHeaders :: "string list" where
  "flowHeaders = [''Proto'', ''Host'', ''Internet'', ''VID'', ''State'', ''Age'']"

definition refreshFlows :: "('h, 'e) console_env \<Rightarrow> FlowQuery \<Rightarrow> ('h, 'e) ui \<Rightarrow> ('h, 'e) ui" where
  "refreshFlows env q u =
     (let u1 = u\<lparr>flowRefreshing := False\<rparr>; h = w_hosts (u_world u) (activePinDir (u_ctrl u)) in
      if OpenPinned h \<noteq> None then message (Notice ''Flows'') u1
      else (case ScanFlows (e_clockTCP env) (flows (h_dp h)) (e_badTCP env) (e_clockUDP env) (udp_flows (h_dp h)) (e_badUDP env) q of
              (scan, Some err) \<Rightarrow> message (Notice ''Flows'') u1
            | (scan, None) \<Rightarrow>
                u1\<lparr>flowTable := flowHeaders # map flowRow (Rows scan), flowTitle := Some (length (Rows scan), Scanned scan, Truncated scan)\<rparr>))"

section \<open>Applying, quitting, operations\<close>

definition applyKey :: "'h ctl_env \<Rightarrow> ('h, 'e) ui \<Rightarrow> ('h, 'e) ui" where
  "applyKey env u =
     (if u_validation u \<noteq> [] then message (Notice ''Cannot apply'') u
      else (case Apply env (u_ctrl u) (u_world u) of
        (res, err, c', w') \<Rightarrow>
          (let u1 = u\<lparr>u_ctrl := c', u_world := w'\<rparr> in
           case err of
             Some e \<Rightarrow> message (if e = ErrConfigChanged then AskReload else Notice ''Apply failed'') u1
           | None \<Rightarrow>
               (if csEmpty (Changes res) then message (Notice ''Apply'') u1
                else if Impact (Changes res) = ImpactRestart then message AskRestart u1
                else if Impact (Changes res) = ImpactReattach then message (AskReattach (Previous res)) u1
                else message (Notice ''Applied'') u1))))"

definition quitKey :: "('h, 'e) ui \<Rightarrow> ('h, 'e) ui" where
  "quitKey u = (if \<not> Dirty (u_ctrl u) then u\<lparr>u_stopped := True\<rparr> else message AskQuit u)"

datatype key = KeyCtrlS | KeyRune char | KeyOther

text \<open>The capture of the whole application; the flag says whether the focused widget still sees the key.\<close>

definition keys :: "'h ctl_env \<Rightarrow> key \<Rightarrow> ('h, 'e) ui \<Rightarrow> bool \<times> ('h, 'e) ui" where
  "keys env k u =
     (case k of
        KeyCtrlS \<Rightarrow> (False, applyKey env u)
      | KeyRune r \<Rightarrow>
          (if r = CHR ''q'' then (False, quitKey u)
           else if r = CHR ''?'' then (False, message (Notice ''Help'') u)
           else if r = CHR ''r'' \<and> u_current u = ''flows'' then (True, requestFlowRefresh u)
           else (True, u))
      | KeyOther \<Rightarrow> (True, u))"

definition wordOf :: "confirm \<Rightarrow> string" where
  "wordOf c = (case c of RestoreTuning \<Rightarrow> ''RESTORE'' | DetachDatapath \<Rightarrow> ''DETACH'' | ReattachDatapath p \<Rightarrow> ''REATTACH'')"

definition typed :: "confirm \<Rightarrow> ('h, 'e) ui \<Rightarrow> ('h, 'e) ui" where
  "typed c u = message (TypedWord (wordOf c) c) u"

definition confirmed :: "confirm \<Rightarrow> ('h, 'e) ui \<Rightarrow> ('h, 'e) ui" where
  "confirmed c u =
     (case c of
        RestoreTuning \<Rightarrow> runAsync ''Restore tuning'' JobTuneRestore u
      | DetachDatapath \<Rightarrow> runAsync ''Detach datapath'' JobDetach u
      | ReattachDatapath p \<Rightarrow> runAsync ''Reattach'' (JobReattach p) u)"

text \<open>The button with index \<open>i\<close> of the page in front; leaving the page without a button is any other index.\<close>

definition chooseButton :: "'h ctl_env \<Rightarrow> nat \<Rightarrow> ('h, 'e) ui \<Rightarrow> ('h, 'e) ui" where
  "chooseButton env i u =
     (case u_modal u of
        None \<Rightarrow> u
      | Some (TypedWord w c) \<Rightarrow> u
      | Some md \<Rightarrow>
          (let u1 = u\<lparr>u_modal := None\<rparr> in
           if i \<noteq> 0 then u1
           else (case md of
              AskReload \<Rightarrow> message (Notice ''Reloaded'') (u1\<lparr>u_ctrl := snd (Reload env (u_world u1) (u_ctrl u1))\<rparr>)
            | AskRestart \<Rightarrow> runAsync ''Restart'' (JobService ''restart'') u1
            | AskReattach p \<Rightarrow> typed (ReattachDatapath p) u1
            | AskQuit \<Rightarrow> u1\<lparr>u_stopped := True\<rparr>
            | _ \<Rightarrow> u1)))"

definition confirmWord :: "string \<Rightarrow> ('h, 'e) ui \<Rightarrow> ('h, 'e) ui" where
  "confirmWord text u =
     (case u_modal u of
        Some (TypedWord w c) \<Rightarrow> (if text \<noteq> w then u else confirmed c (u\<lparr>u_modal := None\<rparr>))
      | _ \<Rightarrow> u)"

definition cancelWord :: "('h, 'e) ui \<Rightarrow> ('h, 'e) ui" where
  "cancelWord u = (case u_modal u of Some (TypedWord w c) \<Rightarrow> u\<lparr>u_modal := None\<rparr> | _ \<Rightarrow> u)"

datatype operation = OpService string | OpPreview | OpTuneApply | OpTuneRestore | OpDetach

definition serviceButtons :: "string list" where
  "serviceButtons = [''start'', ''stop'', ''restart'', ''reload'', ''enable'', ''disable'']"

definition TuningPreview :: "'e machine \<Rightarrow> Config \<Rightarrow> 'e \<Rightarrow> tune_event list option" where
  "TuningPreview m cfg e = map_option t_log (TunerApply m cfg True (newTuner e))"

definition TuningApply :: "'e machine \<Rightarrow> Config \<Rightarrow> 'e \<Rightarrow> (tune_event list \<times> 'e) option" where
  "TuningApply m cfg e = map_option (\<lambda>t. (t_log t, t_host t)) (TunerApply m cfg False (newTuner e))"

text \<open>
  The buttons of the operations page. The preview runs in the event loop, so that a CPU list
  that never ends would stop the console: such a press has no successor state (\<open>None\<close>).
\<close>

definition operate :: "'e machine \<Rightarrow> operation \<Rightarrow> ('h, 'e) ui \<Rightarrow> ('h, 'e) ui option" where
  "operate m op u =
     (case op of
        OpService a \<Rightarrow> (if a \<in> set serviceButtons then Some (runAsync (''systemctl '' @ a) (JobService a) u) else Some u)
      | OpPreview \<Rightarrow> map_option (\<lambda>log. message (Notice ''Tuning preview'') u) (TuningPreview m (staged u) (u_host u))
      | OpTuneApply \<Rightarrow> Some (runAsync ''Apply tuning'' (JobTuneApply (Clone (staged u))) u)
      | OpTuneRestore \<Rightarrow> Some (typed RestoreTuning u)
      | OpDetach \<Rightarrow> Some (typed DetachDatapath u))"

definition finished :: "bool \<Rightarrow> ('h, 'e) ui \<Rightarrow> ('h, 'e) ui" where
  "finished ok u = message (Notice (if ok then ''completed'' else ''failed'')) u"

text \<open>
  What a background operation does when its turn comes; \<open>None\<close>: it does not return.
\<close>

definition runJob :: "('h, 'e) console_env \<Rightarrow> job \<Rightarrow> ('h, 'e) ui \<Rightarrow> ('h, 'e) ui option" where
  "runJob env j u =
     (case j of
        JobService a \<Rightarrow>
          (case ServiceAction (service_ok (e_ctl env)) a (u_world u) of (e, w) \<Rightarrow> Some (finished (e = None) (u\<lparr>u_world := w\<rparr>)))
      | JobTuneApply cfg \<Rightarrow>
          map_option (\<lambda>(log, h). finished True (u\<lparr>u_host := h\<rparr>)) (TuningApply (e_machine env) cfg (u_host u))
      | JobTuneRestore \<Rightarrow>
          (case TunerRestore (e_machine env) (u_host u) of (e, h) \<Rightarrow> Some (finished (e = None) (u\<lparr>u_host := h\<rparr>)))
      | JobDetach \<Rightarrow>
          (case ServiceAction (service_ok (e_ctl env)) ''stop'' (u_world u) of (_, w) \<Rightarrow>
             (let pin = activePinDir (u_ctrl u) in
              case Detach (detach_gone (e_ctl env)) (w_hosts w pin) of
                (e, h) \<Rightarrow> Some (finished (e = None) (u\<lparr>u_world := w\<lparr>w_hosts := (w_hosts w)(pin := h)\<rparr>\<rparr>))))
      | JobReattach p \<Rightarrow>
          (case Reattach (e_ctl env) (the p) (u_ctrl u) (u_world u) of
             (e, c, w) \<Rightarrow> Some (finished (e = None) (u\<lparr>u_ctrl := c, u_world := w\<rparr>)))
      | JobFlows q \<Rightarrow> Some (refreshFlows env q u))"

section \<open>The console as a machine\<close>

text \<open>
  What the callbacks of the form widgets receive: the new text of an input field, the new state of a
  check box, the index chosen in a drop-down, the row selected in a table, or a press of a button.
\<close>

datatype form_event =
    EditU32 u32_field string
  | EditInt int_field string
  | EditStr str_field string
  | EditGovernor string
  | Check check_field bool
  | PickTri tri_field nat
  | PickMode nat
  | PickXDP nat
  | AllowRow int
  | AllowText string
  | AllowSave
  | AllowDelete
  | RuleRow int
  | RuleCIDR string
  | RulePPS string
  | RuleMbps string
  | RuleSave
  | RuleDelete
  | FlowProtoPick nat
  | FlowVLANText string
  | FlowSearch string
  | FlowRefresh
  | ShowPage string

definition protoOptions :: "string list" where "protoOptions = [''ALL'', ''TCP'', ''UDP'']"

definition tabNames :: "string list" where
  "tabNames = [''dashboard'', ''policy'', ''allowlist'', ''flows'', ''flowmonitor'', ''dataplane'', ''runtime'', ''operations'']"

text \<open>A drop-down only offers its options, and the menu its eight pages.\<close>

definition pickOption :: "string list \<Rightarrow> nat \<Rightarrow> (string \<Rightarrow> 'a \<Rightarrow> 'a) \<Rightarrow> 'a \<Rightarrow> 'a" where
  "pickOption opts n f x = (if n < length opts then f (opts ! n) x else x)"

definition formEvent :: "('h, 'e) console_env \<Rightarrow> form_event \<Rightarrow> ('h, 'e) ui \<Rightarrow> ('h, 'e) ui" where
  "formEvent env ev u =
     (case ev of
        EditU32 f s \<Rightarrow> addU32 f s u
      | EditInt f s \<Rightarrow> addInt f s u
      | EditStr f s \<Rightarrow> addString f s u
      | EditGovernor s \<Rightarrow> addOptionalString s u
      | Check f b \<Rightarrow> onStaged (setCheck f b) u
      | PickTri f n \<Rightarrow> addTri f n u
      | PickMode n \<Rightarrow> pickOption modeOptions n (\<lambda>s. onStaged (\<lambda>c. c\<lparr>Mode := s\<rparr>)) u
      | PickXDP n \<Rightarrow> pickOption xdpOptions n (\<lambda>s. onStaged (\<lambda>c. c\<lparr>XDPMode := s\<rparr>)) u
      | AllowRow r \<Rightarrow> selectAllow r u
      | AllowText s \<Rightarrow> u\<lparr>allowInput := s\<rparr>
      | AllowSave \<Rightarrow> saveAllowEntry u
      | AllowDelete \<Rightarrow> deleteAllowEntry u
      | RuleRow r \<Rightarrow> selectRule (e_formatFloat env) r u
      | RuleCIDR s \<Rightarrow> u\<lparr>fmCIDR := s\<rparr>
      | RulePPS s \<Rightarrow> u\<lparr>fmPPS := s\<rparr>
      | RuleMbps s \<Rightarrow> u\<lparr>fmMbps := s\<rparr>
      | RuleSave \<Rightarrow> saveFlowMonitorRule (e_parseFloat env) u
      | RuleDelete \<Rightarrow> deleteFlowMonitorRule u
      | FlowProtoPick n \<Rightarrow> pickOption protoOptions n (\<lambda>s u. u\<lparr>flowProto := s\<rparr>) u
      | FlowVLANText s \<Rightarrow> u\<lparr>flowVLAN := s\<rparr>
      | FlowSearch s \<Rightarrow> u\<lparr>flowText := s\<rparr>
      | FlowRefresh \<Rightarrow> requestFlowRefresh u
      | ShowPage p \<Rightarrow> (if p \<in> set tabNames then u\<lparr>u_current := p\<rparr> else u))"

datatype event =
    Form form_event
  | Key key
  | Operate operation
  | Button nat
  | Confirm string
  | Cancel
  | Finish nat
  | Sample

text \<open>
  A tick of the sampler and the updates it queues: the dashboard, the alerts when their page is shown, and
  on every second tick the flows when theirs is.
\<close>

definition sampleTick :: "tick_answers \<Rightarrow> ('h, 'e) ui \<Rightarrow> ('h, 'e) ui" where
  "sampleTick env u =
     (case samplerTick env (w_hosts (u_world u) (activePinDir (u_ctrl u))) (u_sampler u) of
        (st, None, again) \<Rightarrow> u\<lparr>u_sampler := st\<rparr>
      | (st, Some d, again) \<Rightarrow>
          (let u1 = u\<lparr>u_sampler := st, u_dashboard := d\<rparr>;
               u2 = (if u_current u = ''flowmonitor''
                     then (case refreshFlowMonitorAlerts (t_fmt env) (t_dec env) (t_now env) (w_fs (u_world u)) (StatsDir (the (Base (u_ctrl u)))) of
                             (tab, title) \<Rightarrow> u1\<lparr>alertTable := tab, alertTitle := title\<rparr>)
                     else u1)
           in if again \<and> u_current u = ''flows'' then requestFlowRefresh u2 else u2))"

text \<open>
  One step. The forms and the operation buttons are reached only while no page is in front of them; the
  keys are captured for the whole application; a background operation ends in any order, whatever is
  shown; every second sample asks for the flows. Nothing happens after the application has stopped.
\<close>

inductive console_step :: "('h, 'e) console_env \<Rightarrow> event \<Rightarrow> ('h, 'e) ui \<Rightarrow> ('h, 'e) ui \<Rightarrow> bool" where
  form: "\<not> u_stopped u \<Longrightarrow> u_modal u = None \<Longrightarrow> console_step env (Form ev) u (formEvent env ev u)"
| key: "\<not> u_stopped u \<Longrightarrow> console_step env (Key k) u (snd (keys (e_ctl env) k u))"
| operate: "\<not> u_stopped u \<Longrightarrow> u_modal u = None \<Longrightarrow> operate (e_machine env) op u = Some u' \<Longrightarrow> console_step env (Operate op) u u'"
| button: "\<not> u_stopped u \<Longrightarrow> console_step env (Button i) u (chooseButton (e_ctl env) i u)"
| confirm: "\<not> u_stopped u \<Longrightarrow> console_step env (Confirm s) u (confirmWord s u)"
| cancel: "\<not> u_stopped u \<Longrightarrow> console_step env Cancel u (cancelWord u)"
| finish: "\<not> u_stopped u \<Longrightarrow> k < length (u_jobs u) \<Longrightarrow>
    runJob env (u_jobs u ! k) (u\<lparr>u_jobs := take k (u_jobs u) @ drop (Suc k) (u_jobs u)\<rparr>) = Some u' \<Longrightarrow>
    console_step env (Finish k) u u'"
| sample: "\<not> u_stopped u \<Longrightarrow> console_step env Sample u (sampleTick (e_sample env) u)"

inductive_cases console_step_cases: "console_step env ev u u'"

inductive console_run :: "('h, 'e) ui \<Rightarrow> event list \<Rightarrow> ('h, 'e) ui \<Rightarrow> bool" for u0 where
  start: "console_run u0 [] u0"
| more: "console_run u0 evs u \<Longrightarrow> console_step env ev u u' \<Longrightarrow> console_run u0 (evs @ [ev]) u'"

end
