(* ===== verification/Console_Steps.thy ===== *)
theory Console_Steps
  imports Console
begin

text \<open>
  Steps of the operations console: what a step leaves alone, which pages and background operations can be there,
  one scan of the flows at a time, and the word that has to be typed before anything is detached.
\<close>

section \<open>Invariants of sessions\<close>

text \<open>
  The contract of an invariant over the history and the state of a session: it holds at the start and every step
  keeps it, whatever the system answers.
\<close>

locale session_invariant =
  fixes u0 :: "('h, 'e) ui"
    and inv :: "event list \<Rightarrow> ('h, 'e) ui \<Rightarrow> bool"
  assumes step: "console_step env ev u u' \<Longrightarrow> inv evs u \<Longrightarrow> inv (evs @ [ev]) u'"
begin

lemma session: "console_run u0 evs u \<Longrightarrow> inv [] u0 \<Longrightarrow> inv evs u"
  by (induction rule: console_run.induct) (auto intro: step)

end

section \<open>What an operation leaves alone\<close>

text \<open>\<open>edits u u'\<close>: the step only touched the forms, the page in front and scans of flows.\<close>

definition edits :: "('h, 'e) ui \<Rightarrow> ('h, 'e) ui \<Rightarrow> bool" where
  "edits u u' \<longleftrightarrow> u_world u' = u_world u \<and> u_host u' = u_host u \<and> Base (u_ctrl u') = Base (u_ctrl u) \<and>
     ctlHash (u_ctrl u') = ctlHash (u_ctrl u) \<and> activePinDir (u_ctrl u') = activePinDir (u_ctrl u) \<and> CtlPath (u_ctrl u') = CtlPath (u_ctrl u)"

lemma edits_refl [simp]: "edits u u" by (simp add: edits_def)

lemma edits_trans: "edits u v \<Longrightarrow> edits v w \<Longrightarrow> edits u w" by (simp add: edits_def)

lemma edits_onStaged [simp]: "edits u (onStaged f v) \<longleftrightarrow> edits u v"
  by (simp add: edits_def onStaged_def)

lemma edits_valid [simp]: "edits u (valid n b v) \<longleftrightarrow> edits u v"
  by (simp add: edits_def valid_def)

lemma edits_message [simp]: "edits u (message md v) \<longleftrightarrow> edits u v"
  by (simp add: edits_def message_def)

lemma edits_runAsync [simp]: "edits u (runAsync t j v) \<longleftrightarrow> edits u v"
  by (simp add: edits_def runAsync_def message_def)

lemma edits_upds [simp]:
  "edits u (v\<lparr>allowSelected := i\<rparr>) \<longleftrightarrow> edits u v" "edits u (v\<lparr>allowInput := s\<rparr>) \<longleftrightarrow> edits u v"
  "edits u (v\<lparr>fmSelected := i\<rparr>) \<longleftrightarrow> edits u v" "edits u (v\<lparr>fmCIDR := s\<rparr>) \<longleftrightarrow> edits u v"
  "edits u (v\<lparr>fmPPS := s\<rparr>) \<longleftrightarrow> edits u v" "edits u (v\<lparr>fmMbps := s\<rparr>) \<longleftrightarrow> edits u v"
  "edits u (v\<lparr>flowProto := s\<rparr>) \<longleftrightarrow> edits u v" "edits u (v\<lparr>flowVLAN := s\<rparr>) \<longleftrightarrow> edits u v"
  "edits u (v\<lparr>flowText := s\<rparr>) \<longleftrightarrow> edits u v" "edits u (v\<lparr>u_current := s\<rparr>) \<longleftrightarrow> edits u v"
  "edits u (v\<lparr>flowRefreshing := b\<rparr>) \<longleftrightarrow> edits u v" "edits u (v\<lparr>u_jobs := js\<rparr>) \<longleftrightarrow> edits u v"
  "edits u (v\<lparr>flowTable := t\<rparr>) \<longleftrightarrow> edits u v" "edits u (v\<lparr>flowTitle := t'\<rparr>) \<longleftrightarrow> edits u v"
  "edits u (v\<lparr>alertTable := t\<rparr>) \<longleftrightarrow> edits u v" "edits u (v\<lparr>alertTitle := t''\<rparr>) \<longleftrightarrow> edits u v"
  "edits u (v\<lparr>u_dashboard := d\<rparr>) \<longleftrightarrow> edits u v" "edits u (v\<lparr>u_sampler := st\<rparr>) \<longleftrightarrow> edits u v"
  "edits u (v\<lparr>u_modal := m\<rparr>) \<longleftrightarrow> edits u v" "edits u (v\<lparr>u_stopped := b\<rparr>) \<longleftrightarrow> edits u v"
  by (simp_all add: edits_def)

lemmas form_defs = formEvent_def addU32_def addInt_def addString_def addOptionalString_def addTri_def pickOption_def
  selectAllow_def saveAllowEntry_def deleteAllowEntry_def clearAllow_def selectRule_def saveFlowMonitorRule_def
  deleteFlowMonitorRule_def clearRule_def requestFlowRefresh_def Let_def

lemma edits_formEvent: "edits u (formEvent env ev u)"
  by (cases ev) (simp_all add: form_defs split: prod.split option.split)

lemma edits_requestFlowRefresh [simp]: "edits u (requestFlowRefresh v) \<longleftrightarrow> edits u v"
  by (simp add: requestFlowRefresh_def)

lemma edits_sampleTick: "edits u (sampleTick env u)"
  by (simp add: sampleTick_def Let_def split: prod.split option.split)

lemma edits_keys: "k \<noteq> KeyCtrlS \<Longrightarrow> edits u (snd (keys env k u))"
  by (cases k) (simp_all add: keys_def quitKey_def)

lemma edits_operate: "operate m op u = Some u' \<Longrightarrow> edits u u'"
  by (cases op) (auto simp: operate_def typed_def split: if_splits)

lemma edits_confirmWord: "edits u (confirmWord s u)"
  by (auto simp: confirmWord_def confirmed_def split: option.split modal.split confirm.split)

lemma edits_cancelWord: "edits u (cancelWord u)"
  by (auto simp: cancelWord_def split: option.split modal.split)

lemma edits_chooseButton: "u_modal u \<noteq> Some AskReload \<Longrightarrow> edits u (chooseButton env i u)"
  by (auto simp: chooseButton_def typed_def Let_def split: option.split modal.split)

lemma edits_runFlows: "runJob env (JobFlows q) u = Some u' \<Longrightarrow> edits u u'"
  by (auto simp: runJob_def refreshFlows_def Let_def split: if_splits prod.splits option.splits)

section \<open>Pages and background operations\<close>

text \<open>\<open>light u u'\<close>: nothing but a notice came up, and at most a scan of the flows was started.\<close>

definition light :: "('h, 'e) ui \<Rightarrow> ('h, 'e) ui \<Rightarrow> bool" where
  "light u u' \<longleftrightarrow> u_stopped u' = u_stopped u \<and> (u_modal u' = u_modal u \<or> (\<exists>t. u_modal u' = Some (Notice t))) \<and>
     (u_jobs u' = u_jobs u \<and> flowRefreshing u' = flowRefreshing u \<or>
      \<not> flowRefreshing u \<and> flowRefreshing u' \<and> (\<exists>q. u_jobs u' = u_jobs u @ [JobFlows q]))"

lemma light_formEvent: "light u (formEvent env ev u)"
  by (cases ev) (simp_all add: light_def form_defs onStaged_def valid_def message_def split: prod.split option.split)

lemma light_sampleTick: "light u (sampleTick env u)"
  by (simp add: sampleTick_def light_def requestFlowRefresh_def Let_def split: prod.split option.split)

lemma sampleTick_frame: "u_ctrl (sampleTick env u) = u_ctrl u" "u_validation (sampleTick env u) = u_validation u"
  "u_stopped (sampleTick env u) = u_stopped u"
  by (simp_all add: sampleTick_def requestFlowRefresh_def Let_def split: prod.split option.split)

text \<open>What the page in front and the background operations can be after a step.\<close>

definition is_flows :: "job \<Rightarrow> bool" where
  "is_flows j \<longleftrightarrow> (case j of JobFlows q \<Rightarrow> True | _ \<Rightarrow> False)"

lemma is_flows_simps [simp]: "is_flows (JobFlows q)" "\<not> is_flows (JobService a)" "\<not> is_flows (JobTuneApply c)"
  "\<not> is_flows JobTuneRestore" "\<not> is_flows JobDetach" "\<not> is_flows (JobReattach p)"
  by (simp_all add: is_flows_def)

lemma applyKey_jobs: "u_jobs (applyKey env u) = u_jobs u" "flowRefreshing (applyKey env u) = flowRefreshing u"
  by (simp_all add: applyKey_def message_def Let_def case_prod_beta split: option.split)

lemma applyKey_modal:
  "(\<exists>t. u_modal (applyKey env u) = Some (Notice t)) \<or> u_modal (applyKey env u) = Some AskReload \<or>
   u_modal (applyKey env u) = Some AskRestart \<or> (\<exists>p. u_modal (applyKey env u) = Some (AskReattach p))"
  by (simp add: applyKey_def message_def Let_def case_prod_beta split: option.split)

lemma keys_jobs:
  "u_jobs (snd (keys env k u)) = u_jobs u \<and> flowRefreshing (snd (keys env k u)) = flowRefreshing u \<or>
   \<not> flowRefreshing u \<and> flowRefreshing (snd (keys env k u)) \<and> (\<exists>q. u_jobs (snd (keys env k u)) = u_jobs u @ [JobFlows q])"
  by (cases k) (simp_all add: keys_def applyKey_jobs quitKey_def message_def requestFlowRefresh_def)

lemma keys_modal:
  "k \<noteq> KeyCtrlS \<Longrightarrow> u_modal (snd (keys env k u)) = u_modal u \<or> (\<exists>t. u_modal (snd (keys env k u)) = Some (Notice t)) \<or>
     u_modal (snd (keys env k u)) = Some AskQuit"
  by (cases k) (simp_all add: keys_def quitKey_def message_def requestFlowRefresh_def)

lemma runJob_jobs: "runJob env j u = Some u' \<Longrightarrow> u_jobs u' = u_jobs u"
  by (cases j) (auto simp: runJob_def refreshFlows_def finished_def message_def Let_def split: prod.splits option.splits if_splits)

lemma runJob_modal: "runJob env j u = Some u' \<Longrightarrow> u_modal u' = u_modal u \<or> (\<exists>t. u_modal u' = Some (Notice t))"
  by (cases j) (auto simp: runJob_def refreshFlows_def finished_def message_def Let_def split: prod.splits option.splits if_splits)

lemma runJob_refreshing: "runJob env j u = Some u' \<Longrightarrow> flowRefreshing u' = (flowRefreshing u \<and> \<not> is_flows j)"
  by (cases j) (auto simp: runJob_def refreshFlows_def finished_def message_def Let_def split: prod.splits option.splits if_splits)

section \<open>One scan of the flows at a time\<close>

definition scans :: "('h, 'e) ui \<Rightarrow> nat" where
  "scans u = length (filter is_flows (u_jobs u))"

definition scan_inv :: "('h, 'e) ui \<Rightarrow> bool" where
  "scan_inv u \<longleftrightarrow> scans u = (if flowRefreshing u then 1 else 0)"

lemma scan_inv_light: "light u u' \<Longrightarrow> scan_inv u \<Longrightarrow> scan_inv u'"
  by (auto simp: light_def scan_inv_def scans_def)

lemma scan_inv_keys: "scan_inv u \<Longrightarrow> scan_inv (snd (keys env k u))"
  using keys_jobs [of env k u] by (auto simp: scan_inv_def scans_def)

lemma chooseButton_scans: "scans (chooseButton env i u) = scans u" "flowRefreshing (chooseButton env i u) = flowRefreshing u"
  by (simp_all add: chooseButton_def scans_def typed_def runAsync_def message_def Let_def split: option.split modal.split)

lemma confirmWord_scans: "scans (confirmWord s u) = scans u" "flowRefreshing (confirmWord s u) = flowRefreshing u"
  by (simp_all add: confirmWord_def confirmed_def scans_def runAsync_def message_def split: option.split modal.split confirm.split)

lemma cancelWord_scans: "scans (cancelWord u) = scans u" "flowRefreshing (cancelWord u) = flowRefreshing u"
  by (simp_all add: cancelWord_def scans_def split: option.split modal.split)

lemma operate_scans: "operate m op u = Some u' \<Longrightarrow> scans u' = scans u \<and> flowRefreshing u' = flowRefreshing u"
  by (cases op) (auto simp: operate_def scans_def typed_def runAsync_def message_def split: if_splits)

lemma filter_remove_nth:
  assumes "k < length xs"
  shows "length (filter P (take k xs @ drop (Suc k) xs)) + (if P (xs ! k) then 1 else 0) = length (filter P xs)"
proof -
  have "filter P xs = filter P (take k xs) @ filter P (xs ! k # drop (Suc k) xs)"
    using id_take_nth_drop [OF assms] by (metis filter_append)
  then show ?thesis by simp
qed

lemma scan_inv_finish:
  assumes "scan_inv u" "k < length (u_jobs u)"
    and "runJob env (u_jobs u ! k) (u\<lparr>u_jobs := take k (u_jobs u) @ drop (Suc k) (u_jobs u)\<rparr>) = Some u'"
  shows "scan_inv u'"
  using assms(1) runJob_jobs [OF assms(3)] runJob_refreshing [OF assms(3)] filter_remove_nth [OF assms(2), of is_flows]
  by (auto simp: scan_inv_def scans_def split: if_splits)

lemma scan_inv_pages: "scan_inv (chooseButton env i u) = scan_inv u" "scan_inv (confirmWord s u) = scan_inv u"
  "scan_inv (cancelWord u) = scan_inv u"
  by (simp_all add: scan_inv_def chooseButton_scans confirmWord_scans cancelWord_scans)

lemma scan_inv_step: "console_step env ev u u' \<Longrightarrow> scan_inv u \<Longrightarrow> scan_inv u'"
proof (induction rule: console_step.induct)
  case (finish u k env u')
  then show ?case using scan_inv_finish by blast
next
  case (operate u env op u')
  then show ?case using operate_scans by (metis scan_inv_def)
qed (simp_all add: scan_inv_light [OF light_formEvent] scan_inv_light [OF light_sampleTick] scan_inv_keys scan_inv_pages)

interpretation scanning: session_invariant u0 "\<lambda>evs. scan_inv" for u0
  by unfold_locales (rule scan_inv_step)

section \<open>Edits stay staged\<close>

text \<open>The events of a user who neither applies nor starts an operation.\<close>

definition browsing :: "event \<Rightarrow> bool" where
  "browsing ev \<longleftrightarrow> ev \<noteq> Key KeyCtrlS \<and> (\<forall>op. ev = Operate op \<longrightarrow> op = OpPreview)"

definition quiet :: "('h, 'e) ui \<Rightarrow> bool" where
  "quiet u \<longleftrightarrow> (\<forall>j \<in> set (u_jobs u). is_flows j) \<and>
     (u_modal u = None \<or> u_modal u = Some AskQuit \<or> (\<exists>t. u_modal u = Some (Notice t)))"

lemma quiet_light: "light u u' \<Longrightarrow> quiet u \<Longrightarrow> quiet u'"
  by (auto simp: light_def quiet_def)

lemma quiet_keys: "k \<noteq> KeyCtrlS \<Longrightarrow> quiet u \<Longrightarrow> quiet (snd (keys env k u))"
  using keys_jobs [of env k u] keys_modal [of k env u] by (auto simp: quiet_def)

lemma quiet_pages: "quiet u \<Longrightarrow> quiet (chooseButton env i u)" "quiet u \<Longrightarrow> quiet (confirmWord s u)" "quiet u \<Longrightarrow> quiet (cancelWord u)"
  by (auto simp: quiet_def chooseButton_def confirmWord_def cancelWord_def Let_def split: if_splits)

lemma quiet_preview: "operate m OpPreview u = Some u' \<Longrightarrow> quiet u \<Longrightarrow> quiet u'"
  by (auto simp: quiet_def operate_def message_def)

lemma quiet_edits:
  assumes "console_step env ev u u'" "browsing ev" "quiet u"
  shows "edits u u' \<and> quiet u'"
  using assms
proof (induction rule: console_step.induct)
  case (form u env ev)
  then show ?case using edits_formEvent light_formEvent quiet_light by blast
next
  case (key u env k)
  then show ?case using edits_keys quiet_keys by (auto simp: browsing_def)
next
  case (operate u env op u')
  then show ?case using edits_operate quiet_preview by (auto simp: browsing_def)
next
  case (button u env i)
  then have "u_modal u \<noteq> Some AskReload" by (auto simp: quiet_def)
  with button show ?case using edits_chooseButton quiet_pages by blast
next
  case (confirm u env s)
  then show ?case using edits_confirmWord quiet_pages by blast
next
  case (cancel u env)
  then show ?case using edits_cancelWord quiet_pages by blast
next
  case (finish u k env u')
  then have "is_flows (u_jobs u ! k)" by (simp add: quiet_def)
  then obtain q where "u_jobs u ! k = JobFlows q" by (auto simp: is_flows_def split: job.splits)
  with finish(3) have "edits (u\<lparr>u_jobs := take k (u_jobs u) @ drop (Suc k) (u_jobs u)\<rparr>) u'" using edits_runFlows by simp
  then have "edits u u'" by (simp add: edits_def)
  moreover have "quiet u'"
    using runJob_jobs [OF finish(3)] runJob_modal [OF finish(3)] finish(5) by (auto simp: quiet_def dest: in_set_takeD in_set_dropD)
  ultimately show ?case by blast
next
  case (sample u env)
  then show ?case using edits_sampleTick light_sampleTick quiet_light by blast
qed

interpretation staging: session_invariant u0 "\<lambda>evs u. (\<forall>ev \<in> set evs. browsing ev) \<longrightarrow> edits u0 u \<and> quiet u" for u0
  by unfold_locales (auto dest: quiet_edits intro: edits_trans)

section \<open>Nothing is detached without the typed word\<close>

definition same_links :: "world \<Rightarrow> world \<Rightarrow> bool" where
  "same_links w w' \<longleftrightarrow> (\<forall>p. h_links (w_hosts w' p) = h_links (w_hosts w p) \<and> h_pins (w_hosts w' p) = h_pins (w_hosts w p))"

lemma same_links_refl [simp]: "same_links w w" by (simp add: same_links_def)

lemma same_links_trans: "same_links u v \<Longrightarrow> same_links v w \<Longrightarrow> same_links u w" by (simp add: same_links_def)

lemma same_links_fs [simp]: "same_links w (w'\<lparr>w_fs := fs\<rparr>) \<longleftrightarrow> same_links w w'" "same_links (w\<lparr>w_fs := fs\<rparr>) w' \<longleftrightarrow> same_links w w'"
  by (simp_all add: same_links_def)

lemma same_links_onHost: "onHost pin f w = (r, w') \<Longrightarrow> same_links w w'"
  by (auto simp: onHost_def same_links_def split: prod.splits)

lemma same_links_onHost_snd: "same_links w (snd (onHost pin f w))"
  by (rule same_links_onHost [OF surjective_pairing])

lemma same_links_persist: "persist env res nxt c w = (res', e, c', w') \<Longrightarrow> same_links w w'"
  using same_links_onHost_snd
  by (elim persist_cases) (simp_all split: if_splits, metis same_links_fs(2) same_links_onHost_snd)

lemma same_links_Apply: "Apply env c w = (res, e, c', w') \<Longrightarrow> same_links w w'"
proof (cases "csEmpty (Diff (Base c) (Staged c))")
  case False
  assume "Apply env c w = (res, e, c', w')"
  from this False show ?thesis
    by (rule Apply_cases) (auto dest: same_links_persist same_links_onHost intro: same_links_trans)
qed (auto simp: Apply_def Let_def)

lemma same_links_ServiceAction: "ServiceAction ok a w = (e, w') \<Longrightarrow> same_links w w'"
  by (auto simp: ServiceAction_def same_links_def split: if_splits)

lemma same_links_applyKey: "same_links (u_world u) (u_world (applyKey env u))"
proof -
  obtain res e c w where "Apply env (u_ctrl u) (u_world u) = (res, e, c, w)" by (metis prod_cases4)
  then show ?thesis using same_links_Apply
    by (fastforce simp: applyKey_def message_def Let_def split: option.split)
qed

lemma same_links_chooseButton: "u_world (chooseButton env i u) = u_world u"
  by (simp add: chooseButton_def typed_def runAsync_def message_def Let_def split: option.split modal.split)

lemma edits_links: "edits u u' \<Longrightarrow> same_links (u_world u) (u_world u')"
  by (simp add: edits_def)

definition cutting :: "job \<Rightarrow> bool" where
  "cutting j \<longleftrightarrow> (case j of JobDetach \<Rightarrow> True | JobReattach p \<Rightarrow> True | _ \<Rightarrow> False)"

lemma same_links_runJob: "runJob env j u = Some u' \<Longrightarrow> \<not> cutting j \<Longrightarrow> same_links (u_world u) (u_world u')"
  by (cases j) (auto simp: cutting_def runJob_def refreshFlows_def finished_def message_def Let_def
      split: prod.splits option.splits if_splits dest: same_links_ServiceAction)

text \<open>What has to precede the typed word, and the word itself.\<close>

definition asked :: "confirm \<Rightarrow> event list \<Rightarrow> bool" where
  "asked c evs \<longleftrightarrow> (case c of
     RestoreTuning \<Rightarrow> Operate OpTuneRestore \<in> set evs
   | DetachDatapath \<Rightarrow> Operate OpDetach \<in> set evs
   | ReattachDatapath p \<Rightarrow> Key KeyCtrlS \<in> set evs)"

definition granted :: "confirm \<Rightarrow> event list \<Rightarrow> bool" where
  "granted c evs \<longleftrightarrow> (\<exists>a b. evs = a @ Confirm (wordOf c) # b \<and> asked c a)"

lemma asked_mono: "asked c evs \<Longrightarrow> asked c (evs @ rest)"
  by (auto simp: asked_def split: confirm.splits)

lemma granted_mono: "granted c evs \<Longrightarrow> granted c (evs @ rest)"
  unfolding granted_def by (elim exE conjE) (metis append.assoc append_Cons)

lemma granted_now: "asked c evs \<Longrightarrow> granted c (evs @ [Confirm (wordOf c)])"
  unfolding granted_def by blast

definition page_words :: "event list \<Rightarrow> modal option \<Rightarrow> bool" where
  "page_words evs md \<longleftrightarrow> (case md of
     Some (TypedWord w c) \<Rightarrow> w = wordOf c \<and> asked c evs
   | Some (AskReattach p) \<Rightarrow> Key KeyCtrlS \<in> set evs
   | _ \<Rightarrow> True)"

definition job_words :: "event list \<Rightarrow> job \<Rightarrow> bool" where
  "job_words evs j \<longleftrightarrow> (case j of
     JobDetach \<Rightarrow> granted DetachDatapath evs
   | JobReattach p \<Rightarrow> granted (ReattachDatapath p) evs
   | JobTuneRestore \<Rightarrow> granted RestoreTuning evs
   | _ \<Rightarrow> True)"

lemmas words_defs = page_words_def job_words_def

definition words_inv :: "event list \<Rightarrow> ('h, 'e) ui \<Rightarrow> bool" where
  "words_inv evs u \<longleftrightarrow> page_words evs (u_modal u) \<and> (\<forall>j \<in> set (u_jobs u). job_words evs j)"

lemma page_words_simps [simp]: "page_words evs None" "page_words evs (Some (Notice t))" "page_words evs (Some (Working t))"
  "page_words evs (Some AskReload)" "page_words evs (Some AskRestart)" "page_words evs (Some AskQuit)"
  "page_words evs (Some (AskReattach p)) \<longleftrightarrow> Key KeyCtrlS \<in> set evs"
  "page_words evs (Some (TypedWord w c)) \<longleftrightarrow> w = wordOf c \<and> asked c evs"
  by (simp_all add: page_words_def)

lemma job_words_simps [simp]: "job_words evs (JobFlows q)" "job_words evs (JobService a)" "job_words evs (JobTuneApply cfg)"
  by (simp_all add: job_words_def)

lemma page_words_mono: "page_words evs md \<Longrightarrow> page_words (evs @ rest) md"
  by (auto simp: page_words_def asked_mono split: option.splits modal.splits)

lemma job_words_mono: "job_words evs j \<Longrightarrow> job_words (evs @ rest) j"
  by (auto simp: job_words_def granted_mono split: job.splits)

lemma words_inv_mono: "words_inv evs u \<Longrightarrow> words_inv (evs @ rest) u"
  by (simp add: words_inv_def page_words_mono job_words_mono)

lemma words_inv_light: "light u u' \<Longrightarrow> words_inv evs u \<Longrightarrow> words_inv evs u'"
  by (auto simp: light_def words_inv_def)

lemma words_inv_keys: "words_inv evs u \<Longrightarrow> words_inv (evs @ [Key k]) (snd (keys env k u))"
proof (cases "k = KeyCtrlS")
  case True
  assume "words_inv evs u"
  then show ?thesis using applyKey_modal [of env u] words_inv_mono [of evs u "[Key k]"]
    by (auto simp: words_inv_def keys_def applyKey_jobs True)
next
  case False
  assume "words_inv evs u"
  then have "words_inv (evs @ [Key k]) u" by (rule words_inv_mono)
  then show ?thesis using keys_jobs [of env k u] keys_modal [OF False, of env u] by (auto simp: words_inv_def)
qed

lemma words_inv_operate:
  "operate m op u = Some u' \<Longrightarrow> words_inv evs u \<Longrightarrow> words_inv (evs @ [Operate op]) u'"
  using words_inv_mono [of evs u "[Operate op]"]
  by (cases op) (auto simp: words_inv_def operate_def runAsync_def message_def typed_def asked_def split: if_splits)

lemma words_inv_button: "words_inv evs u \<Longrightarrow> words_inv evs (chooseButton env i u)"
  by (auto simp: words_inv_def chooseButton_def typed_def runAsync_def message_def asked_def Let_def split: option.split modal.split)

lemma job_words_now:
  "asked RestoreTuning evs \<Longrightarrow> job_words (evs @ [Confirm (wordOf RestoreTuning)]) JobTuneRestore"
  "asked DetachDatapath evs \<Longrightarrow> job_words (evs @ [Confirm (wordOf DetachDatapath)]) JobDetach"
  "asked (ReattachDatapath p) evs \<Longrightarrow> job_words (evs @ [Confirm (wordOf (ReattachDatapath p))]) (JobReattach p)"
  by (simp_all add: job_words_def granted_now)

lemma words_inv_confirm: "words_inv evs u \<Longrightarrow> words_inv (evs @ [Confirm s]) (confirmWord s u)"
  using words_inv_mono [of evs u "[Confirm s]"]
  by (auto simp: words_inv_def confirmWord_def confirmed_def runAsync_def message_def job_words_now
      split: option.split modal.split confirm.split)

lemma words_inv_cancel: "words_inv evs u \<Longrightarrow> words_inv evs (cancelWord u)"
  by (auto simp: words_inv_def cancelWord_def split: option.split modal.split)

lemma words_inv_finish:
  assumes "words_inv evs u" "runJob env j (u\<lparr>u_jobs := take k (u_jobs u) @ drop (Suc k) (u_jobs u)\<rparr>) = Some u'"
  shows "words_inv evs u'"
  using assms(1) runJob_jobs [OF assms(2)] runJob_modal [OF assms(2)]
  by (auto simp: words_inv_def dest: in_set_takeD in_set_dropD)

lemma words_inv_step: "console_step env ev u u' \<Longrightarrow> words_inv evs u \<Longrightarrow> words_inv (evs @ [ev]) u'"
proof (induction rule: console_step.induct)
  case (finish u k env u')
  then show ?case using words_inv_finish words_inv_mono by blast
qed (auto intro: words_inv_keys words_inv_operate words_inv_confirm words_inv_button words_inv_cancel words_inv_mono
    words_inv_light [OF light_formEvent] words_inv_light [OF light_sampleTick])

text \<open>\<open>finishedAfter y x evs\<close>: \<open>y\<close>, later \<open>x\<close>, and later still the end of a background operation.\<close>

definition finishedAfter :: "event \<Rightarrow> event \<Rightarrow> event list \<Rightarrow> bool" where
  "finishedAfter y x evs \<longleftrightarrow> (\<exists>a b k. evs = a @ x # b \<and> y \<in> set a \<and> Finish k \<in> set b)"

lemma finishedAfter_mono:
  assumes "finishedAfter y x evs"
  shows "finishedAfter y x (evs @ rest)"
proof -
  obtain a b k where "evs = a @ x # b" "y \<in> set a" "Finish k \<in> set b" using assms by (auto simp: finishedAfter_def)
  then have "evs @ rest = a @ x # (b @ rest) \<and> y \<in> set a \<and> Finish k \<in> set (b @ rest)" by simp
  then show ?thesis unfolding finishedAfter_def by blast
qed

lemma finishedAfter_now:
  assumes "evs = a @ x # b" "y \<in> set a"
  shows "finishedAfter y x (evs @ [Finish k])"
proof -
  have "evs @ [Finish k] = a @ x # (b @ [Finish k]) \<and> y \<in> set a \<and> Finish k \<in> set (b @ [Finish k])" using assms by simp
  then show ?thesis unfolding finishedAfter_def by blast
qed

definition cut_granted :: "event list \<Rightarrow> bool" where
  "cut_granted evs \<longleftrightarrow> finishedAfter (Operate OpDetach) (Confirm ''DETACH'') evs \<or> finishedAfter (Key KeyCtrlS) (Confirm ''REATTACH'') evs"

lemma cut_granted_mono: "cut_granted evs \<Longrightarrow> cut_granted (evs @ rest)"
  by (auto simp: cut_granted_def finishedAfter_mono)

lemma cut_granted_confirmed:
  "granted DetachDatapath evs \<Longrightarrow> cut_granted (evs @ [Finish k])"
  "granted (ReattachDatapath p) evs \<Longrightarrow> cut_granted (evs @ [Finish k])"
  unfolding cut_granted_def by (auto simp: granted_def wordOf_def asked_def simp del: append_assoc intro: finishedAfter_now)

lemma cut_granted_now: "job_words evs j \<Longrightarrow> cutting j \<Longrightarrow> cut_granted (evs @ [Finish k])"
  by (cases j) (simp_all add: cutting_def job_words_def cut_granted_confirmed)

lemma same_links_step:
  assumes "console_step env ev u u'" "words_inv evs u"
  shows "same_links (u_world u) (u_world u') \<or> cut_granted (evs @ [ev])"
  using assms
proof (induction rule: console_step.induct)
  case (key u env k)
  then show ?case
  proof (cases "k = KeyCtrlS")
    case False
    then show ?thesis by (simp add: edits_links edits_keys)
  qed (simp add: keys_def same_links_applyKey)
next
  case (finish u k env u')
  then have "job_words evs (u_jobs u ! k)" by (simp add: words_inv_def)
  then show ?case using cut_granted_now same_links_runJob [OF finish(3)] by auto
qed (simp_all add: edits_links edits_formEvent edits_operate edits_confirmWord edits_cancelWord edits_sampleTick same_links_chooseButton)

lemma cut_step:
  assumes "console_step env ev u u'" "words_inv evs u \<and> (same_links w (u_world u) \<or> cut_granted evs)"
  shows "words_inv (evs @ [ev]) u' \<and> (same_links w (u_world u') \<or> cut_granted (evs @ [ev]))"
  using assms words_inv_step [OF assms(1)] same_links_step [OF assms(1)] cut_granted_mono same_links_trans by blast

interpretation words: session_invariant u0 "\<lambda>evs u. words_inv evs u \<and> (same_links w (u_world u) \<or> cut_granted evs)" for u0 w
  by unfold_locales (rule cut_step)

end
