(* ===== verification/Console_Forms.thy ===== *)
theory Console_Forms
  imports Console Dataplane_Props
begin

text \<open>
  The forms of the operations console: what every callback keeps of the staged configuration, with the
  round trip of the allowlist editor and the replacement of monitoring rules.
\<close>

section \<open>What the forms keep of the staged configuration\<close>

definition staged_ok :: "Config \<Rightarrow> bool" where
  "staged_ok c \<longleftrightarrow>
     (\<forall>s \<in> set (elems (ServerAllow c)). \<exists>a p. ParseHostPort s = Inr (a, p)) \<and>
     (\<forall>r \<in> set (elems (CIDRs (Flow_Monitoring c))). wf_rule r) \<and>
     distinct (map CIDR (elems (CIDRs (Flow_Monitoring c)))) \<and>
     Mode c \<in> {''monitor'', ''enforce''} \<and> XDPMode c \<in> {''native'', ''generic'', ''auto''}"

definition flagged :: "(string, string) kmap \<Rightarrow> Config \<Rightarrow> bool" where
  "flagged v c \<longleftrightarrow> (TrustedIface c = [] \<longrightarrow> kget v ''trusted_iface'' \<noteq> None) \<and> (UntrustedIface c = [] \<longrightarrow> kget v ''untrusted_iface'' \<noteq> None)"

definition forms_ok :: "('h, 'e) ui \<Rightarrow> bool" where
  "forms_ok u \<longleftrightarrow> (\<exists>c. Staged (u_ctrl u) = Some c \<and> staged_ok c \<and> flagged (u_validation u) c)"

lemma distinct_map_trim: "distinct (map (\<lambda>r. trimSpace (CIDR r)) rs) \<Longrightarrow> distinct (map CIDR rs)"
  by (metis (no_types, lifting) comp_apply distinct_map list.map_comp map_eq_conv)

lemma wf_staged_ok: "wf_config c \<Longrightarrow> staged_ok c \<and> flagged v c"
  by (auto simp: staged_ok_def flagged_def wf_config_def wf_monitoring_def dest: distinct_map_trim)

lemma forms_ok_wf: "Staged (u_ctrl u) = Some c \<Longrightarrow> wf_config c \<Longrightarrow> forms_ok u"
  using wf_staged_ok by (auto simp: forms_ok_def)

lemma forms_ok_frame: "u_ctrl u' = u_ctrl u \<Longrightarrow> u_validation u' = u_validation u \<Longrightarrow> forms_ok u' = forms_ok u"
  by (simp add: forms_ok_def)

lemma forms_ok_staged: "forms_ok u \<Longrightarrow> staged_ok (staged u)"
  by (auto simp: forms_ok_def)

lemma forms_ok_onStaged:
  assumes "forms_ok u" "staged_ok (staged u) \<Longrightarrow> staged_ok (f (staged u))"
    and "TrustedIface (f (staged u)) = TrustedIface (staged u)" "UntrustedIface (f (staged u)) = UntrustedIface (staged u)"
  shows "forms_ok (onStaged f u)"
  using assms by (auto simp: forms_ok_def onStaged_def flagged_def)

lemma forms_ok_message [simp]: "forms_ok (message md u) = forms_ok u"
  by (simp add: forms_ok_def message_def)

lemma forms_ok_valid: "n \<noteq> ''trusted_iface'' \<Longrightarrow> n \<noteq> ''untrusted_iface'' \<Longrightarrow> forms_ok (valid n b u) = forms_ok u"
  by (simp add: forms_ok_def flagged_def valid_def)

lemma names_distinct: "u32Name f \<noteq> ''trusted_iface''" "u32Name f \<noteq> ''untrusted_iface''"
  "intName g \<noteq> ''trusted_iface''" "intName g \<noteq> ''untrusted_iface''"
  by ((cases f; simp)+, (cases g; simp)+)

lemma staged_valid [simp]: "staged (valid n b u) = staged u"
  by (simp add: valid_def)

lemma setU32_frame: "staged_ok c \<Longrightarrow> staged_ok (setU32 f v c)" "TrustedIface (setU32 f v c) = TrustedIface c"
  "UntrustedIface (setU32 f v c) = UntrustedIface c"
  by (cases f; simp add: staged_ok_def)+

lemma setInt_frame: "staged_ok c \<Longrightarrow> staged_ok (setInt g w c)" "TrustedIface (setInt g w c) = TrustedIface c"
  "UntrustedIface (setInt g w c) = UntrustedIface c"
  by (cases g; simp add: staged_ok_def)+

lemma setCheck_frame: "staged_ok c \<Longrightarrow> staged_ok (setCheck f b c)" "TrustedIface (setCheck f b c) = TrustedIface c"
  "UntrustedIface (setCheck f b c) = UntrustedIface c"
  by (cases f; simp add: staged_ok_def)+

lemma forms_ok_addU32: "forms_ok u \<Longrightarrow> forms_ok (addU32 f s u)"
  by (auto simp: addU32_def forms_ok_valid names_distinct setU32_frame intro!: forms_ok_onStaged split: prod.split option.split)

lemma forms_ok_addInt: "forms_ok u \<Longrightarrow> forms_ok (addInt g s u)"
  by (auto simp: addInt_def forms_ok_valid names_distinct setInt_frame intro!: forms_ok_onStaged split: prod.split option.split)

lemma forms_ok_addString: "forms_ok u \<Longrightarrow> forms_ok (addString f s u)"
  by (cases f) (auto simp: addString_def forms_ok_def onStaged_def valid_def flagged_def staged_ok_def)

section \<open>The allowlist editor\<close>

text \<open>An entry that was accepted and printed again is an entry.\<close>

lemma ParseHostPort_join:
  assumes "length a = 4"
  shows "ParseHostPort (joinHostPort (ipString a) (itoa (uint (port :: u16)))) = Inr (a, port)"
proof -
  obtain x y z t where a: "a = [x, y, z, t]" by (rule length4_cases [OF assms])
  let ?h = "decimal (uint x) @ dot # decimal (uint y) @ dot # decimal (uint z) @ dot # decimal (uint t)"
  have h: "ipString a = ?h" by (simp add: a ipString_def to4_def dotted_def dot_def)
  have p: "itoa (uint port) = decimal (uint port)" by (simp add: itoa_def)
  have np: "c \<notin> set (decimal n)" if "\<not> isDigit c" "0 \<le> n" for c n using decimal_digits that by blast
  have br: "\<not> isDigit (CHR ''['')" "\<not> isDigit (CHR '']'')" "dot \<noteq> CHR ''[''" "dot \<noteq> CHR '']''" "colon \<noteq> CHR ''[''" "colon \<noteq> CHR '']''"
    by (simp_all add: isDigit_def dot_def colon_def)
  have nh: "colon \<notin> set ?h" "CHR ''['' \<notin> set ?h" "CHR '']'' \<notin> set ?h" using br not_isDigit_punct(4) [symmetric] by (auto simp: np)
  have j: "joinHostPort (ipString a) (itoa (uint port)) = ?h @ colon # decimal (uint port)"
    using nh(1) by (simp add: joinHostPort_def h p colon_def)
  have "cutOn colon (rev (?h @ colon # decimal (uint port))) = Some (rev (decimal (uint port)), rev ?h)"
    using cutOn_append [of colon "rev (decimal (uint port))" "rev ?h"] np by simp
  moreover have "\<not> hasPrefix (?h @ colon # decimal (uint port)) ''[''"
    using decimal_digits [of "uint x"] br by (cases "decimal (uint x)") (auto simp: hasPrefix_def)
  moreover have "CHR ''['' \<notin> set (?h @ colon # decimal (uint port))" "CHR '']'' \<notin> set (?h @ colon # decimal (uint port))"
    using nh br by (auto simp: np)
  ultimately have "splitHostPort (?h @ colon # decimal (uint port)) = Some (?h, decimal (uint port))"
    using nh(1) unfolding splitHostPort_def by (simp add: Let_def)
  moreover have "parseUint 16 (decimal (uint port)) = (uint port, None)"
    by (rule parseUint_decimal) (use uint_lt2p [of port] in simp_all)
  ultimately show ?thesis
    unfolding ParseHostPort_def j using parseIP_ipString [OF assms] by (simp add: h to4_mapped [OF assms])
qed

lemma allowEntry_parses: "allowEntry s = Some e \<Longrightarrow> \<exists>a p. ParseHostPort e = Inr (a, p)"
  by (auto simp: allowEntry_def ParseHostPort_join ParseHostPort_length split: sum.splits)

lemma elems_setAt [simp]: "elems (setAt i x s) = (elems s)[nat i := x]"
  by (cases s) (simp_all add: setAt_def)

lemma elems_deleteAt [simp]: "elems (deleteAt i s) = take (nat i) (elems s) @ drop (Suc (nat i)) (elems s)"
  by (cases s) (simp_all add: deleteAt_def)

lemma set_deleteAt: "set (take k xs @ drop (Suc k) xs) \<subseteq> set xs"
  by (auto dest: in_set_takeD in_set_dropD)

lemma forms_ok_allow:
  assumes "forms_ok u" "\<And>s. s \<in> set (elems l) \<Longrightarrow> s \<in> set (elems (ServerAllow (staged u))) \<or> (\<exists>a p. ParseHostPort s = Inr (a, p))"
  shows "forms_ok (onStaged (\<lambda>c. c\<lparr>ServerAllow := l\<rparr>) u)"
  by (rule forms_ok_onStaged [OF assms(1)]) (use assms(2) in \<open>auto simp: staged_ok_def\<close>)

lemma forms_ok_clearAllow [simp]: "forms_ok (clearAllow u) = forms_ok u"
  by (simp add: forms_ok_def clearAllow_def)

lemma forms_ok_saveAllowEntry:
  assumes "forms_ok u"
  shows "forms_ok (saveAllowEntry u)"
proof (cases "allowEntry (allowInput u)")
  case None
  then show ?thesis using assms by (simp add: saveAllowEntry_def)
next
  case (Some e)
  let ?l = "ServerAllow (staged u)"
  let ?l' = "if inRange (allowSelected u) ?l then setAt (allowSelected u) e ?l else appendSlice ?l e"
  have "set (elems ?l') \<subseteq> insert e (set (elems ?l))" using set_update_subset_insert [of "elems ?l" "nat (allowSelected u)" e] by simp
  then have "forms_ok (onStaged (\<lambda>c. c\<lparr>ServerAllow := ?l'\<rparr>) u)"
    using allowEntry_parses [OF Some] by (intro forms_ok_allow [OF assms]) blast
  then show ?thesis using Some assms by (simp add: saveAllowEntry_def Let_def)
qed

lemma forms_ok_deleteAllowEntry: 
  assumes "forms_ok u"
  shows "forms_ok (deleteAllowEntry u)"
proof -
  let ?l = "ServerAllow (staged u)"
  have "forms_ok (onStaged (\<lambda>c. c\<lparr>ServerAllow := deleteAt (allowSelected u) ?l\<rparr>) u)"
    using set_deleteAt [of "nat (allowSelected u)" "elems ?l"] by (intro forms_ok_allow [OF assms]) auto
  moreover have "onStaged (\<lambda>c. c\<lparr>ServerAllow := deleteAt i (ServerAllow c)\<rparr>) u = onStaged (\<lambda>c. c\<lparr>ServerAllow := deleteAt i ?l\<rparr>) u" for i
    by (cases "Staged (u_ctrl u)") (simp_all add: onStaged_def)
  ultimately show ?thesis using assms by (simp add: deleteAllowEntry_def)
qed

section \<open>The editor of monitoring rules\<close>

lemma replaceLoop_spec:
  "replaceLoop cidr i rs rep = Some k \<Longrightarrow> distinct (map CIDR rs) \<Longrightarrow>
    (cidr \<in> CIDR ` set rs \<and> (\<exists>j < length rs. CIDR (rs ! j) = cidr \<and> k = int (i + j))) \<or> (cidr \<notin> CIDR ` set rs \<and> k = rep)"
proof (induction cidr i rs rep rule: replaceLoop.induct)
  case (2 cidr i r rs rep)
  show ?case
  proof (cases "CIDR r = cidr")
    case True
    with 2(3,4) have "k = int i" using 2(2) by (auto split: if_splits)
    with True show ?thesis by force
  next
    case False
    with 2 have "(cidr \<in> CIDR ` set rs \<and> (\<exists>j < length rs. CIDR (rs ! j) = cidr \<and> k = int (Suc i + j))) \<or> (cidr \<notin> CIDR ` set rs \<and> k = rep)"
      by simp
    with False show ?thesis by fastforce
  qed
qed simp

lemma distinct_deleteAt:
  assumes "distinct (map f xs)"
  shows "distinct (map f (take k xs @ drop (Suc k) xs))"
proof (cases "k < length xs")
  case True
  have "map f xs = map f (take k xs) @ f (xs ! k) # map f (drop (Suc k) xs)"
    using id_take_nth_drop [OF True] by (metis list.simps(9) map_append)
  with assms have "distinct (map f (take k xs) @ f (xs ! k) # map f (drop (Suc k) xs))" by simp
  then show ?thesis by simp
qed (use assms in simp)

lemma rule_wf:
  assumes "canonicalCIDR (trimSpace s)" "thresholds pf a b = Some (pps, mbps)"
  shows "wf_rule \<lparr>CIDR = trimSpace s, PPSThreshold = pps, MbpsThreshold = mbps\<rparr>"
  using assms by (auto simp: canonicalCIDR_def thresholds_def wf_rule_def split: option.splits prod.splits if_splits)

lemma staged_ok_rules:
  assumes "staged_ok c" "\<forall>r \<in> set (elems l). wf_rule r" "distinct (map CIDR (elems l))"
  shows "staged_ok (withRules l c)"
  using assms by (simp add: staged_ok_def withRules_def)

lemma forms_ok_withRules:
  "forms_ok u \<Longrightarrow> \<forall>r \<in> set (elems l). wf_rule r \<Longrightarrow> distinct (map CIDR (elems l)) \<Longrightarrow> forms_ok (onStaged (withRules l) u)"
  by (rule forms_ok_onStaged) (simp_all add: staged_ok_rules, simp_all add: withRules_def)

lemma forms_ok_clearRule [simp]: "forms_ok (clearRule u) = forms_ok u"
  by (simp add: forms_ok_def clearRule_def)

lemma replaced_distinct:
  assumes "distinct (map CIDR rs)" "replaceLoop (CIDR r) 0 rs sel = Some k"
  shows "distinct (map CIDR (if 0 \<le> k \<and> k < int (length rs) then rs[nat k := r] else rs @ [r]))"
  using replaceLoop_spec [OF assms(2,1)]
proof (elim disjE conjE exE)
  fix j assume "j < length rs" "CIDR (rs ! j) = CIDR r" "k = int (0 + j)"
  then have "map CIDR (rs[nat k := r]) = map CIDR rs" by (metis add_0 list_update_id map_update nat_int)
  with assms(1) \<open>j < length rs\<close> \<open>k = int (0 + j)\<close> show ?thesis by simp
next
  assume "CIDR r \<notin> CIDR ` set rs" "k = sel"
  with assms(1) show ?thesis by (auto simp: map_update intro!: distinct_list_update)
qed

lemma replaced_wf: "\<forall>x \<in> set rs. wf_rule x \<Longrightarrow> wf_rule r \<Longrightarrow> x \<in> set (if P then rs[n := r] else rs @ [r]) \<Longrightarrow> wf_rule x"
  using set_update_subset_insert [of rs n r] by (auto split: if_splits)

lemma forms_ok_saveRule:
  assumes "forms_ok u"
  shows "forms_ok (saveFlowMonitorRule pf u)"
proof (cases "canonicalCIDR (trimSpace (fmCIDR u)) \<and> thresholds pf (fmPPS u) (fmMbps u) \<noteq> None \<and>
    replaceLoop (trimSpace (fmCIDR u)) 0 (elems (CIDRs (Flow_Monitoring (staged u)))) (fmSelected u) \<noteq> None")
  case False
  then show ?thesis using assms by (auto simp: saveFlowMonitorRule_def Let_def split: option.split)
next
  case True
  let ?l = "CIDRs (Flow_Monitoring (staged u))"
  from True obtain pps mbps k where t: "thresholds pf (fmPPS u) (fmMbps u) = Some (pps, mbps)"
    and k: "replaceLoop (trimSpace (fmCIDR u)) 0 (elems ?l) (fmSelected u) = Some k" by auto
  let ?r = "\<lparr>CIDR = trimSpace (fmCIDR u), PPSThreshold = pps, MbpsThreshold = mbps\<rparr>"
  let ?l' = "if inRange k ?l then setAt k ?r ?l else appendSlice ?l ?r"
  have s: "\<forall>r \<in> set (elems ?l). wf_rule r" "distinct (map CIDR (elems ?l))"
    using forms_ok_staged [OF assms] by (simp_all add: staged_ok_def)
  have e: "elems ?l' = (if 0 \<le> k \<and> k < int (length (elems ?l)) then (elems ?l)[nat k := ?r] else elems ?l @ [?r])"
    by (simp add: inRange_def)
  have "distinct (map CIDR (elems ?l'))" unfolding e by (rule replaced_distinct [OF s(2), where sel = "fmSelected u"]) (simp add: k)
  moreover have "\<forall>r \<in> set (elems ?l'). wf_rule r" unfolding e using replaced_wf [OF s(1) rule_wf [OF _ t]] True by blast
  ultimately have "forms_ok (onStaged (withRules ?l') u)" using assms by (intro forms_ok_withRules)
  then show ?thesis using True t k by (simp add: saveFlowMonitorRule_def Let_def)
qed

lemma forms_ok_deleteRule:
  assumes "forms_ok u"
  shows "forms_ok (deleteFlowMonitorRule u)"
proof -
  let ?l = "CIDRs (Flow_Monitoring (staged u))"
  have s: "\<forall>r \<in> set (elems ?l). wf_rule r" "distinct (map CIDR (elems ?l))"
    using forms_ok_staged [OF assms] by (simp_all add: staged_ok_def)
  have "forms_ok (onStaged (withRules (deleteAt i ?l)) u)" for i
    using assms s set_deleteAt [of "nat i" "elems ?l"] distinct_deleteAt [OF s(2)] unfolding elems_deleteAt [symmetric]
    by (intro forms_ok_withRules) auto
  then show ?thesis using assms by (simp add: deleteFlowMonitorRule_def Let_def)
qed

lemma forms_ok_upds [simp]:
  "forms_ok (u\<lparr>allowInput := s\<rparr>) = forms_ok u" "forms_ok (u\<lparr>fmCIDR := s\<rparr>) = forms_ok u" "forms_ok (u\<lparr>fmPPS := s\<rparr>) = forms_ok u"
  "forms_ok (u\<lparr>fmMbps := s\<rparr>) = forms_ok u" "forms_ok (u\<lparr>flowProto := s\<rparr>) = forms_ok u" "forms_ok (u\<lparr>flowVLAN := s\<rparr>) = forms_ok u"
  "forms_ok (u\<lparr>flowText := s\<rparr>) = forms_ok u" "forms_ok (u\<lparr>u_current := s\<rparr>) = forms_ok u" "forms_ok (selectAllow row u) = forms_ok u"
  "forms_ok (selectRule fmt row u) = forms_ok u" "forms_ok (requestFlowRefresh u) = forms_ok u"
  "forms_ok (u\<lparr>u_modal := md\<rparr>) = forms_ok u" "forms_ok (u\<lparr>u_jobs := js\<rparr>) = forms_ok u" "forms_ok (u\<lparr>u_stopped := b\<rparr>) = forms_ok u"
  "forms_ok (u\<lparr>u_host := h\<rparr>) = forms_ok u" "forms_ok (u\<lparr>u_world := wd\<rparr>) = forms_ok u"
  by (simp_all add: forms_ok_def selectAllow_def selectRule_def requestFlowRefresh_def Let_def)

lemma forms_ok_check: "forms_ok u \<Longrightarrow> forms_ok (onStaged (setCheck f b) u)"
  by (rule forms_ok_onStaged) (simp_all add: setCheck_frame)

lemma forms_ok_tuning: "forms_ok u \<Longrightarrow> forms_ok (onStaged (\<lambda>c. c\<lparr>Tuning_Cfg := g (Tuning_Cfg c)\<rparr>) u)"
  by (rule forms_ok_onStaged) (simp_all add: staged_ok_def)

lemma forms_ok_mode: "forms_ok u \<Longrightarrow> n < length modeOptions \<Longrightarrow> forms_ok (onStaged (\<lambda>c. c\<lparr>Mode := modeOptions ! n\<rparr>) u)"
  by (rule forms_ok_onStaged) (auto simp: staged_ok_def modeOptions_def less_Suc_eq)

lemma forms_ok_xdp: "forms_ok u \<Longrightarrow> n < length xdpOptions \<Longrightarrow> forms_ok (onStaged (\<lambda>c. c\<lparr>XDPMode := xdpOptions ! n\<rparr>) u)"
  by (rule forms_ok_onStaged) (auto simp: staged_ok_def xdpOptions_def less_Suc_eq)

lemma forms_ok_formEvent: "forms_ok u \<Longrightarrow> forms_ok (formEvent env ev u)"
  by (cases ev) (simp_all add: formEvent_def forms_ok_addU32 forms_ok_addInt forms_ok_addString addOptionalString_def addTri_def
      pickOption_def forms_ok_check forms_ok_tuning forms_ok_mode forms_ok_xdp forms_ok_saveAllowEntry forms_ok_deleteAllowEntry
      forms_ok_saveRule forms_ok_deleteRule)

end
