(* ===== verification/Console_Props.thy ===== *)
theory Console_Props
  imports Console_Steps Console_Forms
begin

text \<open>
  The operations console: the invariant of its reachable states and the properties of its sessions. They
  quantify over all sequences of events and over all answers of the system.
\<close>

section \<open>The controller below the console\<close>

text \<open>An operation of the controller leaves both configurations alone or makes them one valid configuration.\<close>

definition ctrl_next :: "'h Controller \<Rightarrow> 'h Controller \<Rightarrow> bool" where
  "ctrl_next c c' \<longleftrightarrow> Base c' = Base c \<and> Staged c' = Staged c \<or> (\<exists>n. Base c' = Some n \<and> Staged c' = Some n \<and> wf_config n)"

lemma ctrl_next_refl [simp]: "ctrl_next c c" "ctrl_next c (c\<lparr>activePinDir := p\<rparr>)"
  by (simp_all add: ctrl_next_def)

lemma ctrl_next_Reload: "ctrl_next c (snd (Reload env w c))"
  by (auto simp: ctrl_next_def Reload_def Load_def Let_def dest: Validate_wf split: sum.splits option.splits prod.splits)

lemma ctrl_next_saved: "Base c' = Some (Clone n) \<Longrightarrow> Staged c' = Some (Clone n) \<Longrightarrow> Validate x = (None, n) \<Longrightarrow> ctrl_next c c'"
  using Validate_wf by (auto simp: ctrl_next_def)

lemma ctrl_next_persist:
  "persist env res nxt c w = (res', e, c', w') \<Longrightarrow> Validate x = (None, nxt) \<Longrightarrow> ctrl_next c c'"
  by (elim persist_cases) (simp_all add: ctrl_next_saved)

lemma ctrl_next_Apply: "Apply env c w = (res, e, c', w') \<Longrightarrow> ctrl_next c c'"
proof (cases "csEmpty (Diff (Base c) (Staged c))")
  case False
  assume "Apply env c w = (res, e, c', w')"
  from this False show ?thesis by (rule Apply_cases) (auto dest: ctrl_next_persist)
qed (auto simp: Apply_def Let_def)

lemma persist_Previous: "Previous (fst (persist env res nxt c w)) = Previous res"
  by (simp add: persist_def Let_def case_prod_beta split: option.split)

lemma Apply_Previous: "Previous (fst (Apply env c w)) = map_option Clone (Base c)"
  by (simp add: Apply_def Let_def case_prod_beta persist_Previous split: option.split)

lemma persist_not_invalid: "persist env r n c v = (r', Some (CtlInvalid x), c', w') \<Longrightarrow> False"
  by (elim persist_cases) auto

lemma Apply_invalid: "Apply env c w = (res, Some (CtlInvalid x), c', w') \<Longrightarrow> fst (Validate (Clone (the (Staged c)))) = Some x"
  by (auto simp: Apply_def Let_def dest: persist_not_invalid split: option.splits if_splits prod.splits)

lemma ctrl_next_Reattach: "Reattach env p c w = (e, c', w') \<Longrightarrow> ctrl_next c c'"
  by (auto simp: Reattach_def restoreOld_def Let_def ctrl_next_Reload split: prod.splits option.splits if_splits)

section \<open>The invariant of the console\<close>

definition previous_ok :: "Config option \<Rightarrow> bool" where
  "previous_ok p \<longleftrightarrow> (case p of None \<Rightarrow> False | Some c \<Rightarrow> wf_config c)"

definition page_ok :: "modal option \<Rightarrow> bool" where
  "page_ok md \<longleftrightarrow> (case md of Some (AskReattach p) \<Rightarrow> previous_ok p | Some (TypedWord w (ReattachDatapath p)) \<Rightarrow> previous_ok p | _ \<Rightarrow> True)"

definition job_ok :: "job \<Rightarrow> bool" where
  "job_ok j \<longleftrightarrow> (case j of JobReattach p \<Rightarrow> previous_ok p | _ \<Rightarrow> True)"

definition base_ok :: "('h, 'e) ui \<Rightarrow> bool" where
  "base_ok u \<longleftrightarrow> (\<exists>b. Base (u_ctrl u) = Some b \<and> wf_config b)"

definition console_ok :: "('h, 'e) ui \<Rightarrow> bool" where
  "console_ok u \<longleftrightarrow> base_ok u \<and> forms_ok u \<and> page_ok (u_modal u) \<and> (\<forall>j \<in> set (u_jobs u). job_ok j)"

lemma page_ok_simps [simp]: "page_ok None" "page_ok (Some (Notice t))" "page_ok (Some (Working t))"
  "page_ok (Some AskReload)" "page_ok (Some AskRestart)" "page_ok (Some AskQuit)"
  "page_ok (Some (AskReattach p)) = previous_ok p" "page_ok (Some (TypedWord w RestoreTuning))"
  "page_ok (Some (TypedWord w DetachDatapath))" "page_ok (Some (TypedWord w (ReattachDatapath p))) = previous_ok p"
  by (simp_all add: page_ok_def)

lemma job_ok_simps [simp]: "job_ok (JobFlows q)" "job_ok (JobService a)" "job_ok (JobTuneApply cfg)" "job_ok JobTuneRestore" "job_ok JobDetach"
  "job_ok (JobReattach p) = previous_ok p"
  by (simp_all add: job_ok_def)

lemma base_ok_upds [simp]: "base_ok (u\<lparr>u_modal := md\<rparr>) = base_ok u" "base_ok (u\<lparr>u_jobs := js\<rparr>) = base_ok u"
  "base_ok (u\<lparr>u_stopped := b\<rparr>) = base_ok u"
  by (simp_all add: base_ok_def)

lemma base_ok_edits: "edits u u' \<Longrightarrow> base_ok u \<Longrightarrow> base_ok u'"
  by (simp add: edits_def base_ok_def)

lemma ctrl_next_ok:
  assumes "ctrl_next (u_ctrl u) (u_ctrl u')" "u_validation u' = u_validation u" "base_ok u" "forms_ok u"
  shows "base_ok u' \<and> forms_ok u'"
  using assms(1) unfolding ctrl_next_def
proof (elim disjE exE conjE)
  fix n assume "Base (u_ctrl u') = Some n" "Staged (u_ctrl u') = Some n" "wf_config n"
  then show ?thesis using forms_ok_wf by (auto simp: base_ok_def)
qed (use assms in \<open>simp_all add: base_ok_def forms_ok_def\<close>)

lemma console_ok_light: "light u u' \<Longrightarrow> base_ok u' \<Longrightarrow> forms_ok u' \<Longrightarrow> console_ok u \<Longrightarrow> console_ok u'"
  by (auto simp: light_def console_ok_def)

lemma console_ok_applyKey:
  assumes "console_ok u"
  shows "console_ok (applyKey env u)"
proof (cases "u_validation u = []")
  case False
  then show ?thesis using assms by (simp add: applyKey_def console_ok_def base_ok_def message_def forms_ok_def)
next
  case True
  obtain res e c w where a: "Apply env (u_ctrl u) (u_world u) = (res, e, c, w)" by (metis prod_cases4)
  obtain b where b: "Base (u_ctrl u) = Some b" "wf_config b" using assms by (auto simp: console_ok_def base_ok_def)
  then have p: "previous_ok (Previous res)" using Apply_Previous [of env "u_ctrl u" "u_world u"] by (simp add: a previous_ok_def)
  have c: "u_ctrl (applyKey env u) = c" "u_validation (applyKey env u) = u_validation u"
    using True by (simp_all add: applyKey_def a message_def Let_def split: option.split)
  have "base_ok (applyKey env u) \<and> forms_ok (applyKey env u)"
    using ctrl_next_Apply [OF a] assms by (intro ctrl_next_ok [of u]) (simp_all add: c console_ok_def)
  moreover have "page_ok (u_modal (applyKey env u))" using True p by (simp add: applyKey_def a message_def Let_def split: option.split)
  ultimately show ?thesis using assms by (simp add: console_ok_def applyKey_jobs)
qed

lemma keys_forms: "k \<noteq> KeyCtrlS \<Longrightarrow> forms_ok (snd (keys env k u)) = forms_ok u"
  by (cases k) (simp_all add: keys_def quitKey_def)

lemma console_ok_keys: "console_ok u \<Longrightarrow> console_ok (snd (keys env k u))"
proof (cases "k = KeyCtrlS")
  case True
  then show "console_ok u \<Longrightarrow> ?thesis" by (simp add: keys_def console_ok_applyKey)
next
  case False
  assume "console_ok u"
  then show ?thesis using keys_jobs [of env k u] keys_modal [OF False, of env u] keys_forms [OF False, of env u]
      base_ok_edits [OF edits_keys [OF False]] by (auto simp: console_ok_def)
qed

lemma console_ok_operate: "operate m op u = Some u' \<Longrightarrow> console_ok u \<Longrightarrow> console_ok u'"
  by (cases op) (auto simp: operate_def typed_def runAsync_def message_def console_ok_def base_ok_def split: if_splits)

lemma console_ok_button:
  assumes "console_ok u"
  shows "console_ok (chooseButton env i u)"
proof -
  let ?r = "u\<lparr>u_ctrl := snd (Reload env (u_world u) (u_ctrl u))\<rparr>"
  have "base_ok ?r \<and> forms_ok ?r"
    using ctrl_next_Reload assms by (intro ctrl_next_ok [of u]) (simp_all add: console_ok_def)
  moreover have "u\<lparr>u_modal := md, u_ctrl := c\<rparr> = u\<lparr>u_ctrl := c, u_modal := md\<rparr>" for md c by simp
  moreover have "base_ok u" "forms_ok u" "page_ok (u_modal u)" "\<forall>j \<in> set (u_jobs u). job_ok j"
    using assms by (simp_all add: console_ok_def)
  ultimately show ?thesis
    by (auto simp: console_ok_def chooseButton_def typed_def runAsync_def message_def Let_def split: option.split modal.split)
qed

lemma console_ok_confirm: "console_ok u \<Longrightarrow> console_ok (confirmWord s u)"
  by (auto simp: console_ok_def confirmWord_def confirmed_def runAsync_def message_def base_ok_def split: option.split modal.split confirm.split)

lemma console_ok_cancel: "console_ok u \<Longrightarrow> console_ok (cancelWord u)"
  by (auto simp: console_ok_def cancelWord_def base_ok_def split: option.split modal.split)

lemma runJob_ctrl: "runJob env j u = Some u' \<Longrightarrow> ctrl_next (u_ctrl u) (u_ctrl u') \<and> u_validation u' = u_validation u"
  by (cases j) (auto simp: runJob_def refreshFlows_def finished_def message_def Let_def ctrl_next_Reattach split: prod.splits option.splits if_splits)

lemma console_ok_finish:
  assumes "console_ok u" "runJob env j (u\<lparr>u_jobs := take k (u_jobs u) @ drop (Suc k) (u_jobs u)\<rparr>) = Some u'"
  shows "console_ok u'"
proof -
  have "base_ok u' \<and> forms_ok u'"
    using runJob_ctrl [OF assms(2)] assms(1) by (intro ctrl_next_ok [of u]) (simp_all add: console_ok_def)
  then show ?thesis using assms(1) runJob_jobs [OF assms(2)] runJob_modal [OF assms(2)]
    by (auto simp: console_ok_def dest: in_set_takeD in_set_dropD)
qed

lemma console_ok_form: "console_ok u \<Longrightarrow> console_ok (formEvent env ev u)"
  by (rule console_ok_light [OF light_formEvent])
    (simp_all add: console_ok_def base_ok_edits [OF edits_formEvent] forms_ok_formEvent)

lemma console_ok_sample: "console_ok u \<Longrightarrow> console_ok (sampleTick env u)"
  by (rule console_ok_light [OF light_sampleTick])
    (simp_all add: console_ok_def base_ok_edits [OF edits_sampleTick] forms_ok_frame [OF sampleTick_frame(1,2)])

lemma console_ok_step: "console_step env ev u u' \<Longrightarrow> console_ok u \<Longrightarrow> console_ok u'"
  by (induction rule: console_step.induct)
    (blast intro: console_ok_form console_ok_keys console_ok_operate console_ok_button console_ok_confirm console_ok_cancel
       console_ok_finish console_ok_sample)+

interpretation consistent: session_invariant u0 "\<lambda>evs. console_ok" for u0
  by unfold_locales (rule console_ok_step)

lemma console_ok_start:
  assumes "ManageRun isroot terminal env w e path = Inr u"
  shows "console_ok u \<and> scan_inv u \<and> quiet u \<and> words_inv [] u \<and> u_world u = w \<and> u_host u = e"
proof -
  obtain c where c: "NewController env w path = Inr c" "u = startUi c w e"
    using assms by (auto simp: ManageRun_def split: if_splits sum.splits)
  then obtain n where "Base c = Some n" "Staged c = Some n" "wf_config n"
    by (auto simp: NewController_def Reload_def Load_def Let_def dest: Validate_wf split: sum.splits option.splits prod.splits if_splits)
  then show ?thesis using c(2) forms_ok_wf [of u n]
    by (simp add: startUi_def console_ok_def base_ok_def scan_inv_def scans_def quiet_def words_inv_def)
qed

section \<open>What an apply can still refuse\<close>

lemma validateCIDRs_wf: "\<forall>r \<in> set rs. wf_rule r \<Longrightarrow> validateCIDRs i seen rs = Some x \<Longrightarrow> \<exists>s. x = DuplicateCIDR s"
proof (induction i seen rs rule: validateCIDRs.induct)
  case (2 i seen r rs)
  then have "wf_rule r" by simp
  then obtain a network where p: "parseCIDR (trimSpace (CIDR r)) = Some (a, network)" "to4 a \<noteq> None"
    "trimSpace (CIDR r) = ipnetString network" "PPSThreshold r \<noteq> 0 \<or> \<not> f64_isZero (MbpsThreshold r)"
    "\<not> f64_negative (MbpsThreshold r)" "\<not> f64_isNaN (MbpsThreshold r)" "\<not> f64_isInf (MbpsThreshold r)"
    by (auto simp: wf_rule_def split: option.splits)
  with 2 show ?case by (auto split: if_splits)
qed simp

definition late_refusal :: "config_error \<Rightarrow> bool" where
  "late_refusal x \<longleftrightarrow> (case x of
     IfacesMustDiffer \<Rightarrow> True | FlowMaxTooSmall n \<Rightarrow> True | L1SizeNotPow2 n \<Rightarrow> True | BadSampleEvery n \<Rightarrow> True
   | BadMaxFlows n \<Rightarrow> True | TooManyCIDRs n \<Rightarrow> True | DuplicateCIDR s \<Rightarrow> True | _ \<Rightarrow> False)"

lemma validateHead_late:
  "staged_ok c \<Longrightarrow> TrustedIface c \<noteq> [] \<Longrightarrow> UntrustedIface c \<noteq> [] \<Longrightarrow> validateHead c = Some x \<Longrightarrow> late_refusal x"
  by (auto simp: validateHead_def staged_ok_def late_refusal_def split: if_splits)

lemma validateFlowMonitoring_late:
  "\<forall>r \<in> set (elems (CIDRs f)). wf_rule r \<Longrightarrow> validateFlowMonitoring f = (Some x, f') \<Longrightarrow> late_refusal x"
  using validateCIDRs_wf by (fastforce simp: validateFlowMonitoring_def Let_def late_refusal_def split: if_splits)

section \<open>The machine as a program\<close>

definition stepEvent :: "('h, 'e) console_env \<Rightarrow> event \<Rightarrow> ('h, 'e) ui \<Rightarrow> ('h, 'e) ui option" where
  "stepEvent env ev u =
     (if u_stopped u then None
      else (case ev of
        Form fe \<Rightarrow> (if u_modal u = None then Some (formEvent env fe u) else None)
      | Key k \<Rightarrow> Some (snd (keys (e_ctl env) k u))
      | Operate op \<Rightarrow> (if u_modal u = None then operate (e_machine env) op u else None)
      | Button i \<Rightarrow> Some (chooseButton (e_ctl env) i u)
      | Confirm s \<Rightarrow> Some (confirmWord s u)
      | Cancel \<Rightarrow> Some (cancelWord u)
      | Finish k \<Rightarrow> (if k < length (u_jobs u)
                    then runJob env (u_jobs u ! k) (u\<lparr>u_jobs := take k (u_jobs u) @ drop (Suc k) (u_jobs u)\<rparr>) else None)
      | Sample \<Rightarrow> Some (sampleTick (e_sample env) u)))"

lemma console_step_iff: "console_step env ev u u' \<longleftrightarrow> stepEvent env ev u = Some u'"
proof
  show "console_step env ev u u' \<Longrightarrow> stepEvent env ev u = Some u'"
    by (induction rule: console_step.induct) (simp_all add: stepEvent_def)
  show "stepEvent env ev u = Some u' \<Longrightarrow> console_step env ev u u'"
    by (cases ev) (auto simp: stepEvent_def intro: console_step.intros split: if_splits)
qed

fun runEvents :: "('h, 'e) console_env \<Rightarrow> event list \<Rightarrow> ('h, 'e) ui \<Rightarrow> ('h, 'e) ui option" where
  "runEvents env [] u = Some u"
| "runEvents env (ev # evs) u = (case stepEvent env ev u of None \<Rightarrow> None | Some u' \<Rightarrow> runEvents env evs u')"

lemma runEvents_run:
  assumes "console_run u0 hist u" "runEvents env evs u = Some u'"
  shows "console_run u0 (hist @ evs) u'"
  using assms
proof (induction evs arbitrary: u "hist")
  case (Cons ev evs)
  then obtain v where v: "stepEvent env ev u = Some v" "runEvents env evs v = Some u'" by (auto split: option.splits)
  from Cons.prems(1) v(1) have "console_run u0 (hist @ [ev]) v" by (auto simp: console_step_iff [symmetric] intro: console_run.more)
  from Cons.IH [OF this v(2)] show ?case by simp
qed simp

section \<open>Properties\<close>

text \<open>C27: 
  Whatever the user presses and however the background operations interleave, the links and pins of a data
  path change only after the word was typed: \<open>DETACH\<close> after a press of the detach button, or \<open>REATTACH\<close> after
  an apply, and then only when a background operation ended.
\<close>

theorem detaching_needs_the_word:
  assumes "ManageRun isroot terminal env w e path = Inr u0" and "console_run u0 evs u"
    and "h_links (w_hosts (u_world u) p) \<noteq> h_links (w_hosts w p) \<or> h_pins (w_hosts (u_world u) p) \<noteq> h_pins (w_hosts w p)"
  shows "finishedAfter (Operate OpDetach) (Confirm ''DETACH'') evs \<or> finishedAfter (Key KeyCtrlS) (Confirm ''REATTACH'') evs"
  using words.session [OF assms(2), of w] console_ok_start [OF assms(1)] assms(3) by (auto simp: same_links_def cut_granted_def)


text \<open>C26: 
  In every state of the console the base is a valid configuration, and in the staged one every server parses,
  every monitoring rule is well formed, no two rules have the same text, the modes are known and an empty interface
  is flagged; a pending reattachment has a valid configuration to go back to.
\<close>

theorem console_invariant:
  assumes "ManageRun isroot terminal env w e path = Inr u0" and "console_run u0 evs u"
  shows "\<exists>b c. Base (u_ctrl u) = Some b \<and> wf_config b \<and> Staged (u_ctrl u) = Some c \<and>
    (\<forall>s \<in> set (elems (ServerAllow c)). \<exists>a p. ParseHostPort s = Inr (a, p)) \<and>
    (\<forall>r \<in> set (elems (CIDRs (Flow_Monitoring c))). wf_rule r) \<and> distinct (map CIDR (elems (CIDRs (Flow_Monitoring c)))) \<and>
    Mode c \<in> {''monitor'', ''enforce''} \<and> XDPMode c \<in> {''native'', ''generic'', ''auto''} \<and>
    (u_validation u = [] \<longrightarrow> TrustedIface c \<noteq> [] \<and> UntrustedIface c \<noteq> []) \<and>
    (\<forall>p. JobReattach p \<in> set (u_jobs u) \<longrightarrow> (\<exists>c. p = Some c \<and> wf_config c))"
proof -
  have ok: "console_ok u" using consistent.session [OF assms(2)] console_ok_start [OF assms(1)] by blast
  then obtain b c where "Base (u_ctrl u) = Some b" "wf_config b" "Staged (u_ctrl u) = Some c" "staged_ok c" "flagged (u_validation u) c"
    by (auto simp: console_ok_def base_ok_def forms_ok_def)
  moreover have "\<exists>c. p = Some c \<and> wf_config c" if "JobReattach p \<in> set (u_jobs u)" for p
    using ok that by (fastforce simp: console_ok_def previous_ok_def split: option.splits)
  ultimately show ?thesis by (auto simp: staged_ok_def flagged_def)
qed

lemma Validate_late:
  assumes "staged_ok c" "TrustedIface c \<noteq> []" "UntrustedIface c \<noteq> []" "fst (Validate c) = Some x"
  shows "late_refusal x"
proof (cases "validateHead c")
  case (Some y)
  then show ?thesis using assms validateHead_late [OF assms(1-3)] by (simp add: Validate_def)
next
  case None
  let ?c1 = "if UDPFlowMax c < 1024 then c\<lparr>UDPFlowMax := push_bit 22 1\<rparr> else c"
  have s: "validateServers (elems (ServerAllow c)) = None" using assms(1) by (simp add: validateServers_None_iff staged_ok_def)
  have r: "\<forall>r \<in> set (elems (CIDRs (Flow_Monitoring c))). wf_rule r" using assms(1) by (simp add: staged_ok_def)
  obtain e2 c2 where l: "validateL1 ?c1 = (e2, c2)" by fastforce
  have c2: "ServerAllow c2 = ServerAllow c" "Flow_Monitoring c2 = Flow_Monitoring c"
    using l by (auto simp: validateL1_def Let_def split: if_splits)
  show ?thesis
  proof (cases e2)
    case (Some y)
    then have "late_refusal y" using l by (auto simp: validateL1_def Let_def late_refusal_def split: if_splits)
    then show ?thesis using assms(4) None l Some unfolding Validate_def by (simp add: Let_def)
  next
    case N: None
    let ?c3 = "if TTLUdp c2 = 0 then c2\<lparr>TTLUdp := 30\<rparr> else c2"
    have f: "Flow_Monitoring (normaliseRuntime ?c3) = Flow_Monitoring c" by (simp add: normaliseRuntime_def Let_def c2)
    obtain e4 f4 where v: "validateFlowMonitoring (Flow_Monitoring c) = (e4, f4)" by fastforce
    have "ServerAllow ?c3 = ServerAllow c" by (simp add: c2)
    then have "e4 = Some x" using assms(4) None l N s f v unfolding Validate_def by (simp add: Let_def)
    then show ?thesis using validateFlowMonitoring_late [OF r] v by blast
  qed
qed

lemma staged_ok_Clone: "staged_ok (Clone c) = staged_ok c"
  by (simp add: staged_ok_def Clone_def)

text \<open>C29: 
  With no field marked invalid, an apply can be refused as an invalid configuration only for one of seven reasons: equal
  interfaces, a flow table below 1024 entries, a level-1 size or a sampling rate that is no power of two (or too large),
  a size of the monitoring table out of range, more than 4096 rules, or two rules for the same network in different spelling.
\<close>

theorem apply_refusals:
  assumes "ManageRun isroot terminal env w e path = Inr u0" and "console_run u0 evs u" and "u_validation u = []"
    and "Apply env' (u_ctrl u) (u_world u) = (res, Some (CtlInvalid x), c', w')"
  shows "x = IfacesMustDiffer \<or> (\<exists>n. x = FlowMaxTooSmall n) \<or> (\<exists>n. x = L1SizeNotPow2 n) \<or> (\<exists>n. x = BadSampleEvery n) \<or>
    (\<exists>n. x = BadMaxFlows n) \<or> (\<exists>n. x = TooManyCIDRs n) \<or> (\<exists>s. x = DuplicateCIDR s)"
proof -
  have "console_ok u" using consistent.session [OF assms(2)] console_ok_start [OF assms(1)] by blast
  then obtain c where c: "Staged (u_ctrl u) = Some c" "staged_ok c" "flagged [] c"
    using assms(3) by (auto simp: console_ok_def forms_ok_def)
  have "late_refusal x"
    by (rule Validate_late [of "Clone c"]) (use c Apply_invalid [OF assms(4)] in \<open>simp_all add: staged_ok_Clone flagged_def\<close>, simp_all add: Clone_def)
  then show ?thesis by (auto simp: late_refusal_def split: config_error.splits)
qed

text \<open>At most one scan of the flows is under way, and exactly when the flag says so.\<close>

theorem one_flow_scan:
  assumes "ManageRun isroot terminal env w e path = Inr u0" and "console_run u0 evs u"
  shows "length (filter is_flows (u_jobs u)) = (if flowRefreshing u then 1 else 0)"
  using scanning.session [OF assms(2)] console_ok_start [OF assms(1)] by (simp add: scan_inv_def scans_def)

text \<open>
  The console never drops staged changes silently: a step that stops it while the staged configuration differs
  from the base is the answer to the question whether to discard them.
\<close>

theorem quit_asks:
  assumes "console_step env ev u u'" and "u_stopped u'" and "Dirty (u_ctrl u')"
  shows "ev = Button 0 \<and> u_modal u = Some AskQuit"
  using assms
proof (induction rule: console_step.induct)
  case (form u env ev)
  then show ?case using light_formEvent [of u env ev] by (simp add: light_def)
next
  case (key u env k)
  have "u_stopped (applyKey (e_ctl env) u) = u_stopped u"
    by (simp add: applyKey_def message_def Let_def case_prod_beta split: option.split)
  with key show ?case by (cases k) (auto simp: keys_def quitKey_def message_def requestFlowRefresh_def split: if_splits)
next
  case (operate u env op u')
  then show ?case by (cases op) (auto simp: operate_def typed_def runAsync_def message_def split: if_splits)
next
  case (button u env i)
  then show ?case
    by (auto simp: chooseButton_def typed_def runAsync_def message_def Let_def split: option.splits modal.splits if_splits)
next
  case (confirm u env s)
  then show ?case
    by (auto simp: confirmWord_def confirmed_def runAsync_def message_def split: option.splits modal.splits confirm.splits if_splits)
next
  case (cancel u env)
  then show ?case by (auto simp: cancelWord_def split: option.splits modal.splits)
next
  case (finish u k env u')
  then show ?case
    by (cases "u_jobs u ! k") (auto simp: runJob_def refreshFlows_def finished_def message_def Let_def
        split: prod.splits option.splits if_splits)
next
  case (sample u env)
  then show ?case by (simp add: sampleTick_frame)
qed

section \<open>Header, footer and focus\<close>

text \<open>The footer lists every invalid field once.\<close>

lemma sortedKeys_fields: "set (sortedKeys m) = dom (kget m)" "sorted (sortedKeys m)" "kmap_inv m \<Longrightarrow> distinct (sortedKeys m)"
  by (simp_all add: sortedKeys_def set_kkeys) (simp add: kmap_inv_def kkeys_def)

text \<open>
  Within a form the library moves the focus to the neighbour; with the links the eight elements form one ring,
  which Backtab walks in the other direction.
\<close>

definition inForm :: "tab_key \<Rightarrow> focus \<Rightarrow> focus" where
  "inForm k f = (let g = (\<lambda>i. if k = Tab then Suc i else i - 1) in case f of Engine i \<Rightarrow> Engine (g i) | Editor i \<Rightarrow> Editor (g i))"

definition moveFocus :: "tab_key \<Rightarrow> focus \<Rightarrow> focus" where
  "moveFocus k f = (case linkFlowMonitorForms k f of Some g \<Rightarrow> g | None \<Rightarrow> inForm k f)"

lemma focus_ring:
  "map (\<lambda>n. (moveFocus Tab ^^ n) (Engine 0)) [0..<9] =
     [Engine 0, Engine 1, Engine 2, Editor 0, Editor 1, Editor 2, Editor 3, Editor 4, Engine 0]"
  "map (\<lambda>n. moveFocus Backtab ((moveFocus Tab ^^ Suc n) (Engine 0))) [0..<8] = map (\<lambda>n. (moveFocus Tab ^^ n) (Engine 0)) [0..<8]"
  by code_simp+

section \<open>Limits of the editors\<close>

text \<open>
  The letters \<open>q\<close> and \<open>?\<close> are taken by the whole application whatever has the focus, so that no
  text field ever sees them: a name such as \<open>eqn0\<close> cannot be typed.
\<close>

lemma swallowed_keys: "fst (keys env (KeyRune c) u) \<longleftrightarrow> c \<noteq> CHR ''q'' \<and> c \<noteq> CHR ''?''"
  by (simp add: keys_def)

text \<open>
  The editor compares the text of a rule, validation the trimmed text: next to a rule that was loaded as
  \<open> 10.0.0.0/24\<close> with a space, the editor takes \<open>10.0.0.0/24\<close> and every later apply is refused.
\<close>

lemma spaced_duplicate:
  "replaceLoop ''10.0.0.0/24'' 0 [\<lparr>CIDR = '' 10.0.0.0/24'', PPSThreshold = 1, MbpsThreshold = 0\<rparr>] (-1) = Some (-1)"
  "validateCIDRs 0 [] [\<lparr>CIDR = '' 10.0.0.0/24'', PPSThreshold = 1, MbpsThreshold = 0\<rparr>] = None"
  "validateCIDRs 0 [] [\<lparr>CIDR = '' 10.0.0.0/24'', PPSThreshold = 1, MbpsThreshold = 0\<rparr>,
     \<lparr>CIDR = ''10.0.0.0/24'', PPSThreshold = 2, MbpsThreshold = 0\<rparr>] = Some (DuplicateCIDR ''10.0.0.0/24'')"
  by code_simp+

section \<open>A sample session\<close>

definition console_sample :: "(string, (string, string) kmap) console_env" where
  "console_sample = \<lparr>e_ctl = apply_env, e_machine = box, e_parseFloat = (\<lambda>s. Some 0), e_formatFloat = (\<lambda>v. ''0''),
     e_sample = \<lparr>t_service = None, t_calls = \<lparr>c_ncpu = 1, c_global_ok = True, c_reason_ok = (\<lambda>r. True), c_vlan_ok = (\<lambda>v. True), c_now = 0\<rparr>,
       t_policy_ok = True, t_runtime_ok = True, t_now = 0, t_fmt = (\<lambda>n v. ''0''), t_dec = (\<lambda>s. None)\<rparr>,
     e_clockTCP = Some (0, 0), e_clockUDP = Some (0, 0), e_badTCP = False, e_badUDP = False\<rparr>"

definition console_start :: "(string, (string, string) kmap) ui" where
  "console_start = startUi \<lparr>CtlPath = ''/c'', Base = Some (sample_cfg ''enforce''), Staged = Some (sample_cfg ''enforce''),
     activePinDir = PinDir (sample_cfg ''enforce''), ctlHash = Some (rev ''enforce'')\<rparr> apply_world []"

lemma console_start_run: "ManageRun True True apply_env apply_world [] ''/c'' = Inr console_start"
proof -
  have v: "Validate (sample_cfg ''enforce'') = (None, sample_cfg ''enforce'')" by code_simp
  have c: "Clone (sample_cfg ''enforce'') = sample_cfg ''enforce''" by (simp add: sample_cfg_def)
  show ?thesis
    by (simp add: ManageRun_def NewController_def Reload_def Load_def apply_env_def apply_world_def fileHash_def v c console_start_def)
qed

lemma session_run: "case runEvents console_sample evs console_start of None \<Rightarrow> False | Some u \<Rightarrow> P u \<Longrightarrow> \<exists>u. console_run console_start evs u \<and> P u"
  using runEvents_run [OF console_run.start, of console_sample evs console_start] by (auto split: option.splits)

definition detach_session :: "event list" where
  "detach_session = [Operate OpDetach, Confirm ''DETACH'', Finish 0]"

theorem detaching_needs_the_word_witness:
  "\<exists>u. console_run console_start detach_session u \<and> h_pins (w_hosts (u_world u) DefaultPinDir) ''flows'' = None \<and>
     finishedAfter (Operate OpDetach) (Confirm ''DETACH'') detach_session"
proof -
  have "case runEvents console_sample detach_session console_start of None \<Rightarrow> False
      | Some u \<Rightarrow> h_pins (w_hosts (u_world u) DefaultPinDir) ''flows'' = None" by code_simp
  from session_run [OF this] obtain u where u: "console_run console_start detach_session u"
    "h_pins (w_hosts (u_world u) DefaultPinDir) ''flows'' = None" by blast
  have "h_pins (w_hosts apply_world DefaultPinDir) ''flows'' \<noteq> None" by (simp add: apply_world_def)
  with u(2) have "h_pins (w_hosts (u_world u) DefaultPinDir) \<noteq> h_pins (w_hosts apply_world DefaultPinDir)" by metis
  moreover have "Key KeyCtrlS \<notin> set detach_session" by (simp add: detach_session_def)
  then have "\<not> finishedAfter (Key KeyCtrlS) x detach_session" for x unfolding finishedAfter_def by (metis Un_iff set_append)
  ultimately show ?thesis using detaching_needs_the_word [OF console_start_run u(1)] u by blast
qed

definition edit_session :: "event list" where
  "edit_session = [Form (PickMode 0), Form (AllowText ''10.0.0.7:443''), Form AllowSave, Form (RuleCIDR ''10.0.0.0/24''), Form (RulePPS ''7''),
     Form RuleSave, Form (EditU32 FFlowMax ''12''), Form FlowRefresh]"

lemma edit_session_run:
  "\<exists>u. console_run console_start edit_session u \<and> (Mode (staged u) = ''monitor'' \<and> last (elems (ServerAllow (staged u))) = ''10.0.0.7:443'' \<and>
     map CIDR (elems (CIDRs (Flow_Monitoring (staged u)))) = [''10.0.0.0/24''] \<and> u_validation u = [] \<and> flowRefreshing u \<and>
     fst (snd (Apply apply_env (u_ctrl u) (u_world u))) = Some (CtlInvalid (FlowMaxTooSmall 12)))"
  by (rule session_run) code_simp


theorem console_invariant_witness:
  "\<exists>u c. console_run console_start edit_session u \<and> Staged (u_ctrl u) = Some c \<and> last (elems (ServerAllow c)) = ''10.0.0.7:443'' \<and>
     (\<forall>s \<in> set (elems (ServerAllow c)). \<exists>a p. ParseHostPort s = Inr (a, p)) \<and> (\<forall>r \<in> set (elems (CIDRs (Flow_Monitoring c))). wf_rule r)"
proof -
  obtain u where u: "console_run console_start edit_session u" "last (elems (ServerAllow (staged u))) = ''10.0.0.7:443''"
    using edit_session_run by blast
  from console_invariant [OF console_start_run u(1)] u show ?thesis by force
qed

theorem apply_refusals_witness:
  "\<exists>u res x c' w'. console_run console_start edit_session u \<and> Apply apply_env (u_ctrl u) (u_world u) = (res, Some (CtlInvalid x), c', w') \<and>
     x = FlowMaxTooSmall 12"
proof -
  obtain u where u: "console_run console_start edit_session u" "u_validation u = []"
    "fst (snd (Apply apply_env (u_ctrl u) (u_world u))) = Some (CtlInvalid (FlowMaxTooSmall 12))" using edit_session_run by blast
  then obtain res c' w' where a: "Apply apply_env (u_ctrl u) (u_world u) = (res, Some (CtlInvalid (FlowMaxTooSmall 12)), c', w')"
    by (metis prod.collapse)
  from apply_refusals [OF console_start_run u(1,2) a] u(1) a show ?thesis by blast
qed

theorem one_flow_scan_witness:
  "\<exists>u. console_run console_start edit_session u \<and> length (filter is_flows (u_jobs u)) = 1"
proof -
  obtain u where u: "console_run console_start edit_session u" "flowRefreshing u" using edit_session_run by blast
  with one_flow_scan [OF console_start_run u(1)] show ?thesis by auto
qed

definition quit_session :: "event list" where
  "quit_session = [Form (PickMode 0), Key (KeyRune CHR ''q'')]"

theorem quit_asks_witness:
  "\<exists>u u'. console_step console_sample (Button 0) u u' \<and> u_stopped u' \<and> Dirty (u_ctrl u') \<and> u_modal u = Some AskQuit"
proof -
  have "case runEvents console_sample quit_session console_start of None \<Rightarrow> False
      | Some u \<Rightarrow> (case stepEvent console_sample (Button 0) u of None \<Rightarrow> False | Some u' \<Rightarrow> u_stopped u' \<and> Dirty (u_ctrl u'))" by code_simp
  from session_run [OF this] obtain u u' where "stepEvent console_sample (Button 0) u = Some u'" "u_stopped u'" "Dirty (u_ctrl u')"
    by (auto split: option.splits)
  then show ?thesis using quit_asks [of console_sample "Button 0" u u'] unfolding console_step_iff by blast
qed

end
