(* ===== verification/Command.thy ===== *)
theory Command
  imports Cli Daemon Console_Props
begin

text \<open>
  The command line of \<open>cmd/xdpfilter/main.go\<close> as a whole: the dispatch of \<open>main\<close> with its exit
  codes, the commands that hand over to the wizard, the console, the tuner and \<open>systemctl\<close>, the status page,
  and the main loop of the daemon from its start to its shutdown. The texts of the usage and of
  the messages are left out.
\<close>

section \<open>Dispatch\<close>

text \<open>
  A command line is parsed into a command with its options. The two integer flags of \<open>flows\<close> are parsed
  by the standard library and left as arguments.
\<close>

datatype command =
    CmdUsage
  | CmdVersion
  | CmdBadFlags int
  | CmdSetup string
  | CmdRunSvc
  | CmdDaemon string
  | CmdReload
  | CmdStatus bool string
  | CmdMode "string list"
  | CmdFlows "string list"
  | CmdManage string
  | CmdTune bool string
  | CmdCheck string
  | CmdStop "string list"

definition withFlags :: "(string \<rightharpoonup> flag_kind) \<Rightarrow> string list \<Rightarrow> ((string \<rightharpoonup> string) \<Rightarrow> command) \<Rightarrow> command" where
  "withFlags spec args k = (case parseFlags spec Map.empty args of Exit n \<Rightarrow> CmdBadFlags n | Parsed vals rest \<Rightarrow> k vals)"

definition configOnly :: "string \<rightharpoonup> flag_kind" where
  "configOnly = [''config'' \<mapsto> StringFlag]"

definition dispatch :: "string list \<Rightarrow> command" where
  "dispatch argv =
     (case argv of
        [] \<Rightarrow> CmdUsage
      | name # args \<Rightarrow>
          (if name = ''setup'' then withFlags configOnly args (\<lambda>v. CmdSetup (configPath v))
           else if name = ''run'' then CmdRunSvc
           else if name = ''daemon'' then withFlags configOnly args (\<lambda>v. CmdDaemon (configPath v))
           else if name = ''reload'' then CmdReload
           else if name = ''status'' then withFlags (configOnly(''watch'' \<mapsto> BoolFlag)) args (\<lambda>v. CmdStatus (isSet ''watch'' v) (configPath v))
           else if name = ''mode'' then CmdMode args
           else if name = ''flows'' then CmdFlows args
           else if name = ''manage'' then withFlags configOnly args (\<lambda>v. CmdManage (configPath v))
           else if name = ''tune'' then withFlags (configOnly(''dry-run'' \<mapsto> BoolFlag)) args (\<lambda>v. CmdTune (isSet ''dry-run'' v) (configPath v))
           else if name = ''check'' then withFlags configOnly args (\<lambda>v. CmdCheck (configPath v))
           else if name = ''stop'' then CmdStop args
           else if name \<in> set [''version'', ''-v'', ''--version''] then CmdVersion
           else CmdUsage))"

text \<open>The exit code of the process: \<open>failed\<close> says whether the command returned an error, which is fatal.\<close>

definition exitCode :: "command \<Rightarrow> bool \<Rightarrow> int" where
  "exitCode c failed = (case c of CmdUsage \<Rightarrow> 2 | CmdBadFlags n \<Rightarrow> n | CmdVersion \<Rightarrow> 0 | _ \<Rightarrow> if failed then 1 else 0)"

section \<open>Commands that hand over\<close>

definition cmdManage :: "bool \<Rightarrow> bool \<Rightarrow> 'h ctl_env \<Rightarrow> world \<Rightarrow> 'e \<Rightarrow> string \<Rightarrow> console_error + ('h, 'e) ui" where
  "cmdManage isroot terminal env w e path = ManageRun isroot terminal env w e path"

definition Exists :: "fsys \<Rightarrow> string \<Rightarrow> bool" where
  "Exists fs path \<longleftrightarrow> fs path \<noteq> None"

text \<open>\<open>cmdSetup\<close> only warns of an existing file: the flag is the warning.\<close>

definition cmdSetup :: "'e wizard_env \<Rightarrow> string \<Rightarrow> input \<Rightarrow> fsys \<Rightarrow> bool \<times> (wizard_error option \<times> string list list \<times> fsys) option" where
  "cmdSetup z path i fs = (Exists fs path, WizardRun z path i fs)"

text \<open>The commands run through \<open>runCmd\<close>, and whether the command failed.\<close>

definition cmdRunSvc :: "(string list \<Rightarrow> bool) \<Rightarrow> string list list \<times> bool" where
  "cmdRunSvc ok =
     (let start = [''systemctl'', ''start'', ''xdpfilter''] in ([[''systemctl'', ''daemon-reload''], start], \<not> ok start))"

definition cmdReload :: "(string list \<Rightarrow> bool) \<Rightarrow> string list list \<times> bool" where
  "cmdReload ok = (let c = [''systemctl'', ''reload'', ''xdpfilter''] in ([c], \<not> ok c))"

definition cmdTune :: "'e machine \<Rightarrow> (string \<Rightarrow> Config \<Rightarrow> Config option) \<Rightarrow> fsys \<Rightarrow> bool \<Rightarrow> string \<Rightarrow> 'e \<Rightarrow> (config_error + 'e tuner) option" where
  "cmdTune m unm fs dry path e =
     (case Load unm fs path of
        Inl err \<Rightarrow> Some (Inl err)
      | Inr cfg \<Rightarrow> map_option Inr (TunerApply m cfg dry (newTuner e)))"

text \<open>
  \<open>cmdStatus\<close>: the ports in the title (\<open>None\<close> is the question mark) and the page. With \<open>--watch\<close> the page is
  drawn again every two seconds until the process is interrupted: \<open>calls\<close> are the answers of the kernel to
  each page drawn, of which there is one without the flag.
\<close>

definition statusPorts :: "config_error + Config \<Rightarrow> (string \<times> string) option" where
  "statusPorts cfg = (case cfg of Inl _ \<Rightarrow> None | Inr c \<Rightarrow> Some (TrustedIface c, UntrustedIface c))"

definition cmdStatus :: "(string \<Rightarrow> Config \<Rightarrow> Config option) \<Rightarrow> bool \<Rightarrow> (collect_calls \<times> bool) list \<Rightarrow> u32 \<Rightarrow> u32 \<Rightarrow> string \<Rightarrow> world
    \<Rightarrow> load_error + (string \<times> string) option \<times> stats_report list" where
  "cmdStatus unm watch calls tcpMax udpMax path w =
     (let cfg = Load unm (w_fs w) path; h = w_hosts w (pinDirOf unm (w_fs w) path) in
      case OpenPinned h of
        Some e \<Rightarrow> Inl e
      | None \<Rightarrow> Inr (statusPorts cfg,
          map (\<lambda>(env, ok). PrintStatus env ok (0, uint (tcpMax + udpMax)) (h_dp h)) (if watch then calls else take 1 calls)))"

definition cond :: "bool \<Rightarrow> string \<Rightarrow> string \<Rightarrow> string" where
  "cond b a c = (if b then a else c)"

section \<open>The daemon from start to shutdown\<close>

text \<open>The datagram of \<open>sdNotify\<close> with the address it goes to, if the service manager asked for it.\<close>

definition sdNotify :: "string option \<Rightarrow> string \<Rightarrow> (string \<times> string) option" where
  "sdNotify sock state = (case sock of
     None \<Rightarrow> None
   | Some s \<Rightarrow> (if s = [] then None else Some (if hd s = CHR ''@'' then CHR 0x00 # tl s else s, state)))"

text \<open>\<open>loop\<close>: once at the start and then at every tick that comes before the end of the context.\<close>

fun loopTicks :: "nat \<Rightarrow> ('a \<Rightarrow> 'a) \<Rightarrow> 'a \<Rightarrow> 'a" where
  "loopTicks 0 f s = f s"
| "loopTicks (Suc n) f s = f (loopTicks n f s)"

datatype worker = GCWorker | StatsWorker | AlertWorker | WatchdogWorker

definition spawned :: "Config \<Rightarrow> string \<Rightarrow> (worker \<times> int) list" where
  "spawned cfg usec =
     [(GCWorker, workerPeriod (GCInterval cfg)), (StatsWorker, workerPeriod (StatsInterval cfg)), (AlertWorker, loopPeriod 1000000000)] @
     (if watchdogInterval usec > 0 then [(WatchdogWorker, loopPeriod (watchdogInterval usec))] else [])"

text \<open>
  What the main goroutine sees and the turns of the collector in between. The statistics and the alerts read
  the maps and write files of their own.
\<close>

datatype turn = Hangup reload_env | FileChanged reload_env | Collected gc_env | Terminate | Interrupt

text \<open>\<open>None\<close>: the daemon is still running when the turns end.\<close>

fun serveLoop :: "turn list \<Rightarrow> daemon \<Rightarrow> daemon option" where
  "serveLoop [] st = None"
| "serveLoop (Hangup env # ts) st = serveLoop ts (snd (snd (reload env st)))"
| "serveLoop (FileChanged env # ts) st = serveLoop ts (snd (snd (reload env st)))"
| "serveLoop (Collected env # ts) st = serveLoop ts (gcTick env st)"
| "serveLoop (Terminate # ts) st = Some st"
| "serveLoop (Interrupt # ts) st = Some st"

datatype session = NotStarted start_error host | Running | Ended daemon "(string \<times> string) list"

definition cmdDaemon :: "(string \<Rightarrow> Config \<Rightarrow> Config option) \<Rightarrow> fsys \<Rightarrow> string \<Rightarrow> bool \<Rightarrow> sysenv \<Rightarrow> string option \<Rightarrow> turn list \<Rightarrow> host \<Rightarrow> session" where
  "cmdDaemon unm fs path is_root env sock ts h =
     (case startDaemon unm fs path is_root env h of
        (Inl e, h') \<Rightarrow> NotStarted e h'
      | (Inr st, _) \<Rightarrow>
          (case serveLoop ts st of
             None \<Rightarrow> Running
           | Some st' \<Rightarrow> Ended st' (List.map_filter (sdNotify sock) [''READY=1'', ''STOPPING=1''])))"

section \<open>Properties\<close>

lemma serveLoop_ends: "serveLoop ts st \<noteq> None \<longleftrightarrow> Terminate \<in> set ts \<or> Interrupt \<in> set ts"
  by (induction ts st rule: serveLoop.induct) auto

definition attached_as :: "host \<Rightarrow> host \<Rightarrow> bool" where
  "attached_as h h' \<longleftrightarrow> h_links h' = h_links h \<and> h_pins h' = h_pins h"

lemma reload_attached: "attached_as (d_host st) (d_host (snd (snd (reload env st))))"
  by (simp add: reload_def attached_as_def Let_def split: sum.split prod.split)

lemma gcTick_attached: "attached_as (d_host st) (d_host (gcTick env st))"
  by (simp add: gcTick_def PublishRuntimeState_def attached_as_def Let_def split: prod.split)

lemma serveLoop_attached: "serveLoop ts st = Some st' \<Longrightarrow> attached_as (d_host st) (d_host st')"
  using reload_attached gcTick_attached
  by (induction ts st rule: serveLoop.induct) (auto simp: attached_as_def)


definition sample_turns :: "turn list" where
  "sample_turns = [Collected gc_pass, Hangup good_reload, Terminate, Collected gc_pass]"


text \<open>The service manager hears of the start and of the end, in this order, through the socket it named.\<close>

lemma notified:
  "cmdDaemon unm fs path is_root env (Some (c # s)) ts h = Ended st ns \<Longrightarrow> map snd ns = [''READY=1'', ''STOPPING=1''] \<and>
     (\<forall>n \<in> set ns. fst n = (if c = CHR ''@'' then CHR 0x00 else c) # s)"
  by (auto simp: cmdDaemon_def sdNotify_def map_filter_def split: prod.splits sum.splits option.splits)

text \<open>A worker runs at once and then at every tick.\<close>

lemma loopTicks_funpow: "loopTicks n f s = (f ^^ Suc n) s"
  by (induction n) simp_all

lemma spawned_positive: "(x, d) \<in> set (spawned cfg usec) \<Longrightarrow> 0 < d"
  by (auto simp: spawned_def workerPeriod_def loopPeriod_def split: if_splits)

text \<open>Only an unknown command ends with the usage, and only a help flag ends a bad command line well.\<close>

lemma dispatch_usage: "dispatch (name # args) = CmdUsage \<longleftrightarrow> name \<notin> set [''setup'', ''run'', ''daemon'', ''reload'', ''status'',
    ''mode'', ''flows'', ''manage'', ''tune'', ''check'', ''stop'', ''version'', ''-v'', ''--version'']"
  by (simp add: dispatch_def withFlags_def split: flag_result.split)

lemma exitCode_usage: "exitCode (dispatch (name # args)) b = 2 \<Longrightarrow> dispatch (name # args) = CmdUsage \<or> dispatch (name # args) = CmdBadFlags 2"
  by (auto simp: exitCode_def split: command.splits if_splits)

end
