(* ===== verification/Abi.thy ===== *)
theory Abi
  imports Dataplane_Props Stats Watch
begin

text \<open>
  The binary interface between the Go structures of \<open>internal/dataplane/loader.go\<close> and \<open>internal/stats/stats.go\<close>
  and the C structures of \<open>bpf/filter.h\<close> that they mirror. Go writes the fields of a structure one after the
  other in little-endian order with its explicit padding; C places every field at the next multiple of its size. The
  other theories pass these structures as records; here the bytes in between are shown to be the same.
\<close>

section \<open>Layout\<close>

definition mem64 :: "u64 \<Rightarrow> bytes" where
  "mem64 x = map (\<lambda>i. ucast (drop_bit (8 * i) x)) [0..<8]"

definition ld64 :: "bytes \<Rightarrow> nat \<Rightarrow> u64" where
  "ld64 b i = ucast (ld32 b i) OR push_bit 32 (ucast (ld32 b (i + 4)))"

text \<open>The offsets of fields with the given sizes, and the size of the structure, by the rules of C.\<close>

definition alignUp :: "nat \<Rightarrow> nat \<Rightarrow> nat" where
  "alignUp a off = (off + a - 1) div a * a"

fun fieldOffsets :: "nat \<Rightarrow> nat list \<Rightarrow> nat list" where
  "fieldOffsets off [] = []"
| "fieldOffsets off (n # ns) = (let o' = alignUp n off in o' # fieldOffsets (o' + n) ns)"

definition structSize :: "nat list \<Rightarrow> nat" where
  "structSize ns = alignUp (fold max ns 1) (last (fieldOffsets 0 ns) + last ns)"

section \<open>The policy\<close>

definition featuresBytes :: "feature_set \<Rightarrow> bytes" where
  "featuresBytes f =
     [mode f, oos_out_strict f, allow_inbound_servers f, drop_frags f, drop_bad_flags f, filter_udp f, drop_vlan_deep f,
      drop_udp_frags f, reject_with_rst f, allow_inbound_syn f] @ [0, 0] @
     mem32 (ttl_syn f) @ mem32 (ttl_est f) @ mem32 (ttl_closing f) @ mem32 (ttl_udp f)"

definition featureSizes :: "nat list" where
  "featureSizes = [1, 1, 1, 1, 1, 1, 1, 1, 1, 1, 4, 4, 4, 4]"

definition features_at :: "bytes \<Rightarrow> feature_set" where
  "features_at b = (let o' = fieldOffsets 0 featureSizes in
     \<lparr>mode = byteAt b (o' ! 0), oos_out_strict = byteAt b (o' ! 1), allow_inbound_servers = byteAt b (o' ! 2),
      drop_frags = byteAt b (o' ! 3), drop_bad_flags = byteAt b (o' ! 4), filter_udp = byteAt b (o' ! 5),
      drop_vlan_deep = byteAt b (o' ! 6), drop_udp_frags = byteAt b (o' ! 7), reject_with_rst = byteAt b (o' ! 8),
      allow_inbound_syn = byteAt b (o' ! 9), ttl_syn = ld32 b (o' ! 10), ttl_est = ld32 b (o' ! 11),
      ttl_closing = ld32 b (o' ! 12), ttl_udp = ld32 b (o' ! 13)\<rparr>)"

section \<open>The counters\<close>

text \<open>The kernel's bytes of the two counter structures, and what the Go structures read from them in field order.\<close>

definition counterSizes :: "nat \<Rightarrow> nat list" where
  "counterSizes n = replicate n 8"

definition statsBytes :: "stats_global \<Rightarrow> bytes" where
  "statsBytes s = mem64 (rx_pkts s) @ mem64 (rx_bytes s) @ mem64 (redir_pkts s) @ mem64 (redir_bytes s) @ mem64 (drop_pkts s) @
     mem64 (drop_bytes s) @ mem64 (nonip_pkts s) @ mem64 (nonip_bytes s) @ mem64 (nontcp_pkts s) @ mem64 (nontcp_bytes s) @
     mem64 (l1_hits s) @ mem64 (rst_pkts s) @ mem64 (rst_bytes s)"

definition statsGlobalValue :: "bytes \<Rightarrow> stats_global" where
  "statsGlobalValue b = (let f = (\<lambda>k. ld64 b (8 * k)) in
     \<lparr>rx_pkts = f 0, rx_bytes = f 1, redir_pkts = f 2, redir_bytes = f 3, drop_pkts = f 4, drop_bytes = f 5, nonip_pkts = f 6,
      nonip_bytes = f 7, nontcp_pkts = f 8, nontcp_bytes = f 9, l1_hits = f 10, rst_pkts = f 11, rst_bytes = f 12\<rparr>)"

definition vlanBytes :: "vlan_stat \<Rightarrow> bytes" where
  "vlanBytes v = mem64 (vs_pkts v) @ mem64 (vs_bytes v) @ mem64 (vs_drops v)"

definition vlanStatValue :: "bytes \<Rightarrow> vlan_stat" where
  "vlanStatValue b = \<lparr>vs_pkts = ld64 b 0, vs_bytes = ld64 b 8, vs_drops = ld64 b 16\<rparr>"

section \<open>Facts\<close>

lemma length_mem64 [simp]: "length (mem64 x) = 8" by (simp add: mem64_def)

lemma mem64_mem32: "mem64 x = mem32 (ucast x) @ mem32 (ucast (drop_bit 32 x))"
proof -
  have "ucast (ucast y :: u32) = (ucast y :: u8)" for y :: u64 by (rule bit_word_eqI) (simp add: bit_simps)
  moreover have "ucast (drop_bit k (ucast y :: u32)) = (ucast (drop_bit k y) :: u8)" if "k \<le> 24" for k and y :: u64
    by (rule bit_word_eqI) (use that in \<open>auto simp: bit_simps\<close>)
  moreover have "[0..<8] = [0, 1, 2, 3, 4, 5, 6, 7 :: nat]" by (simp add: upt_rec)
  ultimately show ?thesis by (simp add: mem64_def mem32_def drop_bit_drop_bit)
qed

lemma join64: "ucast (ucast x :: u32) OR push_bit 32 (ucast (ucast (drop_bit 32 x) :: u32)) = (x :: u64)"
  by (rule bit_word_eqI) (auto simp: bit_simps)

lemma ld64_at: "ld64 (xs @ mem64 x @ ys) (length xs) = x"
proof -
  have "ld32 (xs @ mem64 x @ ys) (length xs) = ucast x"
    using ld32_mem32 [of xs "ucast x" "mem32 (ucast (drop_bit 32 x)) @ ys"] by (simp add: mem64_mem32)
  moreover have "ld32 (xs @ mem64 x @ ys) (length xs + 4) = ucast (drop_bit 32 x)"
    using ld32_mem32 [of "xs @ mem32 (ucast x)" "ucast (drop_bit 32 x)" ys] by (simp add: mem64_mem32)
  ultimately show ?thesis by (simp add: ld64_def join64)
qed

lemma feature_offsets: "fieldOffsets 0 featureSizes = [0, 1, 2, 3, 4, 5, 6, 7, 8, 9, 12, 16, 20, 24]"
  by code_simp

text \<open>The fields of the counter structures follow each other without padding.\<close>

lemma counter_offsets: "fieldOffsets 0 (counterSizes 13) = map (\<lambda>k. 8 * k) [0..<13]" "fieldOffsets 0 (counterSizes 3) = map (\<lambda>k. 8 * k) [0..<3]"
  by code_simp+

text \<open>C10: 
  The bytes the loader writes for a policy are the structure the data path reads: 28 bytes, and every field
  at its place.
\<close>

theorem features_abi: "features_at (featuresBytes f) = f \<and> length (featuresBytes f) = structSize featureSizes"
proof -
  have t: "ld32 (featuresBytes f) 12 = ttl_syn f" "ld32 (featuresBytes f) 16 = ttl_est f" "ld32 (featuresBytes f) 20 = ttl_closing f"
    "ld32 (featuresBytes f) 24 = ttl_udp f"
    by (simp_all add: featuresBytes_def ld32_def mem32_def byteAt_def join32)
  have "structSize featureSizes = 28" by code_simp
  then show ?thesis
    by (simp add: features_at_def feature_offsets t) (simp add: featuresBytes_def byteAt_def mem32_def)
qed

text \<open>The counters the statistics read are those the data path counted, for the totals and for every VLAN.\<close>

theorem stats_abi: "statsGlobalValue (statsBytes s) = s \<and> vlanStatValue (vlanBytes v) = v"
proof -
  have l: "ld64 (concat (map mem64 xs)) (8 * k) = xs ! k" if "k < length xs" for k xs
  proof -
    have "concat (map mem64 xs) = concat (map mem64 (take k xs)) @ mem64 (xs ! k) @ concat (map mem64 (drop (Suc k) xs))"
      using id_take_nth_drop [OF that] by (metis concat.simps(2) concat_append list.simps(9) map_append)
    moreover have "length (concat (map mem64 (take k xs))) = 8 * k"
      using that by (simp add: length_concat comp_def sum_list_triv)
    ultimately show ?thesis using ld64_at by metis
  qed
  let ?xs = "[rx_pkts s, rx_bytes s, redir_pkts s, redir_bytes s, drop_pkts s, drop_bytes s, nonip_pkts s, nonip_bytes s,
    nontcp_pkts s, nontcp_bytes s, l1_hits s, rst_pkts s, rst_bytes s]"
  have s: "statsBytes s = concat (map mem64 ?xs)" by (simp add: statsBytes_def)
  have v: "vlanBytes v = concat (map mem64 [vs_pkts v, vs_bytes v, vs_drops v])" by (simp add: vlanBytes_def)
  have "statsGlobalValue (statsBytes s) = s"
    unfolding s statsGlobalValue_def Let_def by (subst l, simp)+ simp
  moreover have "vlanStatValue (vlanBytes v) = v"
    unfolding v vlanStatValue_def using l [of 0 "[vs_pkts v, vs_bytes v, vs_drops v]"] l [of 1 "[vs_pkts v, vs_bytes v, vs_drops v]"]
      l [of 2 "[vs_pkts v, vs_bytes v, vs_drops v]"] by (simp del: list.map concat.simps)
  ultimately show ?thesis by blast
qed

end
