(* ===== verification/Spec2Isabelle.thy ===== *)
theory Spec2Isabelle
  imports Resources Bpf_Policy Dataplane_Props Gc_Flows Flow_Monitor Stats Wizard Controller Daemon Watch Cli Console_Props Command Abi
begin

text \<open>
  xdpfilter is a transparent packet filter between a trusted and an untrusted port. An XDP program
  (\<^verbatim>\<open>src/bpf\<close>) redirects frames between the ports, tracks TCP and UDP flows in shared kernel maps and drops
  inbound packets that answer nothing. One Go binary (\<^verbatim>\<open>src/cmd\<close>, \<^verbatim>\<open>src/internal\<close>) loads and attaches it,
  keeps policy, allowlist and monitored networks in step with a YAML file, collects expired flows, publishes
  statistics and alerts, tunes the host, and offers a setup dialogue, commands and an operations console.
  This development models these parts as functions and step relations and proves what makes each of them correct.

  \<^bold>\<open>How the parts interact.\<close> The data path reads the policy, allowlist and network maps that the loader writes and
  writes the flow, counter and statistics maps that the collector, the flow browser, the statistics and the alerts
  read. The daemon runs the loader once, then the workers and the configuration watch, and reloads on a signal or
  an edit. The console and the commands reach a running instance through the maps pinned under its pin directory,
  through the configuration file and through \<^verbatim>\<open>systemctl\<close>.

  \<^bold>\<open>Shared layers.\<close>
  \<^item> \<open>Xdp_Prelude\<close>: machine words, Go slices with nil, the collections of simp rules.
  \<^item> \<open>Go_Std\<close>, \<open>Go_Net\<close>, \<open>Go_Float\<close>: the standard library as the program uses it (\<^verbatim>\<open>strings\<close>, \<^verbatim>\<open>strconv\<close>, \<^verbatim>\<open>net\<close>,
    \<^verbatim>\<open>path/filepath\<close>, float64 with rounding), with printing and parsing as inverses and error bounds for chains of float
    operations.
  \<^item> \<open>Kmap\<close>: kernel maps. The locale \<open>bounded_map\<close> is the contract of a map of limited size; reconciling a map with
    a wanted set of keys is verified once there and interpreted for the hash map of the model.

  \<^bold>\<open>Data path\<close> (\<^verbatim>\<open>bpf/filter.h\<close>, \<^verbatim>\<open>bpf/filter.bpf.c\<close>).
  \<^item> \<open>Bpf_Filter\<close>: the maps as the record \<open>dp\<close>, every helper and handler, and \<open>xdp_filter\<close> on the bytes of a frame.
  \<^item> \<open>Bpf_Class\<close>: the abstract filter that classifies frames; the program refines it.
  \<^item> \<open>Bpf_Safety\<close>: runs as sequences of packets, sweeps and control updates. The locale \<open>reply_filter\<close> says
    when a stateful filter forwards nothing but replies; it is interpreted for TCP, for UDP and for the initial sequence
    numbers a SYN-ACK has to acknowledge.
  \<^item> \<open>Bpf_Policy\<close>: monitor mode, expiry, token buckets, resets; \<open>Bpf_Frame\<close>: what a packet cannot change;
    \<open>Bpf_Account\<close>: the counters balance.

  \<^bold>\<open>Control plane.\<close>
  \<^item> \<open>Config\<close> and \<open>Resources\<close> (\<^verbatim>\<open>internal/config\<close>): validation establishes \<open>wf_config\<close>, saving is atomic and round-trips,
    changes are classified completely, the recommended sizes are valid.
  \<^item> \<open>Dataplane\<close>, \<open>Dataplane_Props\<close> (\<^verbatim>\<open>loader.go\<close>): adoption of pinned maps, attachment after policy, live reload, the
    allowlist from the file to the lookup of the data path. \<open>Abi\<close>: the Go and C structures have the same bytes.
  \<^item> \<open>Gc_Flows\<close> (\<^verbatim>\<open>gc.go\<close>, \<^verbatim>\<open>flows.go\<close>): a sweep removes what the data path regards as expired and changes no verdict; the
    bounded scan shows what it says.
  \<^item> \<open>Flow_Monitor\<close> (\<^verbatim>\<open>flowmonitor.go\<close>) and \<open>Stats\<close> (\<^verbatim>\<open>stats.go\<close>): longest match, windows, accuracy of the
    estimates, spikes, publishing and reading back.
  \<^item> \<open>Host_Tuning\<close>, \<open>Tuning_Restore\<close> (\<^verbatim>\<open>tuning.go\<close>): every step of the profile over an arbitrary host; a preview
    changes nothing and a restore undoes an apply. \<open>Wizard\<close> (\<^verbatim>\<open>wizard.go\<close>, \<^verbatim>\<open>probe.go\<close>): the dialogue over the lines of the
    input, and that what it writes can be loaded.
  \<^item> \<open>Controller\<close> (\<^verbatim>\<open>controller.go\<close>): staging, conflicts, apply with rollback, reattachment.
  \<^item> \<open>Dashboard\<close>, \<open>Console\<close> (\<^verbatim>\<open>manage.go\<close>): the console as a machine over user events, with the relation
    \<open>console_step\<close> and its sessions \<open>console_run\<close>. The locale \<open>session_invariant\<close> of \<open>Console_Steps\<close> is the contract of an
    invariant over history and state; it is interpreted for scans, staged edits, typed words and consistency.
    \<open>Console_Forms\<close> and \<open>Console_Props\<close> show that edits stay staged, that nothing is detached without the typed word, and
    which configurations an apply can still refuse.
  \<^item> \<open>Daemon\<close>, \<open>Watch\<close>, \<open>Cli\<close>, \<open>Command\<close> (\<^verbatim>\<open>main.go\<close>): start, reload with its rollbacks, collector and packets as one step
    relation, the watch that loses no edit, the commands, and the main loop up to a shutdown that leaves the data
    path attached.

  \<^bold>\<open>Conventions.\<close> A raise or an early return is a value of an error type or an option, and the state an error path leaves is
  part of the result. What the kernel, the operating system, \<^verbatim>\<open>systemctl\<close> or the user answers is an argument (the records
  \<open>kenv\<close>, \<open>sysenv\<close>, \<open>ctl_env\<close>, \<open>reload_env\<close>, \<open>machine\<close>, \<open>wizard_env\<close>, \<open>console_env\<close> and others), and the theorems hold for
  every answer unless a hypothesis says otherwise. YAML and JSON coding, SHA-256, \<^verbatim>\<open>ParseFloat\<close>, float printing, \<^verbatim>\<open>ethtool\<close> and
  the compiled BPF object are such parameters; each property with a law on one of them has a witness with a
  concrete instance. \<open>None\<close> as a result of the resource probe, the CPU list parser, the tuner and the port prompt means that
  the code panics or does not return; the theorems on these say exactly when that is. The VLAN loop of the data path has
  the bound of the source (\<open>MAX_VLAN_DEPTH\<close>); the fuel of \<open>ipv6Loop\<close> is the number of groups of an address, which is
  what the loop of the library visits at most. No other loop has fuel.

  \<^bold>\<open>Not modelled.\<close> Packets are atomic: races between CPUs inside one packet are left out, as are program verification
  and JIT. Two goroutines interleave at the granularity of a worker's turn, a background operation or a queued update.
  File descriptors, ticker timing, log lines, the usage text, the layout of the printed report and of the widgets, the table
  of network ports of the wizard and the texts for uptime and byte sizes are output only. \<^verbatim>\<open>meta.go\<close> is a constant and \<^verbatim>\<open>gen.go\<close> a
  build directive; tests, packaging and CI are outside the program.
\<close>

end
